(* ===== verification/DStar_Prelude.thy ===== *)
theory DStar_Prelude
  imports Complex_Main "HOL-Library.Product_Lexorder" "HOL-Library.Multiset"
begin

text \<open>
  Shared vocabulary of the D* Lite development. Python's \<open>float\<close> values that the
  planner stores (costs, \<open>g\<close>, \<open>rsh\<close>, key components) are finite numbers or
  \<open>float('inf')\<close>; they are modelled by \<open>pyfloat\<close>, a real number or \<open>PInf\<close>,
  ordered as Python orders them and added as Python adds them (anything plus
  \<open>inf\<close> is \<open>inf\<close>). Rounding of IEEE doubles is not modelled: \<open>1.4\<close> is the
  exact rational 7/5. The Python exceptions the core can raise are the constructors of
  \<open>error\<close>; a fallible operation returns \<open>error + 'a\<close>, chained with \<open>ebind\<close>.
  Vertices are referred to by their grid coordinates \<open>coord\<close> (vertex identity in the
  source is object identity, and the grid holds exactly one vertex per coordinate).
\<close>

named_theorems pyfloat_simps "evaluation rules of the pyfloat operations"
named_theorems heap_idx "index arithmetic of the binary heap layout"

section \<open>Python floats with infinity\<close>

datatype pyfloat = Fl real | PInf

instantiation pyfloat :: linorder
begin

fun less_eq_pyfloat :: "pyfloat \<Rightarrow> pyfloat \<Rightarrow> bool" where
  "less_eq_pyfloat (Fl a) (Fl b) = (a \<le> b)"
| "less_eq_pyfloat _ PInf = True"
| "less_eq_pyfloat PInf (Fl _) = False"

fun less_pyfloat :: "pyfloat \<Rightarrow> pyfloat \<Rightarrow> bool" where
  "less_pyfloat (Fl a) (Fl b) = (a < b)"
| "less_pyfloat (Fl _) PInf = True"
| "less_pyfloat PInf _ = False"

instance
proof
  fix x y z :: pyfloat
  show "(x < y) = (x \<le> y \<and> \<not> y \<le> x)" by (cases x; cases y) auto
  show "x \<le> x" by (cases x) auto
  show "x \<le> y \<Longrightarrow> y \<le> z \<Longrightarrow> x \<le> z" by (cases x; cases y; cases z) auto
  show "x \<le> y \<Longrightarrow> y \<le> x \<Longrightarrow> x = y" by (cases x; cases y) auto
  show "x \<le> y \<or> y \<le> x" by (cases x; cases y) auto
qed

end

instantiation pyfloat :: ordered_comm_monoid_add
begin

definition zero_pyfloat :: pyfloat where
  "zero_pyfloat = Fl 0"

fun plus_pyfloat :: "pyfloat \<Rightarrow> pyfloat \<Rightarrow> pyfloat" where
  "plus_pyfloat (Fl a) (Fl b) = Fl (a + b)"
| "plus_pyfloat _ _ = PInf"

instance
proof
  fix a b c :: pyfloat
  show "a + b + c = a + (b + c)" by (cases a; cases b; cases c) auto
  show "a + b = b + a" by (cases a; cases b) auto
  show "0 + a = a" by (cases a) (auto simp: zero_pyfloat_def)
  show "a \<le> b \<Longrightarrow> c + a \<le> c + b" by (cases a; cases b; cases c) auto
qed

end

lemma pyfloat_add_PInf [simp, pyfloat_simps]:
  "x + PInf = PInf" "PInf + x = PInf"
  by (cases x; simp)+

lemma pyfloat_PInf_le [simp, pyfloat_simps]:
  "PInf \<le> x \<longleftrightarrow> x = PInf" "x < PInf \<longleftrightarrow> x \<noteq> PInf"
  by (cases x; simp)+

lemma pyfloat_le_PInf [simp, pyfloat_simps]: "x \<le> PInf"
  by (cases x) simp_all

lemma pyfloat_zero_Fl [pyfloat_simps]: "(0::pyfloat) = Fl 0"
  by (simp add: zero_pyfloat_def)

lemma pyfloat_add_nonneg [pyfloat_simps]:
  "(0::pyfloat) \<le> a \<Longrightarrow> 0 \<le> b \<Longrightarrow> 0 \<le> a + b"
  by (cases a; cases b) (simp_all add: zero_pyfloat_def)

lemma pyfloat_le_add_right [pyfloat_simps]:
  "(0::pyfloat) \<le> b \<Longrightarrow> a \<le> a + b"
  by (cases a; cases b) (simp_all add: zero_pyfloat_def)

section \<open>Exceptions\<close>

text \<open>
  The exceptions of the mailbox codec \<open>EV3mailbox.py\<close>. \<open>BufferError\<close>: the checks of
  \<open>decodeMessage\<close>; \<open>StructError\<close>: \<open>struct.error\<close>, a
  buffer too short to unpack from or a number too large for its field;
  \<open>UnicodeDecodeError\<close>/\<open>UnicodeEncodeError\<close>: a byte or character outside ASCII;
  \<open>MTypeError\<close>: a value that does not fit the message type (\<open>'abc' + 1\<close>).
\<close>

datatype mb_error = BufferError | StructError | UnicodeDecodeError | UnicodeEncodeError | MTypeError

text \<open>
  The Python exceptions the modelled code can raise. \<open>IndexError\<close>: popping an empty
  list or indexing the empty result of \<open>sorted\<close>; \<open>NotANeighbor\<close>: the
  \<open>Exception("NeighborCost: Vertex is not a neighbor")\<close> of \<open>neighborCost\<close>;
  \<open>AttributeError\<close>: reading an attribute of \<open>None\<close> (an unset node);
  \<open>TypeError\<close>: indexing the grid with the \<open>float('inf')\<close> sentinel of unset
  coordinates; \<open>KeyError\<close>: removing from a set an element it does not hold, or
  reading a dictionary at a missing key; \<open>UnboundLocalError\<close>: reading a local variable
  that no branch assigned; \<open>MailboxError\<close>: an exception of the mailbox codec;
  \<open>SerialException\<close>: pyserial's failure to open a port without a device.
\<close>

datatype error = IndexError | NotANeighbor | AttributeError | TypeError | KeyError | UnboundLocalError | MailboxError mb_error
  | SerialException

definition ebind :: "error + 'a \<Rightarrow> ('a \<Rightarrow> error + 'b) \<Rightarrow> error + 'b" where
  "ebind m f = (case m of Inl e \<Rightarrow> Inl e | Inr a \<Rightarrow> f a)"

lemma ebind_simps [simp]:
  "ebind (Inl e) f = Inl e" "ebind (Inr a) f = f a"
  by (simp_all add: ebind_def)

lemma ebind_eq_Inr:
  "ebind m f = Inr b \<longleftrightarrow> (\<exists>a. m = Inr a \<and> f a = Inr b)"
  by (cases m) simp_all

text \<open>A Python loop \<open>for x in xs: f(x)\<close> over a state, stopping at the first exception.\<close>

fun efold :: "('s \<Rightarrow> 'a \<Rightarrow> error + 's) \<Rightarrow> 's \<Rightarrow> 'a list \<Rightarrow> error + 's" where
  "efold f s [] = Inr s"
| "efold f s (x # xs) = ebind (f s x) (\<lambda>s'. efold f s' xs)"

lemma efold_append:
  "efold f s (xs @ ys) = ebind (efold f s xs) (\<lambda>s'. efold f s' ys)"
proof (induction xs arbitrary: s)
  case Nil
  then show ?case by simp
next
  case (Cons x xs)
  then show ?case by (cases "f s x") simp_all
qed

text \<open>
  An invariant kept by every successful call of the loop body is kept by the loop.
\<close>

lemma efold_invariant:
  assumes step: "\<And>s x s'. P s \<Longrightarrow> x \<in> set xs \<Longrightarrow> f s x = Inr s' \<Longrightarrow> P s'"
    and start: "P s" and run: "efold f s xs = Inr s'"
  shows "P s'"
  using start run step
proof (induction xs arbitrary: s)
  case Nil
  then show ?case by simp
next
  case (Cons x xs)
  from Cons.prems(2) obtain s1 where s1: "f s x = Inr s1" and rest: "efold f s1 xs = Inr s'"
    by (cases "f s x") simp_all
  have p1: "P s1"
    by (rule Cons.prems(3)[OF Cons.prems(1) _ s1]) simp
  have "\<And>s y s'. P s \<Longrightarrow> y \<in> set xs \<Longrightarrow> f s y = Inr s' \<Longrightarrow> P s'"
  proof -
    fix s1 y s2
    assume a: "P s1" "y \<in> set xs" "f s1 y = Inr s2"
    show "P s2" by (rule Cons.prems(3)[OF a(1) _ a(3)]) (simp add: a(2))
  qed
  with p1 rest show ?case by (rule Cons.IH)
qed

text \<open>A list comprehension \<open>[f(x) for x in xs]\<close> whose element expression may raise.\<close>

fun emap :: "('a \<Rightarrow> error + 'b) \<Rightarrow> 'a list \<Rightarrow> error + 'b list" where
  "emap f [] = Inr []"
| "emap f (x # xs) = ebind (f x) (\<lambda>y. ebind (emap f xs) (\<lambda>ys. Inr (y # ys)))"

lemma emap_Inr_iff: "emap f xs = Inr ys \<longleftrightarrow> list_all2 (\<lambda>x y. f x = Inr y) xs ys"
proof (induction xs arbitrary: ys)
  case Nil
  then show ?case by auto
next
  case (Cons x xs)
  show ?case
  proof (cases "f x")
    case (Inl e)
    then show ?thesis by (simp add: list_all2_Cons1)
  next
    case (Inr y)
    then show ?thesis
      using Cons.IH by (cases "emap f xs") (auto simp: list_all2_Cons1)
  qed
qed

lemma emap_all_Inr:
  "(\<And>x. x \<in> set xs \<Longrightarrow> f x = Inr (g x)) \<Longrightarrow> emap f xs = Inr (map g xs)"
  by (induction xs) auto

lemma emap_Inr_set: "emap f xs = Inr ys \<Longrightarrow> set ys = {y. \<exists>x\<in>set xs. f x = Inr y}"
  by (induction xs arbitrary: ys) (auto simp: ebind_eq_Inr)

lemma emap_total: "(\<And>x. x \<in> set xs \<Longrightarrow> \<exists>y. f x = Inr y) \<Longrightarrow> \<exists>ys. emap f xs = Inr ys"
  by (induction xs) (fastforce simp: ebind_eq_Inr)+

section \<open>Python ranges and list indexing\<close>

text \<open>Python's \<open>x in range(n)\<close> for an integer \<open>x\<close>.\<close>

definition in_range :: "int \<Rightarrow> int \<Rightarrow> bool" where
  "in_range v n \<longleftrightarrow> 0 \<le> v \<and> v < n"

text \<open>
  Python list indexing \<open>xs[i]\<close> with an integer: a negative index counts from the end,
  anything else out of range raises \<open>IndexError\<close>.
\<close>

definition py_index :: "'a list \<Rightarrow> int \<Rightarrow> error + 'a" where
  "py_index xs i =
     (let len = int (length xs); pos = (if 0 \<le> i then i else i + len) in
      if in_range pos len then Inr (xs ! nat pos) else Inl IndexError)"

lemma py_index_Inr:
  assumes "py_index xs i = Inr v"
  shows "\<exists>j<length xs. v = xs ! j"
proof -
  define j where "j = (if 0 \<le> i then i else i + int (length xs))"
  have "0 \<le> j \<and> j < int (length xs) \<and> v = xs ! nat j"
    using assms by (auto simp: py_index_def Let_def j_def in_range_def split: if_splits)
  then show ?thesis by (intro exI[of _ "nat j"]) auto
qed

lemma py_index_in_range: "0 \<le> i \<Longrightarrow> i < int (length xs) \<Longrightarrow> py_index xs i = Inr (xs ! nat i)"
  by (simp add: py_index_def in_range_def)

section \<open>Names of the model's types\<close>

type_synonym coord = "int \<times> int"
type_synonym key = "pyfloat \<times> pyfloat"


section \<open>Lists\<close>

text \<open>\<open>sorted(values)[0]\<close>: the least element of a non-empty list.\<close>

lemma hd_sort_Min:
  fixes xs :: "'a::linorder list"
  assumes "xs \<noteq> []"
  shows "hd (sort xs) = Min (set xs)"
proof -
  have ne: "sort xs \<noteq> []" using assms by (cases xs) simp_all
  have "sorted (sort xs)" by simp
  then have "\<forall>y\<in>set (sort xs). hd (sort xs) \<le> y"
    using ne by (cases "sort xs") auto
  moreover have "hd (sort xs) \<in> set xs"
    using ne hd_in_set[OF ne] by simp
  ultimately show ?thesis
    by (intro Min_eqI[symmetric]) auto
qed

lemma distinct_map_filter_snd:
  "distinct (map snd xs) \<Longrightarrow> distinct (map snd (filter P xs))"
  by (induction xs) auto

lemma mset_update_swap:
  assumes "i < length xs" "j < length xs"
  shows "mset (xs[i := xs ! j, j := a]) = mset (xs[i := a])"
proof (cases "i = j")
  case True
  then show ?thesis by simp
next
  case False
  have "mset (xs[i := xs ! j, j := a])
      = add_mset a (add_mset (xs ! j) (mset xs - {#xs ! i#}) - {#xs ! j#})"
    using assms False by (simp add: mset_update)
  also have "\<dots> = add_mset a (mset xs - {#xs ! i#})"
    by simp
  also have "\<dots> = mset (xs[i := a])"
    using assms by (simp add: mset_update)
  finally show ?thesis .
qed

text \<open>
  A list of pairs has distinct second components when no second component is counted
  twice in its multiset; the queue's entries are such pairs.
\<close>

lemma distinct_count_le1: "distinct ys \<longleftrightarrow> (\<forall>c. count (mset ys) c \<le> 1)"
proof
  assume "distinct ys"
  then show "\<forall>c. count (mset ys) c \<le> 1" by (simp add: distinct_count_atmost_1)
next
  assume le: "\<forall>c. count (mset ys) c \<le> 1"
  have "count (mset ys) a = (if a \<in> set ys then 1 else 0)" for a
  proof (cases "a \<in> set ys")
    case True
    then have "0 < count (mset ys) a" by simp
    moreover have "count (mset ys) a \<le> 1" using le by blast
    ultimately have "count (mset ys) a = 1" by linarith
    then show ?thesis using True by simp
  next
    case False
    then show ?thesis by (simp add: count_mset_0_iff)
  qed
  then show "distinct ys" by (simp add: distinct_count_atmost_1)
qed

lemma distinct_snd_count:
  "distinct (map snd xs) \<longleftrightarrow> (\<forall>c. count (image_mset snd (mset xs)) c \<le> 1)"
  by (simp add: distinct_count_le1 flip: mset_map)

lemma count_filter_add:
  assumes "\<forall>c. count (image_mset snd M) c \<le> 1" "N = {#} \<or> N = {#(k, u)#}"
  shows "\<forall>c. count (image_mset snd (filter_mset (\<lambda>e. snd e \<noteq> u) M + N)) c \<le> 1"
proof
  fix c
  have "count (image_mset snd (filter_mset (\<lambda>e. snd e \<noteq> u) M)) c =
          (if c = u then 0 else count (image_mset snd M) c)"
    by (induction M) auto
  then show "count (image_mset snd (filter_mset (\<lambda>e. snd e \<noteq> u) M + N)) c \<le> 1"
    using assms by auto
qed

end
