(* ===== verification/Vertex.thy ===== *)
theory Vertex
  imports DStar_Prelude
begin

text \<open>
  The class \<open>Vertex\<close> of \<open>src/20_Raspberry_Pi_project/vertex.py\<close>: one cell of the
  planning grid with its cost estimates \<open>g\<close> and \<open>rsh\<close> (the source's name for
  D* Lite's \<open>rhs\<close>), its goal and obstacle flags and the key it last computed. The
  methods that mutate the object return the updated record. The fields \<open>x\<close>,
  \<open>y\<close>, \<open>g\<close> and \<open>key\<close> are named \<open>vx\<close>, \<open>vy\<close>, \<open>gval\<close> and
  \<open>vkey\<close>, so that they do not capture the variable names of the lemmas.
\<close>

record vertex =
  vx :: int
  vy :: int
  gval :: pyfloat
  rsh :: pyfloat
  isGoal :: bool
  isObstacle :: bool
  vkey :: "key option"

text \<open>
  \<open>vkey = None\<close> is the constructor's \<open>self.key=0\<close>, an integer that is replaced by a
  key tuple the first time \<open>calculateKey\<close> runs.
\<close>

definition new_vertex :: "int \<Rightarrow> int \<Rightarrow> vertex" where
  "new_vertex x y =
     \<lparr>vx = x, vy = y, gval = PInf, rsh = PInf, isGoal = False, isObstacle = False,
      vkey = None\<rparr>"

definition setIsGoal :: "vertex \<Rightarrow> bool \<Rightarrow> vertex" where
  "setIsGoal v b = v\<lparr>isGoal := b, rsh := (if b then Fl 0 else PInf)\<rparr>"

definition setIsObstacle :: "vertex \<Rightarrow> bool \<Rightarrow> vertex" where
  "setIsObstacle v b = (let v' = v\<lparr>isObstacle := b\<rparr> in if b then v'\<lparr>rsh := PInf\<rparr> else v')"

text \<open>
  \<open>math.sqrt(math.pow(dx,2) + math.pow(dy,2))\<close>. Its code equation is exact on the
  axes and aborts elsewhere: the real square root has no executable counterpart, and
  only the 8-neighbour heuristic calls it.
\<close>

definition euclid_dist :: "int \<Rightarrow> int \<Rightarrow> real" where
  "euclid_dist dx dy = sqrt ((of_int dx)\<^sup>2 + (of_int dy)\<^sup>2)"

lemma euclid_dist_code [code]:
  "euclid_dist dx dy =
     (if dx = 0 then of_int \<bar>dy\<bar> else if dy = 0 then of_int \<bar>dx\<bar>
      else Code.abort (STR ''sqrt'') (\<lambda>_. euclid_dist dx dy))"
  by (simp add: euclid_dist_def)

text \<open>
  The heuristic \<open>h\<close>. The start node is passed by reference (its coordinates, or
  \<open>None\<close> while the planner's \<open>startNode\<close> is unset); reading the coordinates of
  \<open>None\<close> raises \<open>AttributeError\<close>, which can only happen when the heuristic is on.
\<close>

definition vertex_h :: "vertex \<Rightarrow> coord option \<Rightarrow> bool \<Rightarrow> bool \<Rightarrow> error + pyfloat" where
  "vertex_h v start hIsZero directNeighbors =
     (if hIsZero then Inr (Fl 0)
      else case start of
        None \<Rightarrow> Inl AttributeError
      | Some (sx, sy) \<Rightarrow>
          (if directNeighbors then Inr (Fl (of_int (\<bar>vx v - sx\<bar> + \<bar>vy v - sy\<bar>)))
           else Inr (Fl (euclid_dist (vx v - sx) (vy v - sy)))))"

definition calculateKey ::
  "vertex \<Rightarrow> coord option \<Rightarrow> pyfloat \<Rightarrow> bool \<Rightarrow> bool \<Rightarrow> error + key \<times> vertex" where
  "calculateKey v start k hIsZero directNeighbors =
     (let min1 = (if gval v < rsh v then gval v else rsh v) in
      ebind (vertex_h v start hIsZero directNeighbors)
        (\<lambda>hv. let kk = (min1 + hv + k, min1) in Inr (kk, v\<lparr>vkey := Some kk\<rparr>)))"

text \<open>
  \<open>__lt__\<close>: vertices compare by their cached keys. Comparing the integer \<open>0\<close> with a
  tuple raises \<open>TypeError\<close> in Python and \<open>0 < 0\<close> is false; the model answers
  \<open>False\<close> whenever a key is unset. This case is unreachable: the priority queue only
  compares vertices it holds, and every vertex is keyed before it is inserted
  (\<open>Planner.queue_keyed\<close>).
\<close>

definition key_lt :: "key option \<Rightarrow> key option \<Rightarrow> bool" where
  "key_lt a b = (case (a, b) of (Some ka, Some kb) \<Rightarrow> ka < kb | _ \<Rightarrow> False)"

definition vertex_lt :: "vertex \<Rightarrow> vertex \<Rightarrow> bool" where
  "vertex_lt v w = key_lt (vkey v) (vkey w)"

section \<open>Properties\<close>

lemma calculateKey_min1: "(if a < b then a else b) = min a (b::pyfloat)"
  by (auto simp: min_def)

lemma vertex_h_Inr:
  "vertex_h v start hz dn = Inr hv \<Longrightarrow> 0 \<le> hv"
  by (auto simp: vertex_h_def zero_pyfloat_def euclid_dist_def split: if_splits option.splits)

lemma vertex_h_ok:
  "(\<exists>hv. vertex_h v start hz dn = Inr hv) \<longleftrightarrow> hz \<or> start \<noteq> None"
  by (auto simp: vertex_h_def split: option.splits)

lemma vertex_h_only_coords:
  "vx v = vx w \<Longrightarrow> vy v = vy w \<Longrightarrow> vertex_h v start hz dn = vertex_h w start hz dn"
  by (simp add: vertex_h_def split: option.splits)

text \<open>The key is \<open>(min(g, rsh) + h + k, min(g, rsh))\<close> and is cached in the vertex.\<close>

lemma calculateKey_Inr:
  "calculateKey v start k hz dn = Inr (kk, v') \<longleftrightarrow>
     (\<exists>hv. vertex_h v start hz dn = Inr hv \<and>
           kk = (min (gval v) (rsh v) + hv + k, min (gval v) (rsh v)) \<and>
           v' = v\<lparr>vkey := Some kk\<rparr>)"
  by (cases "vertex_h v start hz dn") (auto simp: calculateKey_def min_def Let_def)

lemma calculateKey_ok:
  "(\<exists>r. calculateKey v start k hz dn = Inr r) \<longleftrightarrow> hz \<or> start \<noteq> None"
  using vertex_h_ok[of v start hz dn]
  by (cases "vertex_h v start hz dn") (auto simp: calculateKey_def Let_def)

lemma calculateKey_frame:
  "calculateKey v start k hz dn = Inr (kk, v') \<Longrightarrow>
     vx v' = vx v \<and> vy v' = vy v \<and> gval v' = gval v \<and> rsh v' = rsh v \<and>
     isGoal v' = isGoal v \<and> isObstacle v' = isObstacle v \<and> vkey v' = Some kk"
  by (auto simp: calculateKey_Inr)

text \<open>
  The second key component never exceeds the first when the offset \<open>k\<close> is
  non-negative: the heuristic is never negative.
\<close>

lemma calculateKey_snd_le_fst:
  assumes "calculateKey v start k hz dn = Inr (kk, v')" and "0 \<le> k"
  shows "snd kk \<le> fst kk"
proof -
  obtain hv where hv: "vertex_h v start hz dn = Inr hv"
    and kk: "kk = (min (gval v) (rsh v) + hv + k, min (gval v) (rsh v))"
    using assms(1) by (auto simp: calculateKey_Inr)
  have "0 \<le> hv + k" using vertex_h_Inr[OF hv] assms(2) by (rule pyfloat_add_nonneg)
  then show ?thesis
    using pyfloat_le_add_right[of "hv + k" "min (gval v) (rsh v)"] kk
    by (simp add: add.assoc)
qed

lemma calculateKey_vkey [simp]:
  "calculateKey (v\<lparr>vkey := x\<rparr>) start k hz dn = calculateKey v start k hz dn"
  by (simp add: calculateKey_def vertex_h_def Let_def split: option.splits)

lemma setIsGoal_simps [simp]:
  "isGoal (setIsGoal v b) = b" "rsh (setIsGoal v b) = (if b then Fl 0 else PInf)"
  "vx (setIsGoal v b) = vx v" "vy (setIsGoal v b) = vy v" "gval (setIsGoal v b) = gval v"
  "isObstacle (setIsGoal v b) = isObstacle v" "vkey (setIsGoal v b) = vkey v"
  by (simp_all add: setIsGoal_def)

lemma setIsObstacle_simps [simp]:
  "isObstacle (setIsObstacle v b) = b" "rsh (setIsObstacle v b) = (if b then PInf else rsh v)"
  "vx (setIsObstacle v b) = vx v" "vy (setIsObstacle v b) = vy v"
  "gval (setIsObstacle v b) = gval v" "isGoal (setIsObstacle v b) = isGoal v"
  "vkey (setIsObstacle v b) = vkey v"
  by (simp_all add: setIsObstacle_def Let_def)

lemma new_vertex_simps [simp]:
  "vx (new_vertex x y) = x" "vy (new_vertex x y) = y" "gval (new_vertex x y) = PInf"
  "rsh (new_vertex x y) = PInf" "isGoal (new_vertex x y) = False"
  "isObstacle (new_vertex x y) = False" "vkey (new_vertex x y) = None"
  by (simp_all add: new_vertex_def)

end
