(* ===== verification/Grid.thy ===== *)
theory Grid
  imports Vertex
begin

text \<open>
  The vertex grid of \<open>DStarLitePlanner\<close> (\<open>src/20_Raspberry_Pi_project/DStarLitePlanner.py\<close>):
  \<open>vertexGrid\<close>, a list of columns, each a list of \<open>Vertex\<close> objects, so that
  \<open>vertexGrid[x][y]\<close> is the cell \<open>(x, y)\<close>; and the two planner methods that
  define the graph on it, \<open>neighbors\<close> (4- or 8-connectivity) and \<open>neighborCost\<close>.
  A vertex object is referred to by its coordinates: \<open>vget\<close> reads the vertex a
  reference denotes and \<open>vset\<close> writes it back after a mutation. External coordinates
  (clicks, the stored start and goal) are read with Python's indexing
  (\<open>grid_lookup\<close>), where a negative index wraps around.
\<close>

type_synonym vgrid = "vertex list list"

definition init_grid :: "int \<Rightarrow> int \<Rightarrow> vgrid" where
  "init_grid gridWidth gridHeight =
     map (\<lambda>x. map (\<lambda>y. new_vertex x y) [0..gridHeight - 1]) [0..gridWidth - 1]"

definition vget :: "vgrid \<Rightarrow> coord \<Rightarrow> vertex" where
  "vget vg c = vg ! nat (fst c) ! nat (snd c)"

definition vset :: "vgrid \<Rightarrow> coord \<Rightarrow> vertex \<Rightarrow> vgrid" where
  "vset vg c v = vg[nat (fst c) := (vg ! nat (fst c))[nat (snd c) := v]]"

definition grid_lookup :: "vgrid \<Rightarrow> coord \<Rightarrow> error + vertex" where
  "grid_lookup vg c = ebind (py_index vg (fst c)) (\<lambda>col. py_index col (snd c))"

text \<open>
  \<open>neighbors\<close>. The flag is the one the method reads, \<open>self.view.directNeigbors.get()\<close>
  (the view's check box), not the planner's own \<open>directNeighbors\<close>.
\<close>

definition neighbors :: "bool \<Rightarrow> int \<Rightarrow> int \<Rightarrow> vertex \<Rightarrow> coord list" where
  "neighbors direct width height aVertex =
     (if \<not> direct then
        concat (map (\<lambda>x. concat (map (\<lambda>y.
            if in_range x width \<and> in_range y height \<and> \<not> (x = vx aVertex \<and> y = vy aVertex)
            then [(x, y)] else [])
          [vy aVertex - 1..vy aVertex + 1]))
        [vx aVertex - 1..vx aVertex + 1])
      else
        (if vx aVertex - 1 \<ge> 0 then [(vx aVertex - 1, vy aVertex)] else []) @
        (if vx aVertex + 1 < width then [(vx aVertex + 1, vy aVertex)] else []) @
        (if vy aVertex - 1 \<ge> 0 then [(vx aVertex, vy aVertex - 1)] else []) @
        (if vy aVertex + 1 < height then [(vx aVertex, vy aVertex + 1)] else []))"

definition neighborCost :: "vertex \<Rightarrow> vertex \<Rightarrow> error + pyfloat" where
  "neighborCost fromVertex toVertex =
     (if isObstacle toVertex \<or> isObstacle fromVertex then Inr PInf
      else if (\<bar>vx fromVertex - vx toVertex\<bar> = 0 \<and> \<bar>vy fromVertex - vy toVertex\<bar> = 1) \<or>
              (\<bar>vx fromVertex - vx toVertex\<bar> = 1 \<and> \<bar>vy fromVertex - vy toVertex\<bar> = 0)
      then Inr (Fl 1)
      else if \<bar>vx fromVertex - vx toVertex\<bar> = 1 \<and> \<bar>vy fromVertex - vy toVertex\<bar> = 1
      then Inr (Fl 1.4)
      else Inl NotANeighbor)"

text \<open>
  Well-formedness of the grid: \<open>width\<close> columns of \<open>height\<close> cells, and the vertex
  stored at \<open>[x][y]\<close> knows its own coordinates, so that a reference (a coordinate
  pair) and the object it denotes agree.
\<close>

definition grid_wf :: "int \<Rightarrow> int \<Rightarrow> vgrid \<Rightarrow> bool" where
  "grid_wf w h vg \<longleftrightarrow>
     length vg = nat w \<and>
     (\<forall>x<nat w. length (vg ! x) = nat h \<and>
        (\<forall>y<nat h. vx (vg ! x ! y) = int x \<and> vy (vg ! x ! y) = int y))"

definition in_grid :: "int \<Rightarrow> int \<Rightarrow> coord \<Rightarrow> bool" where
  "in_grid w h c \<longleftrightarrow> in_range (fst c) w \<and> in_range (snd c) h"

section \<open>The vertex store\<close>

named_theorems grid_simps "reading and writing the vertex grid"

lemma upto_around: "[a - 1..a + 1] = [a - 1, a, a + (1::int)]"
  by (simp add: upto_rec1)

lemma init_grid_wf: "grid_wf w h (init_grid w h)"
  by (auto simp: grid_wf_def init_grid_def)

lemma grid_wf_cell:
  assumes "grid_wf w h vg" "in_grid w h c"
  shows "nat (fst c) < length vg" "nat (snd c) < length (vg ! nat (fst c))"
    "vx (vget vg c) = fst c" "vy (vget vg c) = snd c"
  using assms by (auto simp: grid_wf_def in_grid_def in_range_def vget_def)

lemma vget_coords [grid_simps]:
  "grid_wf w h vg \<Longrightarrow> in_grid w h c \<Longrightarrow> (vx (vget vg c), vy (vget vg c)) = c"
  using grid_wf_cell(3,4) by (cases c) fastforce

lemma vget_vset [grid_simps]:
  assumes "grid_wf w h vg" "in_grid w h c" "in_grid w h d"
  shows "vget (vset vg c v) d = (if d = c then v else vget vg d)"
proof -
  have inj: "d = c \<longleftrightarrow> nat (fst d) = nat (fst c) \<and> nat (snd d) = nat (snd c)"
    using assms(2,3) by (cases c; cases d) (auto simp: in_grid_def in_range_def)
  show ?thesis
    using grid_wf_cell(1,2)[OF assms(1,2)] grid_wf_cell(1,2)[OF assms(1,3)] inj
    by (auto simp: vget_def vset_def nth_list_update)
qed

lemma grid_wf_vset [grid_simps]:
  assumes "grid_wf w h vg" "in_grid w h c" "vx v = fst c" "vy v = snd c"
  shows "grid_wf w h (vset vg c v)"
  using assms
  by (auto simp: grid_wf_def vset_def in_grid_def in_range_def nth_list_update)

lemma grid_lookup_in_grid:
  assumes "grid_wf w h vg" "in_grid w h c"
  shows "grid_lookup vg c = Inr (vget vg c)"
proof -
  have l: "nat (fst c) < length vg" "nat (snd c) < length (vg ! nat (fst c))"
    using grid_wf_cell(1,2)[OF assms] by simp_all
  have nn: "0 \<le> fst c" "0 \<le> snd c" using assms(2) by (simp_all add: in_grid_def in_range_def)
  have "py_index vg (fst c) = Inr (vg ! nat (fst c))"
    using l(1) nn(1) by (intro py_index_in_range) linarith+
  moreover have "py_index (vg ! nat (fst c)) (snd c) = Inr (vg ! nat (fst c) ! nat (snd c))"
    using l(2) nn(2) by (intro py_index_in_range) linarith+
  ultimately show ?thesis by (simp add: grid_lookup_def vget_def)
qed

text \<open>
  What Python's indexing finds is always a cell of the grid, also for a negative index:
  the reference taken from the vertex it returns is in the grid.
\<close>

lemma grid_lookup_cell:
  assumes "grid_wf w h vg" "grid_lookup vg c = Inr v"
  shows "in_grid w h (vx v, vy v) \<and> vget vg (vx v, vy v) = v"
proof -
  obtain col where col: "py_index vg (fst c) = Inr col" and v: "py_index col (snd c) = Inr v"
    using assms(2) by (auto simp: grid_lookup_def ebind_eq_Inr)
  obtain i where i: "i < length vg" "col = vg ! i"
    using py_index_Inr[OF col] by blast
  obtain j where j: "j < length col" "v = col ! j"
    using py_index_Inr[OF v] by blast
  have "vx v = int i" "vy v = int j" "i < nat w" "j < nat h"
    using assms(1) i j by (auto simp: grid_wf_def)
  then show ?thesis
    using i j by (auto simp: in_grid_def in_range_def vget_def)
qed

section \<open>The graph\<close>

lemma set_pairs_comprehension:
  "set (concat (map (\<lambda>x. concat (map (\<lambda>y. if P x y then [(x, y)] else []) ys)) xs)) =
     {(x, y). x \<in> set xs \<and> y \<in> set ys \<and> P x y}"
  by auto

lemma abs_le_1_iff: "\<bar>x - a\<bar> \<le> 1 \<longleftrightarrow> x \<in> {a - 1..a + (1::int)}"
  by auto

lemma manhattan_1:
  "\<bar>a\<bar> + \<bar>b\<bar> = (1::int) \<longleftrightarrow>
     (a = -1 \<and> b = 0) \<or> (a = 1 \<and> b = 0) \<or> (a = 0 \<and> b = -1) \<or> (a = 0 \<and> b = 1)"
  by (cases "0 \<le> a"; cases "0 \<le> b") auto

lemma abs_pair_cases:
  fixes a b :: int
  assumes "\<bar>a\<bar> \<le> 1" "\<bar>b\<bar> \<le> 1" "\<not> (a = 0 \<and> b = 0)"
  shows "(\<bar>a\<bar> = 0 \<and> \<bar>b\<bar> = 1) \<or> (\<bar>a\<bar> = 1 \<and> \<bar>b\<bar> = 0) \<longleftrightarrow> \<bar>a\<bar> + \<bar>b\<bar> = 1"
  using assms by arith
lemma abs_pair_cases2:
  fixes a b :: int
  assumes "\<bar>a\<bar> \<le> 1" "\<bar>b\<bar> \<le> 1" "\<not> (a = 0 \<and> b = 0)"
    "\<not> ((\<bar>a\<bar> = 0 \<and> \<bar>b\<bar> = 1) \<or> (\<bar>a\<bar> = 1 \<and> \<bar>b\<bar> = 0))"
  shows "\<bar>a\<bar> = 1 \<and> \<bar>b\<bar> = 1"
  using assms by arith

text \<open>The neighbours under 8-connectivity: every other cell of the 3x3 block in the grid.\<close>

lemma neighbors_8_set:
  "set (neighbors False w h v) =
     {c. in_grid w h c \<and> c \<noteq> (vx v, vy v) \<and> \<bar>fst c - vx v\<bar> \<le> 1 \<and> \<bar>snd c - vy v\<bar> \<le> 1}"
  unfolding neighbors_def
  by (simp only: not_False_eq_True if_True set_pairs_comprehension set_upto abs_le_1_iff)
     (auto simp: in_grid_def)

text \<open>Under 4-connectivity, for a vertex in the grid: the cells at Manhattan distance 1.\<close>

lemma neighbors_4_set:
  assumes "in_grid w h (vx v, vy v)"
  shows "set (neighbors True w h v) =
     {c. in_grid w h c \<and> \<bar>fst c - vx v\<bar> + \<bar>snd c - vy v\<bar> = 1}"
proof (intro set_eqI)
  fix c :: coord
  obtain a b where c: "c = (a, b)" by (cases c)
  have l: "c \<in> set (neighbors True w h v) \<longleftrightarrow>
      (a = vx v - 1 \<and> b = vy v \<and> vx v - 1 \<ge> 0) \<or> (a = vx v + 1 \<and> b = vy v \<and> vx v + 1 < w) \<or>
      (a = vx v \<and> b = vy v - 1 \<and> vy v - 1 \<ge> 0) \<or> (a = vx v \<and> b = vy v + 1 \<and> vy v + 1 < h)"
    by (simp add: neighbors_def c)
  have r: "c \<in> {c. in_grid w h c \<and> \<bar>fst c - vx v\<bar> + \<bar>snd c - vy v\<bar> = 1} \<longleftrightarrow>
      0 \<le> a \<and> a < w \<and> 0 \<le> b \<and> b < h \<and>
      ((a - vx v = -1 \<and> b - vy v = 0) \<or> (a - vx v = 1 \<and> b - vy v = 0) \<or>
       (a - vx v = 0 \<and> b - vy v = -1) \<or> (a - vx v = 0 \<and> b - vy v = 1))"
    by (simp only: c mem_Collect_eq fst_conv snd_conv manhattan_1 in_grid_def in_range_def conj_assoc)
  have g: "0 \<le> vx v" "vx v < w" "0 \<le> vy v" "vy v < h"
    using assms by (simp_all add: in_grid_def in_range_def)
  show "c \<in> set (neighbors True w h v) \<longleftrightarrow>
      c \<in> {c. in_grid w h c \<and> \<bar>fst c - vx v\<bar> + \<bar>snd c - vy v\<bar> = 1}"
    unfolding l r using g by linarith
qed

lemma neighbors_near:
  assumes "in_grid w h (vx v, vy v)" "c \<in> set (neighbors d w h v)"
  shows "in_grid w h c \<and> c \<noteq> (vx v, vy v) \<and> \<bar>fst c - vx v\<bar> \<le> 1 \<and> \<bar>snd c - vy v\<bar> \<le> 1"
proof (cases d)
  case True
  from assms(2) True have "c \<in> set (neighbors True w h v)" by simp
  then have "c \<in> {c. in_grid w h c \<and> \<bar>fst c - vx v\<bar> + \<bar>snd c - vy v\<bar> = 1}"
    by (simp only: neighbors_4_set[OF assms(1)])
  then have g: "in_grid w h c" and m: "\<bar>fst c - vx v\<bar> + \<bar>snd c - vy v\<bar> = 1"
    by simp_all
  have "c \<noteq> (vx v, vy v)"
  proof
    assume "c = (vx v, vy v)"
    with m show False by simp
  qed
  moreover have "\<bar>fst c - vx v\<bar> \<le> 1" "\<bar>snd c - vy v\<bar> \<le> 1"
    using m abs_ge_zero[of "fst c - vx v"] abs_ge_zero[of "snd c - vy v"] by linarith+
  ultimately show ?thesis using g by blast
next
  case False
  from assms(2) False have "c \<in> set (neighbors False w h v)" by simp
  then have "c \<in> {c. in_grid w h c \<and> c \<noteq> (vx v, vy v) \<and> \<bar>fst c - vx v\<bar> \<le> 1 \<and> \<bar>snd c - vy v\<bar> \<le> 1}"
    by (simp only: neighbors_8_set)
  then show ?thesis by (rule CollectD)
qed

lemma neighbors_in_grid:
  assumes "in_grid w h (vx v, vy v)" "c \<in> set (neighbors d w h v)"
  shows "in_grid w h c"
  using neighbors_near[OF assms] by (rule conjunct1)

lemma neighbors_distinct: "distinct (neighbors d w h v)"
  by (auto simp: neighbors_def upto_around)

lemma neighbors_coords:
  "vx v = vx u \<Longrightarrow> vy v = vy u \<Longrightarrow> neighbors d w h v = neighbors d w h u"
  by (simp add: neighbors_def)

text \<open>The neighbour relation is symmetric, so predecessors and successors coincide.\<close>

lemma neighbors_sym:
  assumes "in_grid w h (vx u, vy u)" "in_grid w h (vx v, vy v)"
  shows "(vx u, vy u) \<in> set (neighbors d w h v) \<longleftrightarrow> (vx v, vy v) \<in> set (neighbors d w h u)"
proof (cases d)
  case True
  then show ?thesis using assms by (simp add: neighbors_4_set abs_minus_commute add.commute)
next
  case False
  then show ?thesis using assms by (auto simp: neighbors_8_set abs_minus_commute)
qed

section \<open>Movement costs\<close>

lemma neighborCost_sym: "neighborCost a b = neighborCost b a"
  by (auto simp: neighborCost_def abs_minus_commute)

lemma neighborCost_neighbor:
  assumes "in_grid w h (vx v, vy v)" "(vx u, vy u) \<in> set (neighbors d w h v)"
  shows "neighborCost v u =
     Inr (if isObstacle u \<or> isObstacle v then PInf
          else if \<bar>vx v - vx u\<bar> + \<bar>vy v - vy u\<bar> = 1 then Fl 1 else Fl 1.4)"
proof -
  have nr: "(vx u, vy u) \<noteq> (vx v, vy v)" "\<bar>vx u - vx v\<bar> \<le> 1" "\<bar>vy u - vy v\<bar> \<le> 1"
    using neighbors_near[OF assms] by simp_all
  have n: "\<bar>vx v - vx u\<bar> \<le> 1" "\<bar>vy v - vy u\<bar> \<le> 1" "\<not> (vx v - vx u = 0 \<and> vy v - vy u = 0)"
  proof -
    show "\<bar>vx v - vx u\<bar> \<le> 1" using nr(2) by (simp add: abs_minus_commute)
    show "\<bar>vy v - vy u\<bar> \<le> 1" using nr(3) by (simp add: abs_minus_commute)
    show "\<not> (vx v - vx u = 0 \<and> vy v - vy u = 0)" using nr(1) by auto
  qed
  note c1 = abs_pair_cases[OF n] and c2 = abs_pair_cases2[OF n]
  show ?thesis
  proof (cases "isObstacle u \<or> isObstacle v")
    case True
    then show ?thesis by (simp add: neighborCost_def)
  next
    case False
    show ?thesis
    proof (cases "(\<bar>vx v - vx u\<bar> = 0 \<and> \<bar>vy v - vy u\<bar> = 1) \<or> (\<bar>vx v - vx u\<bar> = 1 \<and> \<bar>vy v - vy u\<bar> = 0)")
      case True
      then have "\<bar>vx v - vx u\<bar> + \<bar>vy v - vy u\<bar> = 1" using c1 by blast
      then show ?thesis using True False unfolding neighborCost_def by presburger
    next
      case nt: False
      then have "\<bar>vx v - vx u\<bar> = 1 \<and> \<bar>vy v - vy u\<bar> = 1" using c2 by blast
      moreover have "\<bar>vx v - vx u\<bar> + \<bar>vy v - vy u\<bar> \<noteq> 1" using nt c1 by blast
      ultimately show ?thesis using nt False unfolding neighborCost_def by presburger
    qed
  qed
qed

lemma neighborCost_ge_1: "neighborCost a b = Inr c \<Longrightarrow> Fl 1 \<le> c"
  by (auto simp: neighborCost_def split: if_splits)

lemma neighborCost_not_adjacent:
  "\<not> isObstacle a \<Longrightarrow> \<not> isObstacle b \<Longrightarrow> \<bar>vx a - vx b\<bar> > 1 \<or> \<bar>vy a - vy b\<bar> > 1 \<or>
     (vx a, vy a) = (vx b, vy b) \<Longrightarrow> neighborCost a b = Inl NotANeighbor"
  by (auto simp: neighborCost_def)

end
