(* ===== verification/Heapq.thy ===== *)
theory Heapq
  imports DStar_Prelude
begin

text \<open>
  Python's \<open>heapq\<close> module, on which \<open>priorityQueue.py\<close> builds its queue: a binary
  min-heap stored in a Python list, where the element at index \<open>i\<close> has its children
  at \<open>2i+1\<close> and \<open>2i+2\<close>. The functions follow the reference implementation of
  \<open>heapq.py\<close> in CPython (\<open>_siftdown\<close>, \<open>_siftup\<close>, \<open>heappush\<close>,
  \<open>heappop\<close>, \<open>heapify\<close>) and \<open>nsmallest\<close> with \<open>n = 1\<close>, which is
  \<open>min()\<close>. They are generic in the comparison \<open>lt\<close> (Python's \<open><\<close> on the
  elements); the module is a library of the Python distribution, not of the repository,
  so it is modelled from its documented algorithm. The mutable list is passed and
  returned; the \<open>while\<close> loops with a hole (\<open>newitem\<close> held aside) are recursive
  functions.
\<close>

definition heap_parent :: "nat \<Rightarrow> nat" where
  "heap_parent pos = (pos - 1) div 2"

function siftdown_loop :: "('a \<Rightarrow> 'a \<Rightarrow> bool) \<Rightarrow> 'a list \<Rightarrow> nat \<Rightarrow> nat \<Rightarrow> 'a \<Rightarrow> 'a list" where
  "siftdown_loop lt heap startpos pos newitem =
     (if startpos < pos then
        (let parentpos = (pos - 1) div 2; parent = heap ! parentpos in
         if lt newitem parent then siftdown_loop lt (heap[pos := parent]) startpos parentpos newitem
         else heap[pos := newitem])
      else heap[pos := newitem])"
  by pat_completeness auto
termination
  by (relation "measure (\<lambda>(lt, heap, startpos, pos, newitem). pos)") auto

declare siftdown_loop.simps [simp del]

definition siftdown :: "('a \<Rightarrow> 'a \<Rightarrow> bool) \<Rightarrow> 'a list \<Rightarrow> nat \<Rightarrow> nat \<Rightarrow> 'a list" where
  "siftdown lt heap startpos pos = siftdown_loop lt heap startpos pos (heap ! pos)"

function siftup_loop :: "('a \<Rightarrow> 'a \<Rightarrow> bool) \<Rightarrow> 'a list \<Rightarrow> nat \<Rightarrow> nat \<Rightarrow> 'a list \<times> nat" where
  "siftup_loop lt heap endpos pos =
     (let childpos = 2 * pos + 1 in
      if childpos < endpos then
        (let rightpos = childpos + 1;
             childpos' = (if rightpos < endpos \<and> \<not> lt (heap ! childpos) (heap ! rightpos)
                          then rightpos else childpos)
         in siftup_loop lt (heap[pos := heap ! childpos']) endpos childpos')
      else (heap, pos))"
  by pat_completeness auto
termination
  by (relation "measure (\<lambda>(lt, heap, endpos, pos). endpos - pos)") auto

declare siftup_loop.simps [simp del]

definition siftup :: "('a \<Rightarrow> 'a \<Rightarrow> bool) \<Rightarrow> 'a list \<Rightarrow> nat \<Rightarrow> 'a list" where
  "siftup lt heap pos =
     (let newitem = heap ! pos;
          (heap', pos') = siftup_loop lt heap (length heap) pos
      in siftdown lt (heap'[pos' := newitem]) pos pos')"

definition heappush :: "('a \<Rightarrow> 'a \<Rightarrow> bool) \<Rightarrow> 'a list \<Rightarrow> 'a \<Rightarrow> 'a list" where
  "heappush lt heap item = siftdown lt (heap @ [item]) 0 (length heap)"

text \<open>\<open>heap.pop()\<close> on an empty list raises \<open>IndexError\<close>.\<close>

definition heappop :: "('a \<Rightarrow> 'a \<Rightarrow> bool) \<Rightarrow> 'a list \<Rightarrow> error + 'a \<times> 'a list" where
  "heappop lt heap =
     (if heap = [] then Inl IndexError
      else
        (let lastelt = last heap; heap' = butlast heap in
         if heap' \<noteq> [] then Inr (heap' ! 0, siftup lt (heap'[0 := lastelt]) 0)
         else Inr (lastelt, heap')))"

definition heapify :: "('a \<Rightarrow> 'a \<Rightarrow> bool) \<Rightarrow> 'a list \<Rightarrow> 'a list" where
  "heapify lt x = foldl (\<lambda>h i. siftup lt h i) x (rev [0..<length x div 2])"

text \<open>The builtin \<open>min\<close> keeps the first item and replaces it by any later, smaller item.\<close>

definition py_min :: "('a \<Rightarrow> 'a \<Rightarrow> bool) \<Rightarrow> 'a \<Rightarrow> 'a list \<Rightarrow> 'a" where
  "py_min lt x xs = foldl (\<lambda>best item. if lt item best then item else best) x xs"

definition nsmallest1 :: "('a \<Rightarrow> 'a \<Rightarrow> bool) \<Rightarrow> 'a list \<Rightarrow> 'a list" where
  "nsmallest1 lt xs = (case xs of [] \<Rightarrow> [] | x # rest \<Rightarrow> [py_min lt x rest])"

section \<open>Lengths and contents\<close>

lemma heap_parent_less [heap_idx]: "0 < pos \<Longrightarrow> heap_parent pos < pos"
  by (simp add: heap_parent_def)

lemma length_siftdown_loop [simp]:
  "length (siftdown_loop lt heap s pos a) = length heap"
  by (induction lt heap s pos a rule: siftdown_loop.induct)
     (subst siftdown_loop.simps, simp add: Let_def)

lemma mset_siftdown_loop:
  "pos < length heap \<Longrightarrow> mset (siftdown_loop lt heap s pos a) = mset (heap[pos := a])"
proof (induction lt heap s pos a rule: siftdown_loop.induct)
  case (1 lt heap startpos pos newitem)
  let ?pp = "(pos - 1) div 2"
  show ?case
  proof (cases "startpos < pos \<and> lt newitem (heap ! ?pp)")
    case True
    then have pp: "?pp < length heap" using "1.prems" by linarith
    have "mset (siftdown_loop lt heap startpos pos newitem)
        = mset (siftdown_loop lt (heap[pos := heap ! ?pp]) startpos ?pp newitem)"
      using True by (subst siftdown_loop.simps) (simp add: Let_def)
    also have "\<dots> = mset (heap[pos := heap ! ?pp, ?pp := newitem])"
      using True pp by (intro "1.IH") (simp_all add: Let_def)
    also have "\<dots> = mset (heap[pos := newitem])"
      using "1.prems" pp by (rule mset_update_swap)
    finally show ?thesis .
  next
    case False
    then show ?thesis by (subst siftdown_loop.simps) (auto simp: Let_def)
  qed
qed

lemma siftup_loop_facts:
  "siftup_loop lt heap endpos pos = (heap', pos') \<Longrightarrow> pos < length heap \<Longrightarrow>
   endpos \<le> length heap \<Longrightarrow>
     length heap' = length heap \<and> pos' < length heap \<and> pos \<le> pos' \<and>
     (\<forall>a. mset (heap'[pos' := a]) = mset (heap[pos := a]))"
proof (induction lt heap endpos pos arbitrary: heap' pos' rule: siftup_loop.induct)
  case (1 lt heap endpos pos)
  let ?c = "2 * pos + 1"
  let ?m = "if ?c + 1 < endpos \<and> \<not> lt (heap ! ?c) (heap ! (?c + 1)) then ?c + 1 else ?c"
  show ?case
  proof (cases "?c < endpos")
    case True
    have m: "?m < length heap" "pos < ?m" using True "1.prems"(3) by auto
    have "siftup_loop lt heap endpos pos = siftup_loop lt (heap[pos := heap ! ?m]) endpos ?m"
      using True by (subst siftup_loop.simps) (simp only: Let_def if_True)
    with "1.prems"(1) have rec: "siftup_loop lt (heap[pos := heap ! ?m]) endpos ?m = (heap', pos')"
      by simp
    have IH: "length heap' = length heap \<and> pos' < length heap \<and> ?m \<le> pos' \<and>
        (\<forall>a. mset (heap'[pos' := a]) = mset (heap[pos := heap ! ?m, ?m := a]))"
      using "1.IH"[OF refl True refl refl rec] m(1) "1.prems"(3) by simp
    have "\<forall>a. mset (heap[pos := heap ! ?m, ?m := a]) = mset (heap[pos := a])"
      using m "1.prems"(2) by (simp add: mset_update_swap)
    then show ?thesis using IH m by auto
  next
    case False
    then show ?thesis using "1.prems" by (subst (asm) siftup_loop.simps) auto
  qed
qed

lemma siftup_mset_length:
  assumes "pos < length heap"
  shows "mset (siftup lt heap pos) = mset heap \<and> length (siftup lt heap pos) = length heap"
proof -
  obtain heap' pos' where sl: "siftup_loop lt heap (length heap) pos = (heap', pos')"
    by (cases "siftup_loop lt heap (length heap) pos") auto
  note f = siftup_loop_facts[OF sl assms order_refl]
  have "siftup lt heap pos = siftdown_loop lt (heap'[pos' := heap ! pos]) pos pos' (heap ! pos)"
    using sl f by (simp add: siftup_def siftdown_def Let_def)
  moreover have "mset (siftdown_loop lt (heap'[pos' := heap ! pos]) pos pos' (heap ! pos))
      = mset (heap'[pos' := heap ! pos])"
    using f by (simp add: mset_siftdown_loop)
  ultimately show ?thesis using f assms by simp
qed

lemma mset_heappush: "mset (heappush lt heap item) = add_mset item (mset heap)"
  by (simp add: heappush_def siftdown_def mset_siftdown_loop)

lemma length_heappush: "length (heappush lt heap item) = Suc (length heap)"
  by (simp add: heappush_def siftdown_def)

lemma heappop_Inr:
  assumes "heappop lt heap = Inr (x, heap')"
  shows "mset heap = add_mset x (mset heap') \<and> length heap = Suc (length heap')"
proof (cases "length heap \<le> 1")
  case True
  then show ?thesis using assms
    by (cases heap) (auto simp: heappop_def Let_def split: if_splits)
next
  case False
  let ?b = "butlast heap"
  have b: "?b \<noteq> []" "heap \<noteq> []" using False by (cases heap; auto)+
  have x: "x = ?b ! 0" and h': "heap' = siftup lt (?b[0 := last heap]) 0"
    using assms b by (auto simp: heappop_def Let_def)
  have "0 < length ?b" using b(1) by blast
  then have sf: "mset heap' = mset (?b[0 := last heap]) \<and> length heap' = length ?b"
    using siftup_mset_length[of 0 "?b[0 := last heap]" lt] h' by simp
  then have "mset heap' = mset (?b[0 := last heap])" by simp
  moreover have "mset heap = mset ?b + {#last heap#}"
    using append_butlast_last_id[OF b(2)] by (metis mset_append mset_single_iff_right
      add_mset_add_single mset.simps)
  moreover have "mset (?b[0 := last heap]) = add_mset (last heap) (mset ?b - {#x#})"
    using b x by (simp add: mset_update length_greater_0_conv[symmetric] del: length_greater_0_conv)
  moreover have "x \<in># mset ?b"
  proof -
    have "0 < length ?b" using b(1) by blast
    then show ?thesis using x by simp
  qed
  moreover have "length heap' = length ?b" using sf by simp
  ultimately show ?thesis using b(2) by auto
qed

lemma heappop_Nil: "heappop lt heap = Inl e \<longleftrightarrow> heap = [] \<and> e = IndexError"
  by (auto simp: heappop_def Let_def)

lemma heapify_mset_length:
  "mset (heapify lt x) = mset x \<and> length (heapify lt x) = length x"
proof -
  have "\<forall>i\<in>set is. i < length h \<Longrightarrow>
      mset (foldl (\<lambda>h i. siftup lt h i) h is) = mset h \<and>
      length (foldl (\<lambda>h i. siftup lt h i) h is) = length h" for "is" h
  proof (induction "is" arbitrary: h)
    case Nil
    then show ?case by simp
  next
    case (Cons i "is")
    have "mset (siftup lt h i) = mset h \<and> length (siftup lt h i) = length h"
      using Cons.prems by (intro siftup_mset_length) simp
    then show ?case using Cons.IH[of "siftup lt h i"] Cons.prems by simp
  qed
  moreover have "\<forall>i\<in>set (rev [0..<length x div 2]). i < length x" by auto
  ultimately show ?thesis by (simp add: heapify_def)
qed

section \<open>Heap order\<close>

text \<open>
  The comparison the queue uses is Python's \<open><\<close> on \<open>(key, vertex)\<close> tuples, which
  compares keys first and falls back to the vertices' cached keys on a tie. The heap
  functions are therefore proved correct for any \<open>lt\<close> that refines an order on a key
  projection \<open>kf\<close>: a smaller key is always less, and what is less never has a larger
  key. The invariant they keep is the heap order on \<open>kf\<close>, which survives whatever
  happens to the tie-breaking data in between.
\<close>

definition lt_refines :: "('a \<Rightarrow> 'k::linorder) \<Rightarrow> ('a \<Rightarrow> 'a \<Rightarrow> bool) \<Rightarrow> bool" where
  "lt_refines kf lt \<longleftrightarrow> (\<forall>a b. kf a < kf b \<longrightarrow> lt a b) \<and> (\<forall>a b. lt a b \<longrightarrow> kf a \<le> kf b)"

text \<open>Heap order on every parent-child pair whose parent is at index \<open>i\<close> or later.\<close>

definition heap_above :: "('a \<Rightarrow> 'k::linorder) \<Rightarrow> 'a list \<Rightarrow> nat \<Rightarrow> bool" where
  "heap_above kf xs i \<longleftrightarrow>
     (\<forall>c<length xs. 0 < c \<longrightarrow> i \<le> heap_parent c \<longrightarrow> kf (xs ! heap_parent c) \<le> kf (xs ! c))"

definition is_heap :: "('a \<Rightarrow> 'k::linorder) \<Rightarrow> 'a list \<Rightarrow> bool" where
  "is_heap kf xs \<longleftrightarrow> heap_above kf xs 0"

function in_sub :: "nat \<Rightarrow> nat \<Rightarrow> bool" where
  "in_sub i c = (if c = i then True else if i < c then in_sub i ((c - 1) div 2) else False)"
  by pat_completeness auto
termination
  by (relation "measure (\<lambda>(i, c). c)") auto

declare in_sub.simps [simp del]

definition down_inv :: "('a \<Rightarrow> 'k::linorder) \<Rightarrow> 'a list \<Rightarrow> nat \<Rightarrow> nat \<Rightarrow> bool" where
  "down_inv kf xs i pos \<longleftrightarrow>
     (\<forall>c<length xs. 0 < c \<longrightarrow> i \<le> heap_parent c \<longrightarrow> c \<noteq> pos \<longrightarrow>
        kf (xs ! heap_parent c) \<le> kf (xs ! c)) \<and>
     (i < pos \<longrightarrow> (\<forall>c<length xs. 0 < c \<longrightarrow> heap_parent c = pos \<longrightarrow>
        kf (xs ! heap_parent pos) \<le> kf (xs ! c)))"

definition up_inv :: "('a \<Rightarrow> 'k::linorder) \<Rightarrow> 'a list \<Rightarrow> nat \<Rightarrow> nat \<Rightarrow> bool" where
  "up_inv kf xs i pos \<longleftrightarrow>
     (\<forall>c<length xs. 0 < c \<longrightarrow> i \<le> heap_parent c \<longrightarrow> c \<noteq> pos \<longrightarrow> heap_parent c \<noteq> pos \<longrightarrow>
        kf (xs ! heap_parent c) \<le> kf (xs ! c)) \<and>
     (i < pos \<longrightarrow> (\<forall>c<length xs. 0 < c \<longrightarrow> heap_parent c = pos \<longrightarrow>
        kf (xs ! heap_parent pos) \<le> kf (xs ! c)))"

lemma lt_refines_D:
  "lt_refines kf lt \<Longrightarrow> lt a b \<Longrightarrow> kf a \<le> kf b"
  "lt_refines kf lt \<Longrightarrow> \<not> lt a b \<Longrightarrow> kf b \<le> kf a"
  by (auto simp: lt_refines_def not_less[symmetric])

lemma in_sub_le [heap_idx]: "in_sub i c \<Longrightarrow> i \<le> c"
  by (subst (asm) in_sub.simps) (auto split: if_splits)

lemma in_sub_parent [heap_idx]:
  "in_sub i c \<Longrightarrow> i < c \<Longrightarrow> in_sub i (heap_parent c) \<and> i \<le> heap_parent c"
  by (subst (asm) in_sub.simps) (auto simp: heap_parent_def dest: in_sub_le split: if_splits)

lemma in_sub_child [heap_idx]:
  "in_sub i pos \<Longrightarrow> heap_parent c = pos \<Longrightarrow> 0 < c \<Longrightarrow> in_sub i c"
  using in_sub_le[of i pos] by (subst in_sub.simps) (auto simp: heap_parent_def)

lemma in_sub_self [heap_idx]: "in_sub i i"
  by (subst in_sub.simps) simp

lemma in_sub_zero [heap_idx]: "in_sub 0 c"
proof (induction c rule: less_induct)
  case (less c)
  then show ?case
    by (cases "c = 0") (auto simp: in_sub.simps[of 0 c] in_sub_self)
qed

lemma heap_parent_child [heap_idx]:
  "heap_parent c = p \<Longrightarrow> 0 < c \<Longrightarrow> 2 * p + 1 \<le> c \<and> c \<le> 2 * p + 2"
  by (auto simp: heap_parent_def)

lemma heap_parent_of_child [heap_idx]:
  "heap_parent (2 * p + 1) = p" "heap_parent (2 * p + 2) = p"
  by (simp_all add: heap_parent_def)

lemma down_inv_step:
  assumes ref: "lt_refines kf lt" and pos: "pos < length xs" and ip: "i < pos"
    and sub: "in_sub i pos" and inv: "down_inv kf (xs[pos := a]) i pos"
    and lt: "lt a (xs ! heap_parent pos)"
  shows "down_inv kf (xs[pos := xs ! heap_parent pos, heap_parent pos := a]) i (heap_parent pos)"
proof -
  define pp where "pp = heap_parent pos"
  define ys where "ys = xs[pos := a]"
  define zs where "zs = xs[pos := xs ! pp, pp := a]"
  have pp: "pp < pos" "i \<le> pp" "in_sub i pp" "pp < length xs"
    using in_sub_parent[OF sub ip] heap_parent_less[of pos] ip pos by (auto simp: pp_def)
  have ka: "kf a \<le> kf (xs ! pp)" using lt_refines_D(1)[OF ref lt] by (simp add: pp_def)
  have ys_at: "ys ! j = xs ! j" if "j \<noteq> pos" for j using that by (simp add: ys_def)
  have zs_at: "zs ! j = ys ! j" if "j \<noteq> pos" "j \<noteq> pp" for j
    using that by (simp add: ys_def zs_def)
  have zs_pos: "zs ! pos = xs ! pp" and zs_pp: "zs ! pp = a"
    using pp pos by (simp_all add: zs_def)
  have inv1: "kf (ys ! heap_parent c) \<le> kf (ys ! c)"
    if "c < length xs" "0 < c" "i \<le> heap_parent c" "c \<noteq> pos" for c
    using inv that by (simp add: down_inv_def ys_def)
  have inv2: "kf (ys ! pp) \<le> kf (ys ! c)"
    if "c < length xs" "0 < c" "heap_parent c = pos" for c
    using inv that ip by (simp add: down_inv_def ys_def pp_def)
  have part1: "kf (zs ! heap_parent c) \<le> kf (zs ! c)"
    if c: "c < length xs" "0 < c" "i \<le> heap_parent c" "c \<noteq> pp" for c
  proof -
    have cp: "heap_parent c < c" using c(2) by (rule heap_parent_less)
    consider "c = pos" | "c \<noteq> pos" "heap_parent c = pos" | "c \<noteq> pos" "heap_parent c = pp"
      | "c \<noteq> pos" "heap_parent c \<noteq> pos" "heap_parent c \<noteq> pp" by blast
    then show ?thesis
    proof cases
      case 1
      then show ?thesis using ka zs_pos zs_pp by (simp add: pp_def)
    next
      case 2
      then have "zs ! c = ys ! c" using zs_at c(4) by simp
      moreover have "zs ! heap_parent c = ys ! pp"
        using 2 zs_pos ys_at pp(1) by simp
      ultimately show ?thesis using inv2 c 2 by simp
    next
      case 3
      then have "zs ! c = ys ! c" using zs_at c(4) by simp
      moreover have "kf (ys ! pp) \<le> kf (ys ! c)" using inv1[OF c(1,2)] 3 pp(2) by simp
      moreover have "ys ! pp = xs ! pp" using ys_at pp(1) by simp
      ultimately show ?thesis using 3 zs_pp ka by simp
    next
      case 4
      then show ?thesis using zs_at c inv1 by simp
    qed
  qed
  have part2: "kf (zs ! heap_parent pp) \<le> kf (zs ! c)"
    if ipp: "i < pp" and c: "c < length xs" "0 < c" "heap_parent c = pp" for c
  proof -
    have ppp: "heap_parent pp < pp" "i \<le> heap_parent pp"
      using heap_parent_less[of pp] in_sub_parent[OF pp(3) ipp] ipp by auto
    have gp: "zs ! heap_parent pp = ys ! heap_parent pp"
      using zs_at ppp pp(1) by simp
    have up: "kf (ys ! heap_parent pp) \<le> kf (ys ! pp)"
      using inv1[of pp] pp ppp ipp by simp
    show ?thesis
    proof (cases "c = pos")
      case True
      then show ?thesis using gp up zs_pos ys_at pp(1) by simp
    next
      case False
      have "c \<noteq> pp" using c heap_parent_less[of c] by auto
      then have "zs ! c = ys ! c" using zs_at False by simp
      moreover have "kf (ys ! pp) \<le> kf (ys ! c)" using inv1[OF c(1,2)] c(3) pp(2) False by simp
      ultimately show ?thesis using gp up by simp
    qed
  qed
  show ?thesis
    unfolding down_inv_def zs_def[symmetric] pp_def[symmetric]
    using part1 part2 by (simp add: zs_def)
qed

lemma down_inv_stop:
  assumes ref: "lt_refines kf lt" and pos: "pos < length xs" and sub: "in_sub i pos"
    and inv: "down_inv kf (xs[pos := a]) i pos"
    and stop: "i < pos \<Longrightarrow> \<not> lt a (xs ! heap_parent pos)"
  shows "heap_above kf (xs[pos := a]) i"
  unfolding heap_above_def
proof (intro allI impI)
  fix c assume c: "c < length (xs[pos := a])" "0 < c" "i \<le> heap_parent c"
  show "kf (xs[pos := a] ! heap_parent c) \<le> kf (xs[pos := a] ! c)"
  proof (cases "c = pos")
    case True
    have ip: "i < pos" using True c heap_parent_less[of c] by auto
    have "heap_parent pos \<noteq> pos" using heap_parent_less[of pos] ip by auto
    then show ?thesis
      using lt_refines_D(2)[OF ref stop[OF ip]] True pos by simp
  next
    case False
    then show ?thesis using inv c by (simp add: down_inv_def)
  qed
qed

lemma siftdown_loop_heap:
  "lt_refines kf lt \<Longrightarrow> pos < length xs \<Longrightarrow> in_sub i pos \<Longrightarrow>
   down_inv kf (xs[pos := a]) i pos \<Longrightarrow> heap_above kf (siftdown_loop lt xs i pos a) i"
proof (induction lt xs i pos a rule: siftdown_loop.induct)
  case (1 lt heap startpos pos newitem)
  show ?case
  proof (cases "startpos < pos \<and> lt newitem (heap ! heap_parent pos)")
    case True
    have pp: "heap_parent pos < length heap" "in_sub startpos (heap_parent pos)"
      using heap_parent_less[of pos] in_sub_parent[OF "1.prems"(3)] True "1.prems"(2) by auto
    have "siftdown_loop lt heap startpos pos newitem
        = siftdown_loop lt (heap[pos := heap ! heap_parent pos]) startpos (heap_parent pos) newitem"
      using True by (subst siftdown_loop.simps) (simp add: Let_def heap_parent_def)
    moreover have "down_inv kf (heap[pos := heap ! heap_parent pos, heap_parent pos := newitem])
        startpos (heap_parent pos)"
      using True "1.prems" by (intro down_inv_step[where lt = lt]) auto
    ultimately show ?thesis
      using "1.IH" True pp "1.prems"(1) by (simp add: Let_def heap_parent_def)
  next
    case False
    then have "siftdown_loop lt heap startpos pos newitem = heap[pos := newitem]"
      by (subst siftdown_loop.simps) (auto simp: Let_def heap_parent_def)
    then show ?thesis using False "1.prems" down_inv_stop by metis
  qed
qed

lemma up_inv_step:
  assumes pos: "pos < length xs" and sub: "in_sub i pos" and inv: "up_inv kf xs i pos"
    and m: "heap_parent m = pos" "0 < m" "m < length xs"
    and mmin: "\<And>c. c < length xs \<Longrightarrow> 0 < c \<Longrightarrow> heap_parent c = pos \<Longrightarrow> kf (xs ! m) \<le> kf (xs ! c)"
  shows "up_inv kf (xs[pos := xs ! m]) i m"
proof -
  define zs where "zs = xs[pos := xs ! m]"
  have mp: "pos < m" using heap_parent_less[OF m(2)] m(1) by simp
  have ip: "i \<le> pos" using in_sub_le[OF sub] .
  have zs_at: "zs ! j = xs ! j" if "j \<noteq> pos" for j using that by (simp add: zs_def)
  have zs_pos: "zs ! pos = xs ! m" using pos by (simp add: zs_def)
  have inv1: "kf (xs ! heap_parent c) \<le> kf (xs ! c)"
    if "c < length xs" "0 < c" "i \<le> heap_parent c" "c \<noteq> pos" "heap_parent c \<noteq> pos" for c
    using inv that by (simp add: up_inv_def)
  have part1: "kf (zs ! heap_parent c) \<le> kf (zs ! c)"
    if c: "c < length xs" "0 < c" "i \<le> heap_parent c" "c \<noteq> m" "heap_parent c \<noteq> m" for c
  proof -
    consider "heap_parent c = pos" | "c = pos" | "heap_parent c \<noteq> pos" "c \<noteq> pos" by blast
    then show ?thesis
    proof cases
      case 1
      then have "c \<noteq> pos" using heap_parent_less[OF c(2)] by auto
      then show ?thesis using 1 zs_pos zs_at mmin c by simp
    next
      case 2
      have lt: "heap_parent pos < pos" "i < pos"
        using heap_parent_less[of pos] c 2 by auto
      have "kf (xs ! heap_parent pos) \<le> kf (xs ! m)"
        using inv lt(2) m by (simp add: up_inv_def)
      then show ?thesis using 2 zs_at zs_pos lt(1) by simp
    next
      case 3
      then show ?thesis using zs_at inv1 c by simp
    qed
  qed
  have part2: "kf (zs ! heap_parent m) \<le> kf (zs ! c)"
    if c: "c < length xs" "0 < c" "heap_parent c = m" for c
  proof -
    have "m < c" using heap_parent_less[OF c(2)] c(3) by simp
    then have "c \<noteq> pos" using mp by simp
    moreover have "kf (xs ! m) \<le> kf (xs ! c)"
      using inv1[OF c(1,2)] c(3) mp ip \<open>c \<noteq> pos\<close> by simp
    ultimately show ?thesis using zs_at zs_pos m(1) by simp
  qed
  show ?thesis
    unfolding up_inv_def zs_def[symmetric] using part1 part2 by (simp add: zs_def)
qed

lemma siftup_choice:
  assumes ref: "lt_refines kf lt" and c1: "2 * pos + 1 < length xs"
    and m: "m = (if 2 * pos + 1 + 1 < length xs \<and> \<not> lt (xs ! (2 * pos + 1)) (xs ! (2 * pos + 1 + 1))
                 then 2 * pos + 1 + 1 else 2 * pos + 1)"
  shows "heap_parent m = pos" "0 < m" "m < length xs"
    "\<And>c. c < length xs \<Longrightarrow> 0 < c \<Longrightarrow> heap_parent c = pos \<Longrightarrow> kf (xs ! m) \<le> kf (xs ! c)"
proof -
  show "heap_parent m = pos" "0 < m" "m < length xs"
    using c1 m heap_parent_of_child by auto
  fix c assume c: "c < length xs" "0 < c" "heap_parent c = pos"
  then have "c = 2 * pos + 1 \<or> c = 2 * pos + 2" using heap_parent_child[OF c(3,2)] by auto
  then show "kf (xs ! m) \<le> kf (xs ! c)"
    using m c lt_refines_D[OF ref] by (auto split: if_splits)
qed

lemma siftup_loop_heap:
  "siftup_loop lt xs endpos pos = (ys, p) \<Longrightarrow> endpos = length xs \<Longrightarrow> lt_refines kf lt \<Longrightarrow>
   pos < length xs \<Longrightarrow> in_sub i pos \<Longrightarrow> up_inv kf xs i pos \<Longrightarrow>
   up_inv kf ys i p \<and> in_sub i p \<and> length ys = length xs \<and> length xs \<le> 2 * p + 1"
proof (induction lt xs endpos pos arbitrary: ys p rule: siftup_loop.induct)
  case (1 lt heap endpos pos)
  let ?c = "2 * pos + 1"
  let ?m = "if ?c + 1 < endpos \<and> \<not> lt (heap ! ?c) (heap ! (?c + 1)) then ?c + 1 else ?c"
  show ?case
  proof (cases "?c < endpos")
    case True
    note ch = siftup_choice[OF "1.prems"(3), of pos heap ?m]
    have "siftup_loop lt heap endpos pos = siftup_loop lt (heap[pos := heap ! ?m]) endpos ?m"
      using True by (subst siftup_loop.simps) (simp only: Let_def if_True)
    with "1.prems"(1) have rec: "siftup_loop lt (heap[pos := heap ! ?m]) endpos ?m = (ys, p)"
      by simp
    have inv': "up_inv kf (heap[pos := heap ! ?m]) i ?m"
      using up_inv_step[OF "1.prems"(4,5,6)] ch True "1.prems"(2) by simp
    have sub': "in_sub i ?m"
      using in_sub_child[OF "1.prems"(5)] ch True "1.prems"(2) by simp
    show ?thesis
      using "1.IH"[OF refl True refl refl rec] inv' sub' ch True "1.prems"(2,3) by simp
  next
    case False
    then show ?thesis using "1.prems" by (subst (asm) siftup_loop.simps) auto
  qed
qed

lemma up_inv_init: "heap_above kf xs (Suc i) \<Longrightarrow> up_inv kf xs i i"
  by (auto simp: up_inv_def heap_above_def)

lemma up_to_down:
  assumes inv: "up_inv kf ys i p" and leaf: "length ys \<le> 2 * p + 1"
  shows "down_inv kf (ys[p := a]) i p"
proof -
  have nochild: "heap_parent c \<noteq> p" if "c < length ys" "0 < c" for c
    using heap_parent_child[of c p] that leaf by auto
  show ?thesis
    unfolding down_inv_def
  proof (intro conjI allI impI)
    fix c assume c: "c < length (ys[p := a])" "0 < c" "i \<le> heap_parent c" "c \<noteq> p"
    then have "heap_parent c \<noteq> p" using nochild by simp
    then show "kf (ys[p := a] ! heap_parent c) \<le> kf (ys[p := a] ! c)"
      using inv c by (simp add: up_inv_def)
  next
    fix c assume "i < p" "c < length (ys[p := a])" "0 < c" "heap_parent c = p"
    then show "kf (ys[p := a] ! heap_parent p) \<le> kf (ys[p := a] ! c)"
      using nochild by simp
  qed
qed

theorem siftup_heap:
  assumes ref: "lt_refines kf lt" and i: "i < length xs" and h: "heap_above kf xs (Suc i)"
  shows "heap_above kf (siftup lt xs i) i"
proof -
  obtain ys p where sl: "siftup_loop lt xs (length xs) i = (ys, p)"
    by (cases "siftup_loop lt xs (length xs) i") auto
  have f: "up_inv kf ys i p \<and> in_sub i p \<and> length ys = length xs \<and> length xs \<le> 2 * p + 1"
    using siftup_loop_heap[OF sl refl ref i in_sub_self up_inv_init[OF h]] .
  have p: "p < length xs" using siftup_loop_facts[OF sl i order_refl] by simp
  have "siftup lt xs i = siftdown_loop lt (ys[p := xs ! i]) i p (xs ! i)"
    using sl p f by (simp add: siftup_def siftdown_def Let_def)
  moreover have d: "down_inv kf ((ys[p := xs ! i])[p := xs ! i]) i p"
    using up_to_down[of kf ys i p "xs ! i"] f by simp
  moreover have "p < length (ys[p := xs ! i])" using f p by simp
  ultimately show ?thesis
    using siftdown_loop_heap[OF ref _ _ d] f by simp
qed

lemma heap_above_leaves: "length xs \<le> 2 * i + 1 \<Longrightarrow> heap_above kf xs i"
  by (auto simp: heap_above_def heap_parent_def)

lemma heap_above_butlast:
  assumes "heap_above kf xs i"
  shows "heap_above kf (butlast xs) i"
  unfolding heap_above_def
proof (intro allI impI)
  fix c assume c: "c < length (butlast xs)" "0 < c" "i \<le> heap_parent c"
  have "heap_parent c < length (butlast xs)" using heap_parent_less[OF c(2)] c(1) by simp
  then show "kf (butlast xs ! heap_parent c) \<le> kf (butlast xs ! c)"
    using assms c by (simp add: nth_butlast heap_above_def)
qed

theorem heapify_heap:
  assumes ref: "lt_refines kf lt"
  shows "is_heap kf (heapify lt xs)"
proof -
  have "j \<le> length h \<Longrightarrow> heap_above kf h j \<Longrightarrow>
      heap_above kf (foldl (\<lambda>h i. siftup lt h i) h (rev [0..<j])) 0" for j h
  proof (induction j arbitrary: h)
    case 0
    then show ?case by simp
  next
    case (Suc j)
    have "heap_above kf (siftup lt h j) j"
      using siftup_heap[OF ref _ Suc.prems(2)] Suc.prems(1) by simp
    moreover have "length (siftup lt h j) = length h"
      using siftup_mset_length[of j h lt] Suc.prems(1) by simp
    ultimately show ?case using Suc.IH[of "siftup lt h j"] Suc.prems(1) by simp
  qed
  moreover have "heap_above kf xs (length xs div 2)" by (rule heap_above_leaves) simp
  ultimately show ?thesis by (simp add: heapify_def is_heap_def)
qed

theorem heappush_heap:
  assumes ref: "lt_refines kf lt" and h: "is_heap kf heap"
  shows "is_heap kf (heappush lt heap item)"
proof -
  let ?xs = "heap @ [item]" and ?n = "length heap"
  have "down_inv kf ?xs 0 ?n"
    unfolding down_inv_def
  proof (intro conjI allI impI)
    fix c assume c: "c < length ?xs" "0 < c" "0 \<le> heap_parent c" "c \<noteq> ?n"
    then have "c < ?n" "heap_parent c < ?n" using heap_parent_less[OF c(2)] by auto
    then show "kf (?xs ! heap_parent c) \<le> kf (?xs ! c)"
      using h c(2) by (simp add: nth_append is_heap_def heap_above_def)
  next
    fix c assume "0 < ?n" "c < length ?xs" "0 < c" "heap_parent c = ?n"
    then show "kf (?xs ! heap_parent ?n) \<le> kf (?xs ! c)"
      using heap_parent_child[of c ?n] by simp
  qed
  then have "down_inv kf (?xs[?n := item]) 0 ?n" by simp
  then have "heap_above kf (siftdown_loop lt ?xs 0 ?n item) 0"
    using siftdown_loop_heap[OF ref _ in_sub_zero] by simp
  then show ?thesis by (simp add: heappush_def siftdown_def is_heap_def)
qed

lemma heap_root_min:
  assumes "is_heap kf xs" "c < length xs"
  shows "kf (xs ! 0) \<le> kf (xs ! c)"
  using assms(2)
proof (induction c rule: less_induct)
  case (less c)
  show ?case
  proof (cases "c = 0")
    case False
    then have "kf (xs ! heap_parent c) \<le> kf (xs ! c)"
      using assms(1) less.prems by (simp add: is_heap_def heap_above_def)
    moreover have "kf (xs ! 0) \<le> kf (xs ! heap_parent c)"
      using less.IH[of "heap_parent c"] heap_parent_less[of c] False less.prems by simp
    ultimately show ?thesis by simp
  qed simp
qed

theorem heappop_heap:
  assumes ref: "lt_refines kf lt" and h: "is_heap kf heap"
    and pop: "heappop lt heap = Inr (x, heap')"
  shows "is_heap kf heap' \<and> (\<forall>y\<in>set heap. kf x \<le> kf y)"
proof (cases "length heap \<le> 1")
  case True
  then show ?thesis using pop
    by (cases heap) (auto simp: heappop_def is_heap_def heap_above_def)
next
  case False
  let ?b = "butlast heap"
  have b: "?b \<noteq> []" "heap \<noteq> []" using False by (cases heap; auto)+
  have "0 < length ?b" using b(1) by blast
  then have x: "x = heap ! 0" and h': "heap' = siftup lt (?b[0 := last heap]) 0"
    using pop b by (auto simp: heappop_def Let_def nth_butlast)
  have "heap_above kf ?b 0" using heap_above_butlast h by (simp add: is_heap_def)
  then have "heap_above kf (?b[0 := last heap]) (Suc 0)"
    by (auto simp: heap_above_def heap_parent_def nth_list_update)
  then have "is_heap kf heap'"
    using siftup_heap[OF ref, of 0] b h' by (simp add: is_heap_def)
  moreover have "\<forall>y\<in>set heap. kf x \<le> kf y"
    using heap_root_min[OF h] x by (auto simp: in_set_conv_nth)
  ultimately show ?thesis by simp
qed

lemma py_min_le:
  assumes ref: "lt_refines kf lt"
  shows "py_min lt x xs \<in> set (x # xs) \<and> (\<forall>y\<in>set (x # xs). kf (py_min lt x xs) \<le> kf y)"
proof (induction xs arbitrary: x rule: rev_induct)
  case Nil
  then show ?case by (simp add: py_min_def)
next
  case (snoc z zs)
  let ?b = "py_min lt x zs"
  have b: "?b \<in> set (x # zs)" "\<forall>y\<in>set (x # zs). kf ?b \<le> kf y" using snoc.IH by auto
  have eq: "py_min lt x (zs @ [z]) = (if lt z ?b then z else ?b)"
    by (simp add: py_min_def)
  show ?case
  proof (cases "lt z ?b")
    case True
    then have "kf z \<le> kf ?b" by (rule lt_refines_D(1)[OF ref])
    then show ?thesis using eq True b by auto
  next
    case False
    then have "kf ?b \<le> kf z" by (rule lt_refines_D(2)[OF ref])
    then show ?thesis using eq False b by auto
  qed
qed

end
