(* ===== verification/PriorityQueue.thy ===== *)
theory PriorityQueue
  imports Vertex Heapq
begin

text \<open>
  The class \<open>PriorityQueue\<close> of \<open>src/20_Raspberry_Pi_project/priorityQueue.py\<close>: a
  Python list \<open>elements\<close> of \<open>(key, vertex)\<close> tuples kept as a binary heap by
  \<open>heapq\<close>. A vertex is referred to by its coordinates. The heap compares tuples with
  Python's \<open><\<close>, which reads the cached \<open>key\<close> attribute of the two vertices when
  the keys are equal (\<open>Vertex.__lt__\<close>); every operation that compares therefore takes
  the current cached keys \<open>vk\<close> of the vertex store.
\<close>

type_synonym entry = "key \<times> coord"

record pqueue =
  elements :: "entry list"

definition pq_init :: pqueue where
  "pq_init = \<lparr>elements = []\<rparr>"

definition pq_empty :: "pqueue \<Rightarrow> bool" where
  "pq_empty q \<longleftrightarrow> length (elements q) = 0"

definition pq_count :: "pqueue \<Rightarrow> nat" where
  "pq_count q = length (elements q)"

text \<open>
  Python's \<open>(k1, v1) < (k2, v2)\<close>: the first components decide unless they are equal;
  then the vertices are compared for identity (equal tuples are not less) and otherwise
  with \<open>Vertex.__lt__\<close>.
\<close>

definition entry_lt :: "(coord \<Rightarrow> key option) \<Rightarrow> entry \<Rightarrow> entry \<Rightarrow> bool" where
  "entry_lt vk a b =
     (if fst a \<noteq> fst b then fst a < fst b
      else if snd a = snd b then False
      else key_lt (vk (snd a)) (vk (snd b)))"

definition pq_insert :: "(coord \<Rightarrow> key option) \<Rightarrow> pqueue \<Rightarrow> coord \<Rightarrow> key \<Rightarrow> pqueue" where
  "pq_insert vk q item calculatedKey =
     q\<lparr>elements := heappush (entry_lt vk) (elements q) (calculatedKey, item)\<rparr>"

definition pq_pop :: "(coord \<Rightarrow> key option) \<Rightarrow> pqueue \<Rightarrow> error + coord \<times> pqueue" where
  "pq_pop vk q =
     ebind (heappop (entry_lt vk) (elements q)) (\<lambda>(element, h). Inr (snd element, q\<lparr>elements := h\<rparr>))"

definition top_key :: "(coord \<Rightarrow> key option) \<Rightarrow> pqueue \<Rightarrow> key" where
  "top_key vk q =
     (if pq_empty q then (PInf, PInf) else fst (hd (nsmallest1 (entry_lt vk) (elements q))))"

definition pq_remove :: "(coord \<Rightarrow> key option) \<Rightarrow> pqueue \<Rightarrow> coord \<Rightarrow> pqueue" where
  "pq_remove vk q node =
     q\<lparr>elements := heapify (entry_lt vk) (filter (\<lambda>e. snd e \<noteq> node) (elements q))\<rparr>"

definition pq_iter :: "pqueue \<Rightarrow> coord list" where
  "pq_iter q = map snd (elements q)"

text \<open>\<open>v in queue\<close> runs \<open>__iter__\<close> and compares each vertex with \<open>v\<close>.\<close>

definition pq_member :: "pqueue \<Rightarrow> coord \<Rightarrow> bool" where
  "pq_member q v \<longleftrightarrow> v \<in> set (pq_iter q)"

text \<open>
  The abstraction of a queue is the multiset of its entries; its invariant is the heap
  order of \<open>heapq\<close> on the keys.
\<close>

definition pq_abs :: "pqueue \<Rightarrow> entry multiset" where
  "pq_abs q = mset (elements q)"

definition pq_inv :: "pqueue \<Rightarrow> bool" where
  "pq_inv q \<longleftrightarrow> is_heap fst (elements q)"

section \<open>Properties\<close>

lemma entry_lt_refines: "lt_refines fst (entry_lt vk)"
  by (auto simp: lt_refines_def entry_lt_def)

lemma pq_init_inv: "pq_inv pq_init"
  by (simp add: pq_inv_def pq_init_def is_heap_def heap_above_def)

lemma pq_abs_init [simp]: "pq_abs pq_init = {#}"
  by (simp add: pq_abs_def pq_init_def)

lemma pq_empty_abs: "pq_empty q \<longleftrightarrow> pq_abs q = {#}"
  by (simp add: pq_empty_def pq_abs_def)

lemma pq_member_abs: "pq_member q v \<longleftrightarrow> (\<exists>kk. (kk, v) \<in># pq_abs q)"
  by (force simp: pq_member_def pq_iter_def pq_abs_def)

lemma pq_abs_insert [simp]:
  "pq_abs (pq_insert vk q item kk) = add_mset (kk, item) (pq_abs q)"
  by (simp add: pq_abs_def pq_insert_def mset_heappush)

lemma pq_inv_insert: "pq_inv q \<Longrightarrow> pq_inv (pq_insert vk q item kk)"
  by (simp add: pq_inv_def pq_insert_def heappush_heap[OF entry_lt_refines])

lemma pq_abs_remove [simp]:
  "pq_abs (pq_remove vk q node) = filter_mset (\<lambda>e. snd e \<noteq> node) (pq_abs q)"
  by (simp add: pq_abs_def pq_remove_def heapify_mset_length)

lemma pq_inv_remove: "pq_inv (pq_remove vk q node)"
  by (simp add: pq_inv_def pq_remove_def heapify_heap[OF entry_lt_refines])

lemma pq_member_remove: "pq_member (pq_remove vk q node) v \<longleftrightarrow> v \<noteq> node \<and> pq_member q v"
  by (auto simp: pq_member_abs)

lemma pq_pop_Inr:
  assumes "pq_pop vk q = Inr (u, q')"
  shows "\<exists>kk. pq_abs q = add_mset (kk, u) (pq_abs q') \<and>
           (pq_inv q \<longrightarrow> pq_inv q' \<and> (\<forall>e\<in>#pq_abs q. kk \<le> fst e))"
proof -
  obtain e h where pop: "heappop (entry_lt vk) (elements q) = Inr (e, h)"
    and u: "u = snd e" and q': "q' = q\<lparr>elements := h\<rparr>"
    using assms by (auto simp: pq_pop_def ebind_eq_Inr split: prod.splits)
  have "mset (elements q) = add_mset e (mset h)" using heappop_Inr[OF pop] by simp
  moreover have "pq_inv q \<longrightarrow> pq_inv q' \<and> (\<forall>x\<in>#pq_abs q. fst e \<le> fst x)"
    using heappop_heap[OF entry_lt_refines _ pop] q' by (simp add: pq_inv_def pq_abs_def)
  ultimately show ?thesis using u q' by (intro exI[of _ "fst e"]) (simp add: pq_abs_def)
qed

lemma pq_pop_empty: "pq_pop vk q = Inl e \<longleftrightarrow> pq_empty q \<and> e = IndexError"
  by (auto simp: pq_pop_def pq_empty_def heappop_def ebind_def Let_def)

text \<open>
  \<open>top_key\<close> is the least key in the queue, or \<open>(inf, inf)\<close> when it is empty,
  whatever the tie-breaking data are: \<open>min()\<close> over the tuples returns one whose key is
  minimal.
\<close>

lemma top_key_Min:
  "top_key vk q = (if pq_abs q = {#} then (PInf, PInf) else Min (fst ` set_mset (pq_abs q)))"
proof (cases "elements q")
  case Nil
  then show ?thesis by (simp add: top_key_def pq_empty_def pq_abs_def)
next
  case (Cons x xs)
  note m = py_min_le[OF entry_lt_refines, of vk x xs]
  have "fst (py_min (entry_lt vk) x xs) = Min (fst ` set (x # xs))"
    using m by (intro Min_eqI[symmetric]) auto
  then show ?thesis using Cons by (simp add: top_key_def pq_empty_def pq_abs_def nsmallest1_def)
qed

lemma top_key_le: "e \<in># pq_abs q \<Longrightarrow> top_key vk q \<le> fst e"
  by (auto simp: top_key_Min)

section \<open>The queue's contract\<close>

text \<open>
  C3. \<open>pop\<close> removes and returns a vertex queued with the least key, and that key is the
  one \<open>top_key\<close> reports just before; the queue stays a heap.
\<close>

theorem pq_pop_returns_min:
  assumes "pq_inv q" and "pq_pop vk q = Inr (u, q')"
  shows "pq_abs q = add_mset (top_key vk q, u) (pq_abs q') \<and> pq_inv q'"
proof -
  obtain kk where ab: "pq_abs q = add_mset (kk, u) (pq_abs q')"
    and inv': "pq_inv q'" and least: "\<forall>e\<in>#pq_abs q. kk \<le> fst e"
    using pq_pop_Inr[OF assms(2)] assms(1) by blast
  have "top_key vk q = Min (fst ` set_mset (pq_abs q))"
    using ab by (simp add: top_key_Min)
  also have "\<dots> = kk"
    using ab least by (intro Min_eqI) auto
  finally show ?thesis using ab inv' by simp
qed

theorem pq_pop_returns_min_witness:
  "pq_abs (pq_insert (\<lambda>_. None) (pq_insert (\<lambda>_. None) pq_init (2, 0) (Fl 2, Fl 0)) (1, 0) (Fl 1, Fl 0))
     = add_mset ((Fl 1, Fl 0), (1, 0)) (pq_abs \<lparr>elements = [((Fl 2, Fl 0), (2, 0))]\<rparr>)"
proof -
  let ?q = "pq_insert (\<lambda>_. None) (pq_insert (\<lambda>_. None) pq_init (2, 0) (Fl 2, Fl 0)) (1, 0) (Fl 1, Fl 0)"
  have i: "pq_inv ?q" by code_simp
  have p: "pq_pop (\<lambda>_. None) ?q = Inr ((1, 0), \<lparr>elements = [((Fl 2, Fl 0), (2, 0))]\<rparr>)"
    by code_simp
  have t: "top_key (\<lambda>_. None) ?q = (Fl 1, Fl 0)" by code_simp
  show ?thesis using pq_pop_returns_min[OF i p] t by simp
qed

text \<open>
  C4. Refinement: \<open>insert\<close> implements adding an entry to the multiset of queued
  entries, and keeps the heap order, whatever the cached keys used to break ties.
\<close>

theorem pq_insert_refines:
  assumes "pq_inv q"
  shows "pq_abs (pq_insert vk q item kk) = add_mset (kk, item) (pq_abs q) \<and>
         pq_inv (pq_insert vk q item kk)"
  using assms pq_inv_insert by simp

theorem pq_insert_refines_witness:
  "pq_abs (pq_insert (\<lambda>_. None) pq_init (0, 0) (Fl 1, Fl 1)) = {#((Fl 1, Fl 1), (0, 0))#} \<and>
   pq_inv (pq_insert (\<lambda>_. None) pq_init (0, 0) (Fl 1, Fl 1))"
  using pq_insert_refines[OF pq_init_inv, of "\<lambda>_. None" "(0, 0)" "(Fl 1, Fl 1)"] by simp

text \<open>
  C5. Equivalence of \<open>top_key\<close>, which scans the list with \<open>nsmallest(1, ...)\<close>,
  with the least key of the queue: \<open>(inf, inf)\<close> when it is empty.
\<close>

theorem top_key_is_min:
  "top_key vk q = (if pq_empty q then (PInf, PInf) else Min (fst ` set (elements q)))"
  by (simp add: top_key_Min pq_empty_abs pq_abs_def)

text \<open>
  C6. Refinement: \<open>remove(node)\<close> drops every entry of \<open>node\<close> and nothing else, and
  \<open>heapify\<close> restores the heap order; afterwards \<open>node in queue\<close> is false.
\<close>

theorem pq_remove_refines:
  "pq_abs (pq_remove vk q node) = filter_mset (\<lambda>e. snd e \<noteq> node) (pq_abs q) \<and>
   pq_inv (pq_remove vk q node) \<and> \<not> pq_member (pq_remove vk q node) node"
  using pq_inv_remove pq_member_remove by simp

end
