(* ===== verification/Planner.thy ===== *)
theory Planner
  imports Grid PriorityQueue
begin

text \<open>
  The class \<open>DStarLitePlanner\<close> of \<open>src/20_Raspberry_Pi_project/DStarLitePlanner.py\<close>:
  the D* Lite algorithm (Koenig and Likhachev 2002) on the vertex grid. The object's
  attributes are the record \<open>planner\<close>; each method is a function from the state to
  the new state, with Python's exceptions as \<open>Inl\<close>. The two \<open>while\<close> loops that need
  not stop (\<open>computeShortestPath\<close>, \<open>showAndRemberPath\<close>) take a fuel bound and return
  \<open>None\<close> when it runs out. Drawing on the view (\<open>updateVertexColor\<close>,
  \<open>view.update_g\<close>, \<open>view.update_rsh\<close>, \<open>print\<close>) and the step delay of the
  interactive planning modes have no effect on the state and are left out. The attribute
  \<open>k\<close> is named \<open>km\<close> (the paper's \<open>k_m\<close>); the attribute \<open>view\<close> is reduced to
  the one value the planner reads from it, the check box \<open>view.directNeigbors\<close>
  (\<open>viewDirectNeighbors\<close>), which \<open>neighbors\<close> consults.
\<close>

record planner =
  width :: int
  height :: int
  directNeighbors :: bool
  viewDirectNeighbors :: bool
  vertexGrid :: vgrid
  startCoordinates :: "coord option"
  goalCoordinates :: "coord option"
  obstacles :: "coord set"
  startNode :: "coord option"
  goalNode :: "coord option"
  lastNode :: "coord option"
  hIsZero :: bool
  km :: pyfloat
  priorityQueue :: pqueue
  planReady :: bool
  actualPath :: "coord list"
  planSteps :: nat

text \<open>
  \<open>startCoordinates\<close> and \<open>goalCoordinates\<close> are \<open>[inf, inf]\<close> in the source until a
  click sets them; the model writes that sentinel as \<open>None\<close>. The attributes \<open>k\<close> and
  \<open>planSteps\<close> are created by \<open>initializePlanning\<close> and \<open>computeShortestPath\<close>; they
  start at \<open>0\<close> here and are never read before.
\<close>

definition planner_init :: "int \<Rightarrow> int \<Rightarrow> bool \<Rightarrow> bool \<Rightarrow> planner" where
  "planner_init gridWidth gridHeight hz direct =
     \<lparr>width = gridWidth, height = gridHeight, directNeighbors = direct,
      viewDirectNeighbors = direct, vertexGrid = init_grid gridWidth gridHeight,
      startCoordinates = None, goalCoordinates = None, obstacles = {},
      startNode = None, goalNode = None, lastNode = None, hIsZero = hz, km = Fl 0,
      priorityQueue = pq_init, planReady = False, actualPath = [], planSteps = 0\<rparr>"

section \<open>Access to the vertex objects\<close>

definition node :: "planner \<Rightarrow> coord \<Rightarrow> vertex" where
  "node st c = vget (vertexGrid st) c"

definition set_node :: "planner \<Rightarrow> coord \<Rightarrow> vertex \<Rightarrow> planner" where
  "set_node st c v = st\<lparr>vertexGrid := vset (vertexGrid st) c v\<rparr>"

text \<open>The cached keys the queue's comparisons read.\<close>

definition vk :: "planner \<Rightarrow> coord \<Rightarrow> key option" where
  "vk st c = vkey (node st c)"

definition nbrs :: "planner \<Rightarrow> coord \<Rightarrow> coord list" where
  "nbrs st c = neighbors (viewDirectNeighbors st) (width st) (height st) (node st c)"

text \<open>\<open>u.calculateKey(self.startNode, self.k, self.hIsZero, self.directNeighbors)\<close>.\<close>

definition calc_key :: "planner \<Rightarrow> coord \<Rightarrow> error + key \<times> planner" where
  "calc_key st c =
     ebind (calculateKey (node st c) (startNode st) (km st) (hIsZero st) (directNeighbors st))
       (\<lambda>(kk, v'). Inr (kk, set_node st c v'))"

definition queue_insert :: "planner \<Rightarrow> coord \<Rightarrow> key \<Rightarrow> planner" where
  "queue_insert st c kk = st\<lparr>priorityQueue := pq_insert (vk st) (priorityQueue st) c kk\<rparr>"

section \<open>Setting start and goal\<close>

definition setStartCoordinates :: "planner \<Rightarrow> int \<Rightarrow> int \<Rightarrow> planner" where
  "setStartCoordinates st x y = st\<lparr>startCoordinates := Some (x, y)\<rparr>"

text \<open>
  \<open>setGoalCoordinates\<close>: the old goal vertex (if any) stops being the goal, then the
  vertex at the new coordinates becomes it. The vertices are found with Python's
  indexing; a mutation is written back at the coordinates of the vertex found.
\<close>

definition set_goal_flag :: "planner \<Rightarrow> coord \<Rightarrow> bool \<Rightarrow> error + planner" where
  "set_goal_flag st c b =
     ebind (grid_lookup (vertexGrid st) c)
       (\<lambda>v. Inr (set_node st (vx v, vy v) (setIsGoal v b)))"

definition setGoalCoordinates :: "planner \<Rightarrow> int \<Rightarrow> int \<Rightarrow> error + planner" where
  "setGoalCoordinates st x y =
     ebind (case goalCoordinates st of None \<Rightarrow> Inr st | Some c \<Rightarrow> set_goal_flag st c False)
       (\<lambda>st1. set_goal_flag (st1\<lparr>goalCoordinates := Some (x, y)\<rparr>) (x, y) True)"

definition areStartAndGoalSet :: "planner \<Rightarrow> bool" where
  "areStartAndGoalSet st \<longleftrightarrow> startCoordinates st \<noteq> None \<and> goalCoordinates st \<noteq> None"

text \<open>\<open>vertexGrid[c[0]][c[1]]\<close> for stored coordinates; the \<open>inf\<close> sentinel raises \<open>TypeError\<close>.\<close>

definition lookup_coords :: "planner \<Rightarrow> coord option \<Rightarrow> error + vertex" where
  "lookup_coords st c = (case c of None \<Rightarrow> Inl TypeError | Some xy \<Rightarrow> grid_lookup (vertexGrid st) xy)"

section \<open>The D* Lite procedures\<close>

text \<open>
  \<open>initializePlanning\<close>: the goal vertex is keyed and queued; the closing
  \<open>startNode.print()\<close> raises \<open>AttributeError\<close> when no start node is set.
\<close>

definition initializePlanning :: "planner \<Rightarrow> error + planner" where
  "initializePlanning st =
     ebind (lookup_coords st (goalCoordinates st)) (\<lambda>gv.
       let g = (vx gv, vy gv); st1 = st\<lparr>goalNode := Some g, km := Fl 0\<rparr> in
       ebind (calc_key st1 g) (\<lambda>(kk, st2).
         let st3 = queue_insert st2 g kk in
         if startNode st3 = None then Inl AttributeError else Inr st3))"

text \<open>
  \<open>updateVertex\<close>: a vertex other than the goal gets \<open>rsh\<close> = the least of
  \<open>neighborCost(v, s) + s.g\<close> over its neighbours \<open>s\<close> (\<open>sorted(values)[0]\<close>, an
  \<open>IndexError\<close> when there is no neighbour); it leaves the queue if it is in it and
  is queued again with a fresh key if it is inconsistent.
\<close>

definition rsh_values :: "planner \<Rightarrow> coord \<Rightarrow> error + pyfloat list" where
  "rsh_values st u =
     emap (\<lambda>s. ebind (neighborCost (node st u) (node st s)) (\<lambda>c. Inr (c + gval (node st s))))
       (nbrs st u)"

definition update_rsh :: "planner \<Rightarrow> coord \<Rightarrow> error + planner" where
  "update_rsh st u =
     ebind (rsh_values st u) (\<lambda>values.
       case sort values of
         [] \<Rightarrow> Inl IndexError
       | r # _ \<Rightarrow> Inr (set_node st u ((node st u)\<lparr>rsh := r\<rparr>)))"

text \<open>
  The second half of \<open>updateVertex\<close>: \<open>if aVertex in self.priorityQueue: remove\<close>,
  then \<open>if aVertex.g != aVertex.rsh:\<close> compute the key and insert.
\<close>

definition requeue :: "planner \<Rightarrow> coord \<Rightarrow> error + planner" where
  "requeue st1 u =
     (let st2 = (if pq_member (priorityQueue st1) u
                 then st1\<lparr>priorityQueue := pq_remove (vk st1) (priorityQueue st1) u\<rparr>
                 else st1) in
      if gval (node st2 u) \<noteq> rsh (node st2 u)
      then ebind (calc_key st2 u) (\<lambda>(kk, st3). Inr (queue_insert st3 u kk))
      else Inr st2)"

definition updateVertex :: "planner \<Rightarrow> coord \<Rightarrow> error + planner" where
  "updateVertex st u =
     ebind (if goalNode st \<noteq> Some u then update_rsh st u else Inr st) (\<lambda>st1. requeue st1 u)"

text \<open>
  The condition of the loop of \<open>computeShortestPath\<close>:
  \<open>top_key() < startNode.calculateKey(...) or startNode.rsh != startNode.g\<close>.
  Computing the start's key also caches it in the start vertex.
\<close>

definition csp_cond :: "planner \<Rightarrow> error + bool \<times> planner" where
  "csp_cond st =
     (case startNode st of
        None \<Rightarrow> Inl AttributeError
      | Some s \<Rightarrow>
          (let tk = top_key (vk st) (priorityQueue st) in
           ebind (calc_key st s) (\<lambda>(sk, st1).
             Inr (tk < sk \<or> rsh (node st1 s) \<noteq> gval (node st1 s), st1))))"

text \<open>
  The three cases of the loop body for the popped vertex \<open>u\<close>, its key \<open>k_old\<close> in
  the queue and its fresh key \<open>k\<close>: requeue with the fresh key, make \<open>u\<close>
  consistent and update its neighbours, or reset \<open>u.g\<close> and update \<open>u\<close> and its
  neighbours.
\<close>

definition csp_expand :: "planner \<Rightarrow> coord \<Rightarrow> key \<Rightarrow> key \<Rightarrow> error + planner" where
  "csp_expand st2 u k_old kk =
     (let uv = node st2 u in
      if k_old < kk then Inr (queue_insert st2 u kk)
      else if gval uv > rsh uv then
        (let st3 = set_node st2 u (uv\<lparr>gval := rsh uv\<rparr>) in efold updateVertex st3 (nbrs st3 u))
      else
        (let st3 = set_node st2 u (uv\<lparr>gval := PInf\<rparr>) in efold updateVertex st3 (nbrs st3 u @ [u])))"

text \<open>One pass of the loop body.\<close>

definition csp_step :: "planner \<Rightarrow> error + planner" where
  "csp_step st =
     (let k_old = top_key (vk st) (priorityQueue st) in
      ebind (pq_pop (vk st) (priorityQueue st)) (\<lambda>(u, q).
        ebind (calc_key (st\<lparr>priorityQueue := q\<rparr>) u) (\<lambda>(kk, st2).
          ebind (csp_expand st2 u k_old kk)
            (\<lambda>st4. Inr (st4\<lparr>planSteps := Suc (planSteps st4)\<rparr>)))))"

fun csp_loop :: "nat \<Rightarrow> planner \<Rightarrow> (error + planner) option" where
  "csp_loop 0 st = None"
| "csp_loop (Suc n) st =
     (case csp_cond st of
        Inl e \<Rightarrow> Some (Inl e)
      | Inr (False, st1) \<Rightarrow> Some (Inr st1)
      | Inr (True, st1) \<Rightarrow>
          (case csp_step st1 of Inl e \<Rightarrow> Some (Inl e) | Inr st2 \<Rightarrow> csp_loop n st2))"

definition computeShortestPath :: "nat \<Rightarrow> planner \<Rightarrow> (error + planner) option" where
  "computeShortestPath fuel st = csp_loop fuel (st\<lparr>planSteps := 0\<rparr>)"

section \<open>Path extraction\<close>

text \<open>
  \<open>calcCheapestNeighbor\<close>: the first neighbour with the least \<open>g + rsh\<close>
  (\<open>neighbors[0]\<close> raises \<open>IndexError\<close> when there is none).
\<close>

definition calcCheapestNeighbor :: "planner \<Rightarrow> coord \<Rightarrow> error + coord" where
  "calcCheapestNeighbor st a =
     (case nbrs st a of
        [] \<Rightarrow> Inl IndexError
      | c0 # rest \<Rightarrow>
          Inr (foldl (\<lambda>cheapest n.
                  if gval (node st cheapest) + rsh (node st cheapest) > gval (node st n) + rsh (node st n)
                  then n else cheapest) c0 rest))"

text \<open>
  The loop of \<open>showAndRemberPath\<close>, from the current \<open>node\<close>: append it, move to the
  cheapest neighbour, and stop at the goal or when that neighbour's \<open>g\<close> is infinite.
\<close>

fun path_loop :: "nat \<Rightarrow> planner \<Rightarrow> coord \<Rightarrow> (error + planner) option" where
  "path_loop 0 st n = None"
| "path_loop (Suc fuel) st n =
     (if goalNode st \<noteq> Some n \<and> planReady st then
        (let st1 = st\<lparr>actualPath := actualPath st @ [n]\<rparr> in
         case calcCheapestNeighbor st1 n of
           Inl e \<Rightarrow> Some (Inl e)
         | Inr n' \<Rightarrow> path_loop fuel (st1\<lparr>planReady := gval (node st1 n') \<noteq> PInf\<rparr>) n')
      else
        Some (Inr (case goalNode st of
                     Some gn \<Rightarrow> if planReady st then st\<lparr>actualPath := actualPath st @ [gn]\<rparr> else st
                   | None \<Rightarrow> st)))"

definition showAndRemberPath :: "nat \<Rightarrow> planner \<Rightarrow> (error + planner) option" where
  "showAndRemberPath fuel st =
     (case lastNode st of
        None \<Rightarrow> Some (if planReady st then Inl AttributeError else Inr (st\<lparr>actualPath := []\<rparr>))
      | Some n \<Rightarrow> path_loop fuel (st\<lparr>actualPath := []\<rparr>) n)"

section \<open>Planning and replanning\<close>

definition mainPlanning :: "nat \<Rightarrow> planner \<Rightarrow> (error + planner) option" where
  "mainPlanning fuel st =
     (case lookup_coords st (startCoordinates st) of
        Inl e \<Rightarrow> Some (Inl e)
      | Inr sv \<Rightarrow>
          (let s = (vx sv, vy sv);
               st1 = st\<lparr>planReady := False, startNode := Some s, lastNode := Some s\<rparr> in
           case initializePlanning st1 of
             Inl e \<Rightarrow> Some (Inl e)
           | Inr st2 \<Rightarrow>
               (case computeShortestPath fuel st2 of
                  None \<Rightarrow> None
                | Some (Inl e) \<Rightarrow> Some (Inl e)
                | Some (Inr st3) \<Rightarrow>
                    showAndRemberPath fuel
                      (st3\<lparr>planReady := gval (node st3 s) \<noteq> PInf, actualPath := []\<rparr>))))"

text \<open>
  \<open>replanning(aVertex)\<close> after the robot, now at \<open>startNode\<close>, found an obstacle at
  \<open>aVertex\<close>: the key offset grows by the heuristic distance travelled since the last
  replanning, the obstacle and its neighbours are updated, and the search runs again.
  It returns whether a path exists.
\<close>

definition replanning :: "nat \<Rightarrow> planner \<Rightarrow> coord \<Rightarrow> (error + bool \<times> planner) option" where
  "replanning fuel st a =
     (case lastNode st of
        None \<Rightarrow> Some (Inl AttributeError)
      | Some l \<Rightarrow>
          (case vertex_h (node st l) (startNode st) (hIsZero st) (directNeighbors st) of
             Inl e \<Rightarrow> Some (Inl e)
           | Inr hv \<Rightarrow>
               (let st1 = st\<lparr>km := km st + hv, lastNode := startNode st\<rparr> in
                case ebind (updateVertex st1 a) (\<lambda>st2. efold updateVertex st2 (nbrs st2 a)) of
                  Inl e \<Rightarrow> Some (Inl e)
                | Inr st3 \<Rightarrow>
                    (case computeShortestPath fuel st3 of
                       None \<Rightarrow> None
                     | Some (Inl e) \<Rightarrow> Some (Inl e)
                     | Some (Inr st4) \<Rightarrow>
                         (case startNode st4 of
                            None \<Rightarrow> Some (Inl AttributeError)
                          | Some s \<Rightarrow>
                              (let ready = gval (node st4 s) \<noteq> PInf in
                               Some (Inr (ready, st4\<lparr>planReady := ready\<rparr>))))))))"

section \<open>Invariants and abstractions\<close>

text \<open>
  \<open>grid_ok\<close>: the grid has the planner's dimensions and every cell knows its
  coordinates; \<open>cell\<close>: a coordinate pair inside the grid; \<open>config\<close>: the
  attributes that neither the search nor the queue changes; \<open>nbr_values\<close>: the
  candidates \<open>neighborCost(u, s) + s.g\<close> of which \<open>updateVertex\<close> takes the least.
\<close>

definition grid_ok :: "planner \<Rightarrow> bool" where
  "grid_ok st \<longleftrightarrow> grid_wf (width st) (height st) (vertexGrid st)"

definition cell :: "planner \<Rightarrow> coord \<Rightarrow> bool" where
  "cell st c \<longleftrightarrow> in_grid (width st) (height st) c"

definition config :: "planner \<Rightarrow> _" where
  "config st = (width st, height st, directNeighbors st, viewDirectNeighbors st,
     startCoordinates st, goalCoordinates st, obstacles st, startNode st, goalNode st,
     lastNode st, hIsZero st, km st, planReady st, actualPath st)"

definition nbr_values :: "planner \<Rightarrow> coord \<Rightarrow> pyfloat set" where
  "nbr_values st u =
     {c + gval (node st s) | s c. s \<in> set (nbrs st u) \<and> neighborCost (node st u) (node st s) = Inr c}"

section \<open>Reading and writing the planner state\<close>

lemma config_upd [simp]:
  "config (set_node st c v) = config st"
  "config (st\<lparr>priorityQueue := q\<rparr>) = config st"
  "config (st\<lparr>planSteps := n\<rparr>) = config st"
  "config (queue_insert st c kk) = config st"
  by (simp_all add: config_def set_node_def queue_insert_def)

lemma config_eqD:
  assumes "config st' = config st"
  shows "width st' = width st" "height st' = height st" "startNode st' = startNode st"
    "goalNode st' = goalNode st" "km st' = km st" "hIsZero st' = hIsZero st"
    "directNeighbors st' = directNeighbors st" "viewDirectNeighbors st' = viewDirectNeighbors st"
    "lastNode st' = lastNode st" "planReady st' = planReady st"
  using assms by (simp_all add: config_def)

lemma node_set_node:
  assumes "grid_ok st" "cell st c" "cell st d"
  shows "node (set_node st c v) d = (if d = c then v else node st d)"
  using assms vget_vset by (simp add: node_def set_node_def grid_ok_def cell_def)

lemma set_node_simps [simp]:
  "priorityQueue (set_node st c v) = priorityQueue st"
  "width (set_node st c v) = width st" "height (set_node st c v) = height st"
  by (simp_all add: set_node_def)

lemma grid_ok_set_node:
  assumes "grid_ok st" "cell st c" "vx v = fst c" "vy v = snd c"
  shows "grid_ok (set_node st c v)"
  using assms grid_wf_vset by (simp add: grid_ok_def set_node_def cell_def)

lemma node_coords:
  "grid_ok st \<Longrightarrow> cell st c \<Longrightarrow> vx (node st c) = fst c \<and> vy (node st c) = snd c"
  using grid_wf_cell(3,4) by (simp add: node_def grid_ok_def cell_def)

lemma calc_key_Inr:
  "calc_key st c = Inr (kk, st') \<longleftrightarrow>
     calculateKey (node st c) (startNode st) (km st) (hIsZero st) (directNeighbors st) =
       Inr (kk, (node st c)\<lparr>vkey := Some kk\<rparr>) \<and>
     st' = set_node st c ((node st c)\<lparr>vkey := Some kk\<rparr>)"
  by (auto simp: calc_key_def ebind_eq_Inr calculateKey_Inr)

lemma node_upd [simp]:
  "node (st\<lparr>priorityQueue := q\<rparr>) = node st" "node (st\<lparr>planSteps := n\<rparr>) = node st"
  "vk (st\<lparr>priorityQueue := q\<rparr>) = vk st"
  by (simp_all add: node_def vk_def fun_eq_iff)

lemma pq_abs_not_member:
  "\<not> pq_member q u \<Longrightarrow> filter_mset (\<lambda>e. snd e \<noteq> u) (pq_abs q) = pq_abs q"
  by (auto simp: pq_member_abs filter_mset_eq_conv)


lemma requeue_Inr:
  assumes ok: "grid_ok st" "cell st u" and run: "requeue st u = Inr st'"
  shows "grid_ok st' \<and> config st' = config st \<and>
    (\<forall>d. cell st d \<longrightarrow> d \<noteq> u \<longrightarrow> node st' d = node st d) \<and>
    node st' u = (node st u)\<lparr>vkey := vkey (node st' u)\<rparr> \<and>
    pq_abs (priorityQueue st') = filter_mset (\<lambda>e. snd e \<noteq> u) (pq_abs (priorityQueue st)) +
      (if gval (node st u) \<noteq> rsh (node st u) then {#(the (vkey (node st' u)), u)#} else {#}) \<and>
    (gval (node st u) \<noteq> rsh (node st u) \<longrightarrow>
       calculateKey (node st u) (startNode st) (km st) (hIsZero st) (directNeighbors st) =
         Inr (the (vkey (node st' u)), node st' u)) \<and>
    (pq_member (priorityQueue st) u \<or> pq_inv (priorityQueue st) \<longrightarrow> pq_inv (priorityQueue st'))"
proof -
  define q2 where "q2 = (if pq_member (priorityQueue st) u
                 then pq_remove (vk st) (priorityQueue st) u else priorityQueue st)"
  define st2 where "st2 = st\<lparr>priorityQueue := q2\<rparr>"
  have st2: "(if pq_member (priorityQueue st) u
                 then st\<lparr>priorityQueue := pq_remove (vk st) (priorityQueue st) u\<rparr> else st) = st2"
    by (simp add: st2_def q2_def)
  have n2: "node st2 = node st" by (simp add: st2_def node_def fun_eq_iff)
  have abs2: "pq_abs q2 = filter_mset (\<lambda>e. snd e \<noteq> u) (pq_abs (priorityQueue st))"
    by (simp add: q2_def pq_abs_not_member)
  have inv2: "pq_member (priorityQueue st) u \<or> pq_inv (priorityQueue st) \<Longrightarrow> pq_inv q2"
    by (auto simp: q2_def pq_inv_remove)
  have ok2: "grid_ok st2" "cell st2 u" using ok by (simp_all add: st2_def grid_ok_def cell_def)
  have c2: "config st2 = config st" by (simp add: st2_def)
  show ?thesis
  proof (cases "gval (node st u) \<noteq> rsh (node st u)")
    case True
    then obtain kk st3 where ck: "calc_key st2 u = Inr (kk, st3)" and st': "st' = queue_insert st3 u kk"
      using run by (auto simp: requeue_def Let_def st2 n2 ebind_eq_Inr split: prod.splits)
    have st3: "st3 = set_node st2 u ((node st u)\<lparr>vkey := Some kk\<rparr>)"
      and key: "calculateKey (node st u) (startNode st) (km st) (hIsZero st) (directNeighbors st) =
          Inr (kk, (node st u)\<lparr>vkey := Some kk\<rparr>)"
      using ck c2 by (auto simp: calc_key_Inr n2 st2_def)
    have nd: "node st' d = node st3 d" for d
      by (simp add: st' queue_insert_def node_def)
    have nu: "node st' u = (node st u)\<lparr>vkey := Some kk\<rparr>"
      using nd node_set_node[OF ok2(1,2,2)] by (simp add: st3)
    have co: "vx (node st u) = fst u \<and> vy (node st u) = snd u" by (rule node_coords[OF ok])
    have "grid_ok st3"
      unfolding st3 using ok2 co by (intro grid_ok_set_node) auto
    then have "grid_ok st'" by (simp add: st' grid_ok_def queue_insert_def)
    moreover have "config st' = config st" using c2 by (simp add: st' st3)
    moreover have "\<forall>d. cell st d \<longrightarrow> d \<noteq> u \<longrightarrow> node st' d = node st d"
      using nd node_set_node[OF ok2] ok2 by (simp add: st3 n2 cell_def st2_def)
    moreover have "pq_abs (priorityQueue st') = add_mset (kk, u) (pq_abs q2)"
      by (simp add: st' queue_insert_def st3 st2_def)
    moreover have "pq_member (priorityQueue st) u \<or> pq_inv (priorityQueue st) \<Longrightarrow> pq_inv (priorityQueue st')"
      using inv2 by (simp add: st' queue_insert_def st3 st2_def pq_inv_insert)
    ultimately show ?thesis using True nu key abs2 by simp
  next
    case False
    then have st': "st' = st2" using run by (simp add: requeue_def Let_def st2 n2)
    show ?thesis using False ok2 c2 inv2 abs2 by (simp add: st' n2 grid_ok_def st2_def)
  qed
qed

lemma nbrs_cell:
  "grid_ok st \<Longrightarrow> cell st c \<Longrightarrow> n \<in> set (nbrs st c) \<Longrightarrow> cell st n"
  using neighbors_in_grid node_coords unfolding cell_def nbrs_def by (metis prod.collapse)

lemma nbr_cost_ok:
  assumes "grid_ok st" "cell st u" "s \<in> set (nbrs st u)"
  shows "\<exists>c. neighborCost (node st u) (node st s) = Inr c"
proof -
  have cu: "in_grid (width st) (height st) (vx (node st u), vy (node st u))"
    using node_coords[OF assms(1,2)] assms(2) by (simp add: cell_def)
  have "(vx (node st s), vy (node st s)) \<in> set (neighbors (viewDirectNeighbors st) (width st) (height st) (node st u))"
    using node_coords[OF assms(1) nbrs_cell[OF assms]] assms(3) by (simp add: nbrs_def)
  from neighborCost_neighbor[OF cu this] show ?thesis by blast
qed

lemma rsh_values_ok:
  assumes "grid_ok st" "cell st u"
  shows "\<exists>vs. rsh_values st u = Inr vs"
  unfolding rsh_values_def
proof (rule emap_total)
  fix s assume "s \<in> set (nbrs st u)"
  then obtain c where "neighborCost (node st u) (node st s) = Inr c"
    using nbr_cost_ok[OF assms] by blast
  then show "\<exists>y. ebind (neighborCost (node st u) (node st s)) (\<lambda>c. Inr (c + gval (node st s))) = Inr y"
    by simp
qed

lemma rsh_values_set:
  "rsh_values st u = Inr vs \<Longrightarrow>
     set vs = {c + gval (node st s) | s c. s \<in> set (nbrs st u) \<and> neighborCost (node st u) (node st s) = Inr c}"
  unfolding rsh_values_def by (drule emap_Inr_set) (auto simp: ebind_eq_Inr)

lemma rsh_values_Nil:
  "rsh_values st u = Inr vs \<Longrightarrow> vs = [] \<longleftrightarrow> nbrs st u = []"
  unfolding rsh_values_def by (auto simp: emap_Inr_iff list_all2_conv_all_nth)

lemma update_rsh_Inr:
  "update_rsh st u = Inr st1 \<longleftrightarrow>
     (\<exists>vs. rsh_values st u = Inr vs \<and> vs \<noteq> [] \<and>
        st1 = set_node st u ((node st u)\<lparr>rsh := Min (set vs)\<rparr>))"
proof -
  have "(case sort vs of [] \<Rightarrow> Inl IndexError | r # _ \<Rightarrow> Inr (set_node st u ((node st u)\<lparr>rsh := r\<rparr>))) = Inr st1
        \<longleftrightarrow> vs \<noteq> [] \<and> st1 = set_node st u ((node st u)\<lparr>rsh := Min (set vs)\<rparr>)" for vs :: "pyfloat list"
  proof (cases "sort vs")
    case Nil
    then have "vs = []" by (metis length_sort length_0_conv)
    then show ?thesis using Nil by simp
  next
    case (Cons r rs)
    then have "vs \<noteq> []" by auto
    then have "r = Min (set vs)" using hd_sort_Min[of vs] Cons by simp
    then show ?thesis using Cons \<open>vs \<noteq> []\<close> by auto
  qed
  then show ?thesis by (auto simp: update_rsh_def ebind_eq_Inr)
qed

lemma updateVertex_first:
  assumes ok: "grid_ok st" "cell st u" and run: "updateVertex st u = Inr st'"
  obtains st1 where "requeue st1 u = Inr st'" "grid_ok st1" "config st1 = config st"
    "priorityQueue st1 = priorityQueue st"
    "\<forall>d. cell st d \<longrightarrow> d \<noteq> u \<longrightarrow> node st1 d = node st d"
    "node st1 u = (if goalNode st \<noteq> Some u then (node st u)\<lparr>rsh := Min (nbr_values st u)\<rparr> else node st u)"
    "goalNode st \<noteq> Some u \<Longrightarrow> nbrs st u \<noteq> []"
proof (cases "goalNode st \<noteq> Some u")
  case True
  then obtain st1 where u1: "update_rsh st u = Inr st1" and rq: "requeue st1 u = Inr st'"
    using run by (auto simp: updateVertex_def ebind_eq_Inr)
  then obtain vs where vs: "rsh_values st u = Inr vs" "vs \<noteq> []"
    and st1: "st1 = set_node st u ((node st u)\<lparr>rsh := Min (set vs)\<rparr>)"
    by (auto simp: update_rsh_Inr)
  have co: "vx (node st u) = fst u \<and> vy (node st u) = snd u" by (rule node_coords[OF ok])
  have "grid_ok st1" unfolding st1 using ok co by (intro grid_ok_set_node) auto
  moreover have "\<forall>d. cell st d \<longrightarrow> d \<noteq> u \<longrightarrow> node st1 d = node st d"
    using node_set_node[OF ok(1,2)] by (simp add: st1)
  moreover have "node st1 u = (node st u)\<lparr>rsh := Min (nbr_values st u)\<rparr>"
    using node_set_node[OF ok(1,2,2)] rsh_values_set[OF vs(1)] by (simp add: st1 nbr_values_def)
  moreover have "nbrs st u \<noteq> []" using rsh_values_Nil[OF vs(1)] vs(2) by simp
  ultimately show ?thesis using that rq True by (simp add: st1)
next
  case False
  then have "requeue st u = Inr st'" using run by (simp add: updateVertex_def)
  then show ?thesis using that ok False by simp
qed

section \<open>updateVertex\<close>

text \<open>
  C1. \<open>updateVertex(u)\<close> sets \<open>u.rsh\<close> to the least \<open>neighborCost(u, s) + s.g\<close> over
  the neighbours \<open>s\<close> of \<open>u\<close> unless \<open>u\<close> is the goal, whose \<open>rsh\<close> it leaves alone;
  it never changes \<open>u.g\<close>, and no other vertex.
\<close>

theorem updateVertex_sets_rsh:
  assumes "grid_ok st" "cell st u" "updateVertex st u = Inr st'"
  shows "rsh (node st' u) =
           (if goalNode st = Some u then rsh (node st u) else Min (nbr_values st u)) \<and>
         gval (node st' u) = gval (node st u) \<and>
         (\<forall>d. cell st d \<longrightarrow> d \<noteq> u \<longrightarrow> node st' d = node st d)"
proof -
  obtain st1 where st1: "requeue st1 u = Inr st'" "grid_ok st1" "config st1 = config st"
    "\<forall>d. cell st d \<longrightarrow> d \<noteq> u \<longrightarrow> node st1 d = node st d"
    "node st1 u = (if goalNode st \<noteq> Some u then (node st u)\<lparr>rsh := Min (nbr_values st u)\<rparr> else node st u)"
    using updateVertex_first[OF assms] by blast
  have c1: "cell st1 u" "\<And>d. cell st1 d = cell st d"
    using assms(2) config_eqD(1,2)[OF st1(3)] by (simp_all add: cell_def)
  note r = requeue_Inr[OF st1(2) c1(1) st1(1)]
  have "node st' u = (node st1 u)\<lparr>vkey := vkey (node st' u)\<rparr>" using r by blast
  then have "rsh (node st' u) = rsh (node st1 u)" "gval (node st' u) = gval (node st1 u)"
    by (metis vertex.select_convs vertex.surjective vertex.update_convs)+
  moreover have "\<forall>d. cell st d \<longrightarrow> d \<noteq> u \<longrightarrow> node st' d = node st d"
    using r st1(4) c1(2) by simp
  ultimately show ?thesis using st1(5) by auto
qed

text \<open>
  C2. After \<open>updateVertex(u)\<close> the queue holds the entries it held for the other vertices
  and one entry for \<open>u\<close> exactly when \<open>u\<close> is inconsistent (\<open>g != rsh\<close>), with the key
  \<open>calculateKey\<close> gives it in the new state; the heap order is kept.
\<close>

theorem updateVertex_queue:
  assumes "grid_ok st" "cell st u" "updateVertex st u = Inr st'"
  shows "pq_abs (priorityQueue st') =
           filter_mset (\<lambda>e. snd e \<noteq> u) (pq_abs (priorityQueue st)) +
           (if gval (node st' u) \<noteq> rsh (node st' u) then {#(the (vkey (node st' u)), u)#} else {#}) \<and>
         (gval (node st' u) \<noteq> rsh (node st' u) \<longrightarrow>
            calculateKey (node st' u) (startNode st') (km st') (hIsZero st') (directNeighbors st') =
              Inr (the (vkey (node st' u)), node st' u)) \<and>
         (pq_inv (priorityQueue st) \<longrightarrow> pq_inv (priorityQueue st'))"
proof -
  obtain st1 where st1: "requeue st1 u = Inr st'" "grid_ok st1" "config st1 = config st"
    "priorityQueue st1 = priorityQueue st"
    using updateVertex_first[OF assms] by blast
  have c1: "cell st1 u"
    using assms(2) config_eqD(1,2)[OF st1(3)] by (simp add: cell_def)
  note r = requeue_Inr[OF st1(2) c1 st1(1)]
  have nu: "node st' u = (node st1 u)\<lparr>vkey := vkey (node st' u)\<rparr>" using r by blast
  then have gr: "rsh (node st' u) = rsh (node st1 u)" "gval (node st' u) = gval (node st1 u)"
    by (metis vertex.select_convs vertex.surjective vertex.update_convs)+
  have ck: "calculateKey (node st' u) s k hz dn = calculateKey (node st1 u) s k hz dn" for s k hz dn
    by (subst nu) simp
  have cfg: "config st' = config st1" using r by blast
  show ?thesis
    using r st1(4) gr ck config_eqD[OF cfg] by simp
qed

end
