(* ===== verification/View.thy ===== *)
theory View
  imports Planner
begin

text \<open>
  The interactive view \<open>DStarLiteView\<close> of \<open>src/20_Raspberry_Pi_project/DStarLiteView.py\<close>,
  reduced to what it stores and what its event handlers do to the planner: the
  application state \<open>appState\<close>, the values of the spin boxes, radio buttons, check
  boxes and combo box, and the planner it owns. Drawing, colours, message boxes and the
  hint texts do not change the state and are left out. Every handler is a function
  from the view to the new view; a handler whose code raises returns \<open>Inl\<close>, and
  \<open>btnPlan_clicked\<close> returns \<open>None\<close> when planning does not end within its fuel.
\<close>

datatype appState = inDesign | inPlanning | planPresent | inExecution | afterExecution

text \<open>The robot's start orientation offered by the combo box \<open>cbRoboOrientation\<close>.\<close>

datatype orientation = North | East | South | West | NorthEast | NorthWest | SouthEast | SouthWest

text \<open>
  \<open>directNeigbors\<close> is the check box the planner's \<open>neighbors\<close> reads; the planner's
  field \<open>viewDirectNeighbors\<close> mirrors it. \<open>checksEnabled\<close> is the widget state of the
  two check boxes, which a successful planning disables.
\<close>

record view =
  appState :: appState
  vplanner :: planner
  gridWidthVal :: int
  gridHeightVal :: int
  clickModeVal :: int
  h0_check :: bool
  directNeigbors :: bool
  checksEnabled :: bool
  cbRoboOrientation :: orientation

section \<open>Drawing the grid\<close>

text \<open>Python's \<open>range(a, b, step)\<close> for a positive step.\<close>

function py_range :: "int \<Rightarrow> int \<Rightarrow> int \<Rightarrow> int list" where
  "py_range a b step = (if 0 < step \<and> a < b then a # py_range (a + step) b step else [])"
  by pat_completeness auto
termination
  by (relation "measure (\<lambda>(a, b, step). nat (b - a))") auto

declare py_range.simps [simp del]

text \<open>
  The tags \<open>(columnCount, rowCount)\<close> of the rectangles \<open>drawPlanningGrid\<close> draws, in
  the order it draws them: one column per step of \<open>600 // width\<close> pixels, one row per
  step of \<open>400 // height\<close> pixels, rows counted down from \<open>height - 1\<close>. A click on a
  rectangle (or on its texts) reports these tags as the clicked coordinates.
\<close>

definition drawn_rects :: "int \<Rightarrow> int \<Rightarrow> coord list" where
  "drawn_rects gw gh =
     (let stepX = 600 div gw; stepY = 400 div gh in
      concat (map (\<lambda>(columnCount, i).
        map (\<lambda>(k, j). (int columnCount, gh - 1 - int k)) (enumerate 0 (py_range 0 (400 - stepY + 1) stepY)))
        (enumerate 0 (py_range 0 (600 - stepX + 1) stepX))))"

text \<open>
  \<open>drawPlanningGrid\<close> reads \<open>vertexGrid[columnCount][rowCount]\<close> for the texts of
  every rectangle, which raises \<open>IndexError\<close> outside the grid.
\<close>

definition drawPlanningGrid :: "vgrid \<Rightarrow> int \<Rightarrow> int \<Rightarrow> error + coord list" where
  "drawPlanningGrid vg gw gh = emap (\<lambda>c. ebind (grid_lookup vg c) (\<lambda>_. Inr c)) (drawn_rects gw gh)"

section \<open>Event handlers\<close>

text \<open>\<open>createGrid\<close>: a new planner with the spin boxes' size and the check boxes' modes.\<close>

definition createGrid :: "view \<Rightarrow> view" where
  "createGrid v =
     v\<lparr>vplanner := planner_init (gridWidthVal v) (gridHeightVal v) (h0_check v) (directNeigbors v)\<rparr>"

definition view_init :: view where
  "view_init = createGrid
     \<lparr>appState = inDesign, vplanner = planner_init 5 4 False True, gridWidthVal = 5, gridHeightVal = 4,
      clickModeVal = 1, h0_check = False, directNeigbors = True, checksEnabled = True,
      cbRoboOrientation = North\<rparr>"

definition btnRecreate_clicked :: "view \<Rightarrow> view" where
  "btnRecreate_clicked v = (createGrid v)\<lparr>checksEnabled := True, appState := inDesign\<rparr>"

text \<open>
  \<open>isNodeOccupied(x, y, clickMode)\<close>: the start, the goal, and (for the start and goal
  modes) an obstacle occupy their cell.
\<close>

definition isNodeOccupied :: "view \<Rightarrow> int \<Rightarrow> int \<Rightarrow> int \<Rightarrow> error + bool" where
  "isNodeOccupied v x y clickMode =
     (let p = vplanner v in
      if startCoordinates p \<noteq> Some (x, y) then
        (if goalCoordinates p \<noteq> Some (x, y) then
           ebind (grid_lookup (vertexGrid p) (x, y)) (\<lambda>n. Inr (isObstacle n \<and> clickMode \<le> 2))
         else Inr True)
      else Inr True)"

text \<open>
  The obstacle mode of \<open>canv_clicked\<close>: a free vertex becomes an obstacle and joins the
  set \<open>obstacles\<close>; an obstacle is freed again only in design (\<open>set.remove\<close> raises
  \<open>KeyError\<close> for a vertex the set does not hold).
\<close>

definition toggle_obstacle :: "view \<Rightarrow> int \<Rightarrow> int \<Rightarrow> error + view" where
  "toggle_obstacle v x y =
     (let p = vplanner v in
      ebind (grid_lookup (vertexGrid p) (x, y)) (\<lambda>n.
        let c = (vx n, vy n) in
        if \<not> isObstacle n then
          Inr (v\<lparr>vplanner := (set_node p c (n\<lparr>isObstacle := True\<rparr>))\<lparr>obstacles := insert c (obstacles p)\<rparr>\<rparr>)
        else if appState v \<noteq> inExecution then
          (if c \<in> obstacles p
           then Inr (v\<lparr>vplanner := (set_node p c (n\<lparr>isObstacle := False\<rparr>))\<lparr>obstacles := obstacles p - {c}\<rparr>\<rparr>)
           else Inl KeyError)
        else Inr v))"

text \<open>
  \<open>canv_clicked\<close> for a click on the rectangle tagged \<open>(x, y)\<close>: only in design and
  during execution, and only on a cell that \<open>isNodeOccupied\<close> does not refuse.
\<close>

definition canv_clicked :: "view \<Rightarrow> int \<Rightarrow> int \<Rightarrow> error + view" where
  "canv_clicked v x y =
     (if appState v = inDesign \<or> appState v = inExecution then
        ebind (isNodeOccupied v x y (clickModeVal v)) (\<lambda>occupied.
          if occupied then Inr v
          else if clickModeVal v = 1 then Inr (v\<lparr>vplanner := setStartCoordinates (vplanner v) x y\<rparr>)
          else if clickModeVal v = 2 then
            ebind (setGoalCoordinates (vplanner v) x y) (\<lambda>p. Inr (v\<lparr>vplanner := p\<rparr>))
          else if clickModeVal v = 3 then toggle_obstacle v x y
          else Inr v)
      else Inr v)"

text \<open>
  \<open>btnPlan_clicked\<close>: only in design and with start and goal set; the check boxes
  configure the planner, which plans; without a plan the grid is recreated.
\<close>

definition btnPlan_clicked :: "nat \<Rightarrow> view \<Rightarrow> (error + view) option" where
  "btnPlan_clicked fuel v =
     (if appState v \<noteq> inDesign then Some (Inr v)
      else if areStartAndGoalSet (vplanner v) then
        (let p1 = (vplanner v)\<lparr>hIsZero := h0_check v, directNeighbors := directNeigbors v\<rparr>;
             v1 = v\<lparr>appState := inPlanning\<rparr> in
         case mainPlanning fuel p1 of
           None \<Rightarrow> None
         | Some (Inl e) \<Rightarrow> Some (Inl e)
         | Some (Inr p2) \<Rightarrow>
             if planReady p2
             then Some (Inr (v1\<lparr>vplanner := p2, appState := planPresent, checksEnabled := False\<rparr>))
             else Some (Inr (btnRecreate_clicked (v1\<lparr>vplanner := p2, appState := inDesign\<rparr>))))
      else Some (Inr (v\<lparr>appState := inDesign\<rparr>)))"

text \<open>The widgets: spin boxes (4 to 11), radio buttons, check boxes and combo box.\<close>

definition setGridSize :: "view \<Rightarrow> int \<Rightarrow> int \<Rightarrow> view" where
  "setGridSize v w h = v\<lparr>gridWidthVal := w, gridHeightVal := h\<rparr>"

definition setH0 :: "view \<Rightarrow> bool \<Rightarrow> view" where
  "setH0 v b = (if checksEnabled v then v\<lparr>h0_check := b\<rparr> else v)"

definition setDirect :: "view \<Rightarrow> bool \<Rightarrow> view" where
  "setDirect v b =
     (if checksEnabled v
      then v\<lparr>directNeigbors := b, vplanner := (vplanner v)\<lparr>viewDirectNeighbors := b\<rparr>\<rparr> else v)"

definition setClickMode :: "view \<Rightarrow> int \<Rightarrow> view" where
  "setClickMode v m = v\<lparr>clickModeVal := m\<rparr>"

definition setRoboOrientation :: "view \<Rightarrow> orientation \<Rightarrow> view" where
  "setRoboOrientation v ori = v\<lparr>cbRoboOrientation := ori\<rparr>"

section \<open>The drawn grid\<close>

lemma length_py_range:
  "0 < step \<Longrightarrow> length (py_range a b step) = (if a < b then nat ((b - a - 1) div step) + 1 else 0)"
proof (induction a b step rule: py_range.induct)
  case (1 a b step)
  show ?case
  proof (cases "a < b")
    case True
    then have "length (py_range a b step) = Suc (length (py_range (a + step) b step))"
      using "1.prems" by (subst py_range.simps) simp
    also have "\<dots> = nat ((b - a - 1) div step) + 1"
    proof (cases "a + step < b")
      case True
      have "(b - a - 1) div step = ((b - (a + step) - 1) + step) div step"
        by (simp add: algebra_simps)
      also have "\<dots> = (b - (a + step) - 1) div step + 1"
        using "1.prems" by (intro div_add_self2) simp
      finally have "(b - (a + step) - 1) div step + 1 = (b - a - 1) div step" by simp
      moreover have "0 \<le> (b - (a + step) - 1) div step"
        using True "1.prems" by (simp add: pos_imp_zdiv_nonneg_iff)
      ultimately show ?thesis using "1.IH" "1.prems" \<open>a < b\<close> True
        by (simp add: Suc_nat_eq_nat_zadd1 ac_simps)
    next
      case False
      then have "(b - a - 1) div step = 0" using \<open>a < b\<close> "1.prems" by (simp add: div_pos_pos_trivial)
      then show ?thesis using "1.IH" "1.prems" \<open>a < b\<close> False by simp
    qed
    finally show ?thesis using True by simp
  next
    case False
    then show ?thesis by (subst py_range.simps) simp
  qed
qed

lemma py_range_count:
  assumes "4 \<le> n" "n \<le> (11::int)" "m = 400 \<or> m = 600"
  shows "length (py_range 0 (m - m div n + 1) (m div n)) = nat n"
proof -
  have "n \<in> {4, 5, 6, 7, 8, 9, 10, 11}" using assms(1,2) by auto
  then show ?thesis
    using assms(3) by (elim insertE emptyE disjE) (simp_all add: length_py_range)
qed
lemma enumerate_map_fst:
  "map (\<lambda>(k, x). f k) (enumerate n xs) = map f [n..<n + length xs]"
proof (induction xs arbitrary: n)
  case Nil
  then show ?case by simp
next
  case (Cons x xs)
  have "[n..<n + length (x # xs)] = n # [Suc n..<Suc n + length xs]"
    by (simp add: upt_rec)
  then show ?case using Cons.IH[of "Suc n"] by simp
qed

lemma drawn_rects_product:
  "drawn_rects gw gh =
     map (\<lambda>(cc, k). (int cc, gh - 1 - int k))
       (List.product [0..<length (py_range 0 (600 - 600 div gw + 1) (600 div gw))]
                     [0..<length (py_range 0 (400 - 400 div gh + 1) (400 div gh))])"
proof -
  have "map (\<lambda>(columnCount, i). map (\<lambda>(k, j). (int columnCount, gh - 1 - int k)) (enumerate 0 ys)) (enumerate 0 xs) =
        map (\<lambda>cc. map (\<lambda>k. (int cc, gh - 1 - int k)) [0..<length ys]) [0..<length xs]" for xs ys :: "int list"
    using enumerate_map_fst[of "\<lambda>cc. map (\<lambda>k. (int cc, gh - 1 - int k)) [0..<length ys]" 0 xs]
      enumerate_map_fst[of "\<lambda>k. (int _, gh - 1 - int k)" 0 ys]
    by (simp add: case_prod_unfold)
  then show ?thesis
    by (simp add: drawn_rects_def Let_def product_concat_map map_concat comp_def)
qed

text \<open>
  C16. For every size the read-only spin boxes allow (4 to 11), \<open>drawPlanningGrid\<close> draws
  exactly one rectangle per vertex of the grid, so that a click always reports the
  coordinates of a vertex, and reading the vertices for the texts raises no
  \<open>IndexError\<close>. (For a width of 45 it would draw 46 columns.)
\<close>

theorem drawn_rects_grid:
  assumes "4 \<le> gw" "gw \<le> 11" "4 \<le> gh" "gh \<le> 11" "grid_wf gw gh vg"
  shows "distinct (drawn_rects gw gh) \<and> set (drawn_rects gw gh) = {c. in_grid gw gh c} \<and>
         drawPlanningGrid vg gw gh = Inr (drawn_rects gw gh)"
proof -
  have w: "length (py_range 0 (600 - 600 div gw + 1) (600 div gw)) = nat gw"
    using py_range_count[of gw 600] assms by simp
  have h: "length (py_range 0 (400 - 400 div gh + 1) (400 div gh)) = nat gh"
    using py_range_count[of gh 400] assms by simp
  have inj: "inj_on (\<lambda>(cc, k). (int cc, gh - 1 - int k)) (set (List.product [0..<nat gw] [0..<nat gh]))"
    by (auto simp: inj_on_def)
  have "distinct (drawn_rects gw gh)"
    unfolding drawn_rects_product w h using inj by (simp add: distinct_map distinct_product)
  moreover have "set (drawn_rects gw gh) = {c. in_grid gw gh c}"
  proof
    show "set (drawn_rects gw gh) \<subseteq> {c. in_grid gw gh c}"
      unfolding drawn_rects_product w h using assms by (auto simp: in_grid_def in_range_def)
    show "{c. in_grid gw gh c} \<subseteq> set (drawn_rects gw gh)"
    proof
      fix c assume "c \<in> {c. in_grid gw gh c}"
      then have c: "0 \<le> fst c" "fst c < gw" "0 \<le> snd c" "snd c < gh"
        by (auto simp: in_grid_def in_range_def)
      have "c = (\<lambda>(cc, k). (int cc, gh - 1 - int k)) (nat (fst c), nat (gh - 1 - snd c))"
        using c by (cases c) simp
      moreover have "(nat (fst c), nat (gh - 1 - snd c)) \<in> set (List.product [0..<nat gw] [0..<nat gh])"
        using c by auto
      ultimately show "c \<in> set (drawn_rects gw gh)"
        unfolding drawn_rects_product w h by (metis (no_types) image_eqI set_map)
    qed
  qed
  moreover have "drawPlanningGrid vg gw gh = Inr (drawn_rects gw gh)"
  proof -
    have "ebind (grid_lookup vg c) (\<lambda>_. Inr c) = Inr (id c)" if "c \<in> set (drawn_rects gw gh)" for c
      using that calculation(2) grid_lookup_in_grid[OF assms(5)] by auto
    then have "emap (\<lambda>c. ebind (grid_lookup vg c) (\<lambda>_. Inr c)) (drawn_rects gw gh) =
               Inr (map id (drawn_rects gw gh))"
      by (rule emap_all_Inr)
    then show ?thesis by (simp add: drawPlanningGrid_def)
  qed
  ultimately show ?thesis by blast
qed

theorem drawn_rects_grid_witness:
  "4 \<le> (5::int) \<and> (5::int) \<le> 11 \<and> 4 \<le> (4::int) \<and> (4::int) \<le> 11 \<and> grid_wf 5 4 (init_grid 5 4) \<and>
   distinct (drawn_rects 5 4) \<and> set (drawn_rects 5 4) = {c. in_grid 5 4 c}"
  using drawn_rects_grid[of 5 4 "init_grid 5 4"] init_grid_wf by simp

end
