(* ===== verification/Executer.thy ===== *)
theory Executer
  imports View
begin

text \<open>
  The execution of a plan, \<open>ScreenExecuter\<close> of
  \<open>src/20_Raspberry_Pi_project/screenExecuter.py\<close>, generic over the robot it commands:
  the methods a subclass overrides for a real robot are a record \<open>robot\<close> of functions
  on the subclass's own state, \<open>screen_robot\<close> is the base class's (the screen
  simulation), and \<open>Ev3\<close> gives the EV3 robot's. The executer shares the planner with
  the view (\<open>ScreenExecuter(self.view, self)\<close> in \<open>DStarLitePlanner.executePlan\<close>), so
  its state is the view together with the robot's orientation and the robot's state.
  The robot icons, the canvas coordinates and the delays only draw and wait. Each call
  of \<open>self.view.master.update()\<close> lets Tk run the clicks the user has made meanwhile: the
  model takes them as an explicit schedule \<open>pending\<close>, one batch of clicked
  rectangles per call, handled by \<open>canv_clicked\<close>.
\<close>

text \<open>
  The methods a subclass overrides to command a real robot (\<open>executionAllowed\<close>,
  \<open>connectRealRobot\<close>, \<open>commandRobot\<close>, \<open>robotReportsObstacle\<close>,
  \<open>obstacleStartCheck\<close>, \<open>actionAtEnd\<close>) form the robot interface: a record of functions
  over the subclass's own state \<open>'r\<close>. Their \<open>reply\<close> strings are never read by
  \<open>executePlan\<close> and are left out; \<open>putRealRobotAtInitPos\<close> and \<open>delay\<close> only show a
  dialog or wait. \<open>commandRobot\<close> also reads the executer's current orientation.
\<close>

record 'r robot =
  rb_executionAllowed :: "planner \<Rightarrow> bool"
  rb_connectRealRobot :: "'r \<Rightarrow> (bool \<times> string) \<times> 'r"
  rb_commandRobot :: "'r \<Rightarrow> orientation option \<Rightarrow> orientation \<Rightarrow> error + bool \<times> 'r"
  rb_robotReportsObstacle :: "'r \<Rightarrow> error + bool \<times> 'r"
  rb_obstacleStartCheck :: "'r \<Rightarrow> error + bool \<times> 'r"
  rb_actionAtEnd :: "'r \<Rightarrow> error + bool \<times> 'r"

record 'r executer =
  ex_view :: view
  actualOrientation :: "orientation option"
  pending :: "coord list list"
  robot :: 'r

definition planner_of :: "'r executer \<Rightarrow> planner" where
  "planner_of e = vplanner (ex_view e)"

definition set_planner :: "'r executer \<Rightarrow> planner \<Rightarrow> 'r executer" where
  "set_planner e p = e\<lparr>ex_view := (ex_view e)\<lparr>vplanner := p\<rparr>\<rparr>"

section \<open>The screen simulation's robot\<close>

text \<open>The base class \<open>ScreenExecuter\<close> has no real robot: every method succeeds.\<close>

definition executionAllowed :: "planner \<Rightarrow> bool" where
  "executionAllowed p = True"

definition connectRealRobot :: "unit \<Rightarrow> (bool \<times> string) \<times> unit" where
  "connectRealRobot r = ((True, []), r)"

definition commandRobot :: "unit \<Rightarrow> orientation option \<Rightarrow> orientation \<Rightarrow> error + bool \<times> unit" where
  "commandRobot r actual ori = Inr (True, r)"

definition robotReportsObstacle :: "unit \<Rightarrow> error + bool \<times> unit" where
  "robotReportsObstacle r = Inr (False, r)"

definition obstacleStartCheck :: "unit \<Rightarrow> error + bool \<times> unit" where
  "obstacleStartCheck r = Inr (True, r)"

definition actionAtEnd :: "unit \<Rightarrow> error + bool \<times> unit" where
  "actionAtEnd r = Inr (True, r)"

definition screen_robot :: "unit robot" where
  "screen_robot = \<lparr>rb_executionAllowed = executionAllowed, rb_connectRealRobot = connectRealRobot,
     rb_commandRobot = commandRobot, rb_robotReportsObstacle = robotReportsObstacle,
     rb_obstacleStartCheck = obstacleStartCheck, rb_actionAtEnd = actionAtEnd\<rparr>"

section \<open>The Tk event loop during execution\<close>

text \<open>
  A click on the rectangle \<open>(x, y)\<close> runs \<open>canv_clicked\<close>; Tk reports an exception raised
  by a callback and goes on with the state the callback left, which for the raising
  branches of \<open>canv_clicked\<close> is the unchanged view.
\<close>

definition tk_click :: "view \<Rightarrow> coord \<Rightarrow> view" where
  "tk_click v c = (case canv_clicked v (fst c) (snd c) of Inl _ \<Rightarrow> v | Inr v' \<Rightarrow> v')"

definition tk_update :: "'r executer \<Rightarrow> 'r executer" where
  "tk_update e =
     (case pending e of
        [] \<Rightarrow> e
      | b # bs \<Rightarrow> e\<lparr>ex_view := foldl tk_click (ex_view e) b, pending := bs\<rparr>)"

section \<open>Robot moves\<close>

text \<open>
  \<open>calcOrientation(actualVertex, nextVertex)\<close>: the direction of the next vertex. The
  branches test only some of the coordinates, and a vertex that is neither in the same
  column, nor in the same row, nor in a neighbouring column leaves \<open>newOrientation\<close>
  unassigned.
\<close>

definition calcOrientation :: "coord \<Rightarrow> coord \<Rightarrow> error + orientation" where
  "calcOrientation a n =
     (if fst a = fst n then Inr (if snd a - 1 = snd n then South else North)
      else if snd a = snd n then Inr (if fst a - 1 = fst n then West else East)
      else if fst a + 1 = fst n then Inr (if snd a + 1 = snd n then NorthEast else SouthEast)
      else if fst a - 1 = fst n then Inr (if snd a - 1 = snd n then SouthWest else NorthWest)
      else Inl UnboundLocalError)"

text \<open>
  \<open>moveRobot(fromVertex, toVertex, orientation, commandRobot)\<close>: the icons move, the icon
  of the old orientation (\<open>robotIconsIDs[self.actualOrientation]\<close>, a \<open>KeyError\<close> for the
  initial empty orientation) is hidden, the robot is commanded (with the old
  orientation still current), and the robot's vertex becomes the planner's
  \<open>startNode\<close>.
\<close>

definition moveRobot ::
  "'r robot \<Rightarrow> 'r executer \<Rightarrow> coord option \<Rightarrow> coord \<Rightarrow> orientation option \<Rightarrow> bool \<Rightarrow> error + bool \<times> 'r executer" where
  "moveRobot rb e fromV toV ori cmd =
     (case fromV of
        None \<Rightarrow> Inl AttributeError
      | Some _ \<Rightarrow>
          (case (actualOrientation e, ori) of
             (Some _, Some newOri) \<Rightarrow>
               ebind (if cmd then rb_commandRobot rb (robot e) (actualOrientation e) newOri
                      else Inr (True, robot e)) (\<lambda>(res, r).
                 Inr (res, (set_planner e ((planner_of e)\<lparr>startNode := Some toV\<rparr>))
                             \<lparr>actualOrientation := Some newOri, robot := r\<rparr>))
           | _ \<Rightarrow> Inl KeyError))"

text \<open>\<open>orientRobotTo(nextVertex)\<close>: turn on the spot when the direction changes.\<close>

definition orientRobotTo :: "'r robot \<Rightarrow> 'r executer \<Rightarrow> coord \<Rightarrow> error + bool \<times> 'r executer" where
  "orientRobotTo rb e nextV =
     (case startNode (planner_of e) of
        None \<Rightarrow> Inl AttributeError
      | Some s \<Rightarrow>
          ebind (calcOrientation s nextV) (\<lambda>ori.
            if actualOrientation e \<noteq> Some ori
            then moveRobot rb e (Some s) s (Some ori) True
            else Inr (True, e)))"

text \<open>
  \<open>putRobotAtInitPos\<close>: the robot stands on the first vertex of the path with the
  orientation of the combo box and turns towards the second vertex, or, when it already
  faces it, checks it for an unplanned obstacle.
\<close>

definition putRobotAtInitPos :: "'r robot \<Rightarrow> 'r executer \<Rightarrow> error + bool \<times> 'r executer" where
  "putRobotAtInitPos rb e =
     ebind (py_index (actualPath (planner_of e)) 0) (\<lambda>s0.
       let e1 = (set_planner e ((planner_of e)\<lparr>startNode := Some s0\<rparr>))
                  \<lparr>actualOrientation := Some (cbRoboOrientation (ex_view e))\<rparr> in
       ebind (moveRobot rb e1 (Some (0, 0)) s0 (actualOrientation e1) False) (\<lambda>(_, e2).
         let e3 = tk_update e2 in
         case startNode (planner_of e3) of
           None \<Rightarrow> Inl AttributeError
         | Some s \<Rightarrow>
             ebind (py_index (actualPath (planner_of e3)) 1) (\<lambda>s1.
               ebind (calcOrientation s s1) (\<lambda>ori.
                 ebind (if Some ori \<noteq> actualOrientation e3
                        then moveRobot rb e3 (Some s) s (Some ori) True
                        else ebind (rb_obstacleStartCheck rb (robot e3)) (\<lambda>(res, r).
                               Inr (res, e3\<lparr>robot := r\<rparr>))) (\<lambda>(res, e4).
                   Inr (res, tk_update e4))))))"

section \<open>Replanning during execution\<close>

text \<open>
  \<open>clearOldPath(startStep)\<close> walks the remembered path from \<open>startStep\<close> to the goal to
  recolour it; it raises \<open>IndexError\<close> when the goal is not on the rest of the path.
\<close>

function clear_loop :: "planner \<Rightarrow> nat \<Rightarrow> error + unit" where
  "clear_loop p i =
     (if i < length (actualPath p) then
        (if Some (actualPath p ! i) \<noteq> goalNode p then clear_loop p (Suc i) else Inr ())
      else Inl IndexError)"
  by pat_completeness auto
termination
  by (relation "measure (\<lambda>(p, i). length (actualPath p) - i)") auto

declare clear_loop.simps [simp del]

definition clearOldPath :: "planner \<Rightarrow> nat \<Rightarrow> error + unit" where
  "clearOldPath p startStep = clear_loop p startStep"

text \<open>
  An obstacle the robot reports on the next vertex is entered into the planner
  (lines 67-70): the vertex's flag is set and the vertex added to \<open>obstacles\<close>.
\<close>

definition markObstacle :: "planner \<Rightarrow> coord \<Rightarrow> planner" where
  "markObstacle p c = (set_node p c ((node p c)\<lparr>isObstacle := True\<rparr>))\<lparr>obstacles := insert c (obstacles p)\<rparr>"

section \<open>Executing the plan\<close>

text \<open>
  Ask the robot whether it sees an obstacle, keeping its new state.
\<close>

definition reportsObstacle :: "'r robot \<Rightarrow> 'r executer \<Rightarrow> error + bool \<times> 'r executer" where
  "reportsObstacle rb e = ebind (rb_robotReportsObstacle rb (robot e)) (\<lambda>(b, r). Inr (b, e\<lparr>robot := r\<rparr>))"

text \<open>
  The inner loop of \<open>executePlan\<close> from path position \<open>step\<close>: turn to the next vertex,
  let Tk run the clicks, and either replan (the next vertex is an obstacle, or the robot
  reports one: \<open>robotReportsObstacle\<close> is asked only for a free vertex and then once
  more) and leave the loop, or drive onto it. It returns the state, \<open>abort\<close> and
  \<open>result\<close>.
\<close>

fun drive_steps ::
  "'r robot \<Rightarrow> nat \<Rightarrow> 'r executer \<Rightarrow> nat \<Rightarrow> bool \<Rightarrow> (error + 'r executer \<times> bool \<times> bool) option" where
  "drive_steps rb 0 e step res = None"
| "drive_steps rb (Suc fuel) e step res =
     (if step < length (actualPath (planner_of e)) \<and> res then
        (let nextV = actualPath (planner_of e) ! step in
         case orientRobotTo rb e nextV of
           Inl err \<Rightarrow> Some (Inl err)
         | Inr (r, e1) \<Rightarrow>
             (let e2 = tk_update e1 in
              case (if isObstacle (node (planner_of e2) nextV) then Inr (True, e2)
                    else reportsObstacle rb e2) of
                Inl err \<Rightarrow> Some (Inl err)
              | Inr (True, e2') \<Rightarrow>
                  (case reportsObstacle rb e2' of
                     Inl err \<Rightarrow> Some (Inl err)
                   | Inr (rep, e3) \<Rightarrow>
                       (let p3 = (if rep \<and> \<not> isObstacle (node (planner_of e3) nextV)
                                  then markObstacle (planner_of e3) nextV else planner_of e3) in
                        case clearOldPath p3 step of
                          Inl err \<Rightarrow> Some (Inl err)
                        | Inr _ \<Rightarrow>
                            (case replanning fuel p3 nextV of
                               None \<Rightarrow> None
                             | Some (Inl err) \<Rightarrow> Some (Inl err)
                             | Some (Inr (ok, p4)) \<Rightarrow>
                                 (case showAndRemberPath fuel p4 of
                                    None \<Rightarrow> None
                                  | Some (Inl err) \<Rightarrow> Some (Inl err)
                                  | Some (Inr p5) \<Rightarrow> Some (Inr (set_planner e3 p5, \<not> ok, r))))))
              | Inr (False, e2') \<Rightarrow>
                  (case (if r then moveRobot rb e2' (startNode (planner_of e2')) nextV (actualOrientation e2') True
                         else Inr (r, e2')) of
                     Inl err \<Rightarrow> Some (Inl err)
                   | Inr (r', e3) \<Rightarrow> drive_steps rb fuel (tk_update e3) (Suc step) r')))
      else Some (Inr (e, False, res)))"

text \<open>The outer loop: drive along the current path until the robot is at the goal.\<close>

fun drive :: "'r robot \<Rightarrow> nat \<Rightarrow> 'r executer \<Rightarrow> bool \<Rightarrow> bool \<Rightarrow> (error + 'r executer \<times> bool \<times> bool) option" where
  "drive rb 0 e abort res = None"
| "drive rb (Suc fuel) e abort res =
     (if startNode (planner_of e) \<noteq> goalNode (planner_of e) \<and> \<not> abort \<and> res then
        (case drive_steps rb fuel e 1 res of
           None \<Rightarrow> None
         | Some (Inl err) \<Rightarrow> Some (Inl err)
         | Some (Inr (e', abort', res')) \<Rightarrow> drive rb fuel e' abort' res')
      else Some (Inr (e, abort, res)))"

text \<open>
  \<open>executePlan\<close>: check the robot's business rules, connect to it, put it at the start
  and drive; after the last move the icon of the current orientation is hidden, the
  robot is told to stop (at the goal, or when no path is left), and the outcome
  reported.
\<close>

definition executePlan :: "'r robot \<Rightarrow> nat \<Rightarrow> 'r executer \<Rightarrow> (error + (bool \<times> string) \<times> 'r executer) option" where
  "executePlan rb fuel e =
     (if \<not> rb_executionAllowed rb (planner_of e) then
        Some (Inr ((False, ''Plan incompatible with executer. Check direct neighbors setting (Tab: Planning)''), e))
      else
        (case rb_connectRealRobot rb (robot e) of
           ((False, msg), r0) \<Rightarrow> Some (Inr ((False, msg), e\<lparr>robot := r0\<rparr>))
         | ((True, _), r0) \<Rightarrow>
             (case putRobotAtInitPos rb (e\<lparr>robot := r0\<rparr>) of
                Inl err \<Rightarrow> Some (Inl err)
              | Inr (r, e1) \<Rightarrow>
                  (case drive rb fuel e1 False r of
                     None \<Rightarrow> None
                   | Some (Inl err) \<Rightarrow> Some (Inl err)
                   | Some (Inr (e2, abort, res)) \<Rightarrow>
                       Some (if actualOrientation e2 = None then Inl KeyError
                             else if \<not> abort \<and> res then
                               ebind (rb_actionAtEnd rb (robot e2)) (\<lambda>(ok, r2).
                                 Inr (if ok then (True, ''Goal reached.'') else (False, ''Robot error at goal''),
                                      e2\<lparr>robot := r2\<rparr>))
                             else if abort then
                               ebind (rb_actionAtEnd rb (robot e2)) (\<lambda>(_, r2).
                                 Inr ((False, ''No path to goal exists''), e2\<lparr>robot := r2\<rparr>))
                             else Inr ((False, ''Abort with robot connection error''), e2))))))"

section \<open>Directions and robot poses\<close>

text \<open>
  The unit step each orientation stands for: \<open>y\<close> grows to the north (the view draws
  row \<open>height - 1\<close> at the top).
\<close>

definition orient_delta :: "orientation \<Rightarrow> coord" where
  "orient_delta ori = (case ori of
     North \<Rightarrow> (0, 1) | South \<Rightarrow> (0, -1) | East \<Rightarrow> (1, 0) | West \<Rightarrow> (-1, 0)
   | NorthEast \<Rightarrow> (1, 1) | SouthEast \<Rightarrow> (1, -1) | SouthWest \<Rightarrow> (-1, -1) | NorthWest \<Rightarrow> (-1, 1))"

text \<open>Two vertices are equal or neighbours in the 8-neighbourhood.\<close>

definition near :: "coord \<Rightarrow> coord \<Rightarrow> bool" where
  "near a b \<longleftrightarrow> \<bar>fst b - fst a\<bar> \<le> 1 \<and> \<bar>snd b - snd a\<bar> \<le> 1"

text \<open>
  \<open>pose e0 s ori\<close>: the executer \<open>e0\<close> with the robot moved to \<open>s\<close> and turned to \<open>ori\<close>.
\<close>

definition pose :: "'r executer \<Rightarrow> coord \<Rightarrow> orientation \<Rightarrow> 'r executer" where
  "pose e0 s ori = (set_planner e0 ((planner_of e0)\<lparr>startNode := Some s\<rparr>))\<lparr>actualOrientation := Some ori\<rparr>"

text \<open>
  A path the robot can drive: consecutive vertices are neighbours and no vertex of it is
  an obstacle.
\<close>

definition path_ok :: "planner \<Rightarrow> coord list \<Rightarrow> bool" where
  "path_ok p path \<longleftrightarrow> list_all (\<lambda>(a, b). near a b) (zip path (tl path)) \<and>
     list_all (\<lambda>c. \<not> isObstacle (node p c)) path"

section \<open>Properties of the execution\<close>

text \<open>
  C14. \<open>calcOrientation\<close> (screenExecuter.py lines 103-125) is right for every neighbour: for
  a vertex one step away in any of the eight directions it returns the orientation whose
  unit step is exactly the step to that vertex.
\<close>

lemma calcOrientation_near:
  assumes "near a n" "a \<noteq> n"
  shows "\<exists>ori. calcOrientation a n = Inr ori \<and> orient_delta ori = (fst n - fst a, snd n - snd a)"
proof -
  obtain ax ay nx ny where [simp]: "a = (ax, ay)" "n = (nx, ny)" by (cases a, cases n)
  have "nx - ax \<in> {-1, 0, 1}" "ny - ay \<in> {-1, 0, 1}" "(nx - ax, ny - ay) \<noteq> (0, 0)"
    using assms by (auto simp: near_def)
  then show ?thesis
    by (auto simp: calcOrientation_def orient_delta_def algebra_simps)
qed

lemma calcOrientation_near_witness:
  "near (1, 1) (2, 2) \<and> (1, 1) \<noteq> ((2, 2) :: coord) \<and>
   (\<exists>ori. calcOrientation (1, 1) (2, 2) = Inr ori \<and> orient_delta ori = (1, 1))"
  using calcOrientation_near[of "(1, 1)" "(2, 2)"] by (simp add: near_def)

text \<open>
  C15. \<open>calcOrientation\<close> raises, and raises only \<open>UnboundLocalError\<close>, exactly when the
  next vertex differs from the current one in both coordinates and lies in no
  neighbouring column.
\<close>

lemma calcOrientation_error:
  "((\<exists>err. calcOrientation a n = Inl err) \<longleftrightarrow> fst a \<noteq> fst n \<and> snd a \<noteq> snd n \<and> \<bar>fst n - fst a\<bar> \<noteq> 1) \<and>
   (calcOrientation a n = Inl UnboundLocalError \<longleftrightarrow> fst a \<noteq> fst n \<and> snd a \<noteq> snd n \<and> \<bar>fst n - fst a\<bar> \<noteq> 1)"
  by (auto simp: calcOrientation_def abs_if split: if_splits)

lemma calcOrientation_error_witness:
  "calcOrientation (0, 0) (2, 1) = Inl UnboundLocalError \<and> calcOrientation (0, 0) (1, 1) = Inr NorthEast"
  using calcOrientation_error[of "(0, 0)" "(2, 1)"] by (simp add: calcOrientation_def)

lemma planner_of_simps [simp]:
  "planner_of (set_planner e p) = p"
  "planner_of (e\<lparr>actualOrientation := x\<rparr>) = planner_of e"
  "pending (set_planner e p) = pending e"
  by (simp_all add: planner_of_def set_planner_def)

lemma planner_of_robot [simp]: "planner_of (e\<lparr>robot := r\<rparr>) = planner_of e"
  by (simp add: planner_of_def)

lemma screen_robot_simps [simp]:
  "rb_executionAllowed screen_robot p"
  "rb_connectRealRobot screen_robot r = ((True, []), r)"
  "rb_commandRobot screen_robot r a ori = Inr (True, r)"
  "rb_robotReportsObstacle screen_robot r = Inr (False, r)"
  "rb_obstacleStartCheck screen_robot r = Inr (True, r)"
  "rb_actionAtEnd screen_robot r = Inr (True, r)"
  by (simp_all add: screen_robot_def executionAllowed_def connectRealRobot_def commandRobot_def
      robotReportsObstacle_def obstacleStartCheck_def actionAtEnd_def)

lemma robot_unit [simp]: "(e :: unit executer)\<lparr>robot := r\<rparr> = e"
  by (cases e) simp

lemma reportsObstacle_screen [simp]: "reportsObstacle screen_robot e = Inr (False, e)"
  by (simp add: reportsObstacle_def)

lemma pose_simps [simp]:
  "planner_of (pose e0 s ori) = (planner_of e0)\<lparr>startNode := Some s\<rparr>"
  "actualOrientation (pose e0 s ori) = Some ori"
  "pending (pose e0 s ori) = pending e0"
  "pose (pose e0 s ori) s' ori' = pose e0 s' ori'"
  by (simp_all add: pose_def planner_of_def set_planner_def)

lemma tk_update_idle [simp]: "pending e = [] \<Longrightarrow> tk_update e = e"
  by (simp add: tk_update_def)

lemma moveRobot_pose:
  "moveRobot screen_robot (pose e0 s ori) (Some x) n (Some ori') cmd = Inr (True, pose e0 n ori')"
  by (simp add: moveRobot_def pose_def set_planner_def planner_of_def)

lemma set_pose:
  "(set_planner e ((planner_of e)\<lparr>startNode := Some s\<rparr>))\<lparr>actualOrientation := Some ori\<rparr> = pose e s ori"
  by (simp add: pose_def)

lemma node_startNode [simp]: "node (st\<lparr>startNode := x\<rparr>) = node st"
  by (simp add: node_def fun_eq_iff)

lemma calcOrientation_total:
  assumes "near a n"
  shows "\<exists>ori. calcOrientation a n = Inr ori"
proof -
  have "fst a = fst n \<or> snd a = snd n \<or> fst a + 1 = fst n \<or> fst a - 1 = fst n"
    using assms unfolding near_def by arith
  then show ?thesis by (auto simp: calcOrientation_def)
qed

lemma orientRobotTo_pose:
  assumes "near s n"
  shows "\<exists>ori'. orientRobotTo screen_robot (pose e0 s ori) n = Inr (True, pose e0 s ori')"
proof -
  obtain o2 where "calcOrientation s n = Inr o2" using calcOrientation_total[OF assms] by blast
  then show ?thesis by (auto simp: orientRobotTo_def moveRobot_pose)
qed
lemma path_ok_near:
  "path_ok p path \<Longrightarrow> Suc i < length path \<Longrightarrow> near (path ! i) (path ! Suc i)"
  by (auto simp: path_ok_def list_all_length nth_tl)

lemma path_ok_free:
  "path_ok p path \<Longrightarrow> c \<in> set path \<Longrightarrow> \<not> isObstacle (node p c)"
  by (simp add: path_ok_def list_all_iff)

lemma drive_steps_pose:
  assumes "pending e0 = []" "actualPath (planner_of e0) = path" "path_ok (planner_of e0) path"
    "0 < step" "step \<le> length path" "length path - step < fuel"
  shows "\<exists>ori'. drive_steps screen_robot fuel (pose e0 (path ! (step - 1)) ori) step True =
           Some (Inr (pose e0 (last path) ori', False, True))"
  using assms(4-6)
proof (induction fuel arbitrary: step ori)
  case 0
  then show ?case by simp
next
  case (Suc fuel)
  show ?case
  proof (cases "step < length path")
    case True
    have nr: "near (path ! (step - 1)) (path ! step)"
      using path_ok_near[OF assms(3), of "step - 1"] True Suc.prems(1) by simp
    have no: "\<not> isObstacle (node (planner_of e0) (path ! step))"
      using path_ok_free[OF assms(3)] True by simp
    obtain o2 where o2: "orientRobotTo screen_robot (pose e0 (path ! (step - 1)) ori) (path ! step) =
        Inr (True, pose e0 (path ! (step - 1)) o2)"
      using orientRobotTo_pose[OF nr] by blast
    have l: "length path - Suc step < fuel" using Suc.prems(3) True by arith
    obtain o3 where ih: "drive_steps screen_robot fuel (pose e0 (path ! step) o2) (Suc step) True =
        Some (Inr (pose e0 (last path) o3, False, True))"
      using Suc.IH[of "Suc step" o2] True l by auto
    show ?thesis
      using True o2 no ih assms(1,2) by (auto simp: moveRobot_pose)
  next
    case False
    then have "step = length path" using Suc.prems by simp
    moreover have "path \<noteq> []" using Suc.prems by auto
    ultimately show ?thesis using assms(2) by (auto simp: last_conv_nth)
  qed
qed
lemma putRobotAtInitPos_pose:
  assumes "pending e = []" "actualPath (planner_of e) = path" "2 \<le> length path" "near (path ! 0) (path ! 1)"
  shows "\<exists>ori. putRobotAtInitPos screen_robot e = Inr (True, pose e (path ! 0) ori)"
proof -
  obtain o2 where o2: "calcOrientation (path ! 0) (path ! 1) = Inr o2"
    using calcOrientation_total[OF assms(4)] by blast
  have ne: "path \<noteq> []" using assms(3) by auto
  have i0: "py_index path 0 = Inr (path ! 0)" using py_index_in_range[of 0 path] ne by simp
  have i1: "py_index path 1 = Inr (path ! 1)" using py_index_in_range[of 1 path] assms(3) by simp
  show ?thesis using assms(1,2) o2 i0 i1 by (auto simp: putRobotAtInitPos_def Let_def set_pose moveRobot_pose)
qed

lemma drive_pose:
  assumes "pending e0 = []" "actualPath (planner_of e0) = path" "path_ok (planner_of e0) path" "path \<noteq> []"
    "goalNode (planner_of e0) = Some (last path)" "length path < fuel"
  shows "\<exists>ori'. drive screen_robot fuel (pose e0 (path ! 0) ori) False True = Some (Inr (pose e0 (last path) ori', False, True))"
proof -
  obtain f where f: "fuel = Suc f" using assms(6) by (cases fuel) auto
  show ?thesis
  proof (cases "path ! 0 = last path")
    case True
    then show ?thesis using assms(5) by (auto simp: f)
  next
    case False
    have l: "length path - 1 < f" "1 \<le> length path" using assms(4,6) f by (cases path; simp)+
    obtain o2 where o2: "drive_steps screen_robot f (pose e0 (path ! 0) ori) 1 True = Some (Inr (pose e0 (last path) o2, False, True))"
      using drive_steps_pose[OF assms(1-3) _ l(2,1), of ori] by auto
    obtain f' where f': "f = Suc f'" using assms(4,6) f by (cases f) auto
    have "drive screen_robot f (pose e0 (last path) o2) False True = Some (Inr (pose e0 (last path) o2, False, True))"
      using assms(5) by (simp add: f')
    then show ?thesis using False o2 assms(5) by (auto simp: f)
  qed
qed

text \<open>
  C13. Liveness of the screen simulation (\<open>executePlan\<close>, lines 41-98): when the user
  clicks nothing during the run and the remembered path has at least two vertices, steps
  only between neighbours, avoids obstacles and ends at the goal, then with more fuel
  than the path is long the run ends with \<open>(True, 'Goal reached.')\<close>, the robot at the
  goal, and nothing else of the planner changed.
\<close>

lemma executePlan_reaches_goal:
  assumes "pending e = []" "actualPath (planner_of e) = path" "2 \<le> length path"
    "path_ok (planner_of e) path" "goalNode (planner_of e) = Some (last path)" "length path < fuel"
  shows "\<exists>e'. executePlan screen_robot fuel e = Some (Inr ((True, ''Goal reached.''), e')) \<and>
           planner_of e' = (planner_of e)\<lparr>startNode := Some (last path)\<rparr> \<and> pending e' = []"
proof -
  have "near (path ! 0) (path ! 1)" using path_ok_near[OF assms(4), of 0] assms(3) by simp
  then obtain ori where p: "putRobotAtInitPos screen_robot e = Inr (True, pose e (path ! 0) ori)"
    using putRobotAtInitPos_pose[OF assms(1,2,3)] by blast
  obtain o2 where d: "drive screen_robot fuel (pose e (path ! 0) ori) False True = Some (Inr (pose e (last path) o2, False, True))"
    using drive_pose[OF assms(1,2,4) _ assms(5,6)] assms(3) by (metis list.size(3) not_numeral_le_zero)
  show ?thesis using p d assms(1)
    by (simp add: executePlan_def)
qed

text \<open>
  Vertices that are not neighbours still get an orientation when they share a column or a
  row or lie in a neighbouring column: the vertex itself and one two rows up are
  \<open>North\<close>, one five rows up in the next column is \<open>SouthEast\<close>.
\<close>

lemma calcOrientation_not_neighbour:
  "calcOrientation (0, 0) (0, 0) = Inr North \<and> calcOrientation (0, 0) (0, 2) = Inr North \<and>
   calcOrientation (0, 0) (1, 5) = Inr SouthEast \<and> calcOrientation (0, 0) (0, -2) = Inr North"
  by (simp add: calcOrientation_def)

end
