(* ===== verification/Mailbox.thy ===== *)
theory Mailbox
  imports DStar_Prelude "HOL-Library.Word"
begin

text \<open>
  The EV3 mailbox message format of \<open>src/20_Raspberry_Pi_project/EV3mailbox.py\<close>, with
  which the Raspberry Pi sends telecommands to the Lego EV3 brick and reads its answers
  (\<open>TMTCpi2EV3.sendTC\<close>). A message is a Python \<open>bytes\<close> object, here a list of
  \<open>8 word\<close>; the fields \<open>struct\<close> packs with \<open>'<H'\<close> are little-endian \<open>16 word\<close>s. The
  Python exceptions of the codec are the constructors of \<open>mb_error\<close> (declared in
  \<open>DStar_Prelude\<close>). A numeric value is
  carried as the bit pattern of the IEEE single that \<open>struct.pack('<f', ...)\<close> writes;
  the rounding of \<open>float(value)\<close> to that pattern is not modelled.
\<close>

unbundle bit_operations_syntax

type_synonym byte = "8 word"

datatype message_type = Text | Numeric | Logic

datatype mvalue = TextVal string | NumVal "32 word" | LogicVal bool

definition mbind :: "mb_error + 'a \<Rightarrow> ('a \<Rightarrow> mb_error + 'b) \<Rightarrow> mb_error + 'b" where
  "mbind m f = (case m of Inl e \<Rightarrow> Inl e | Inr a \<Rightarrow> f a)"

lemma mbind_simps [simp]:
  "mbind (Inl e) f = Inl e" "mbind (Inr a) f = f a"
  by (simp_all add: mbind_def)

section \<open>Bytes, words and ASCII\<close>

text \<open>\<open>struct.pack('<H', n)\<close> and its inverse \<open>struct.unpack('<H', ...)\<close>.\<close>

definition u16_le :: "16 word \<Rightarrow> byte list" where
  "u16_le w = [ucast w, ucast (drop_bit 8 w)]"

definition le_u16 :: "byte \<Rightarrow> byte \<Rightarrow> 16 word" where
  "le_u16 b0 b1 = ucast b0 OR push_bit 8 (ucast b1)"

text \<open>\<open>struct.pack('<f', ...)\<close> on the bit pattern, and \<open>struct.unpack('<f', ...)\<close>.\<close>

definition u32_le :: "32 word \<Rightarrow> byte list" where
  "u32_le w = [ucast w, ucast (drop_bit 8 w), ucast (drop_bit 16 w), ucast (drop_bit 24 w)]"

definition le_u32 :: "byte list \<Rightarrow> 32 word" where
  "le_u32 bs = ucast (bs ! 0) OR push_bit 8 (ucast (bs ! 1)) OR push_bit 16 (ucast (bs ! 2))
     OR push_bit 24 (ucast (bs ! 3))"

text \<open>\<open>str.encode('ascii')\<close> and \<open>bytes.decode('ascii')\<close>.\<close>

definition ascii_encode :: "string \<Rightarrow> mb_error + byte list" where
  "ascii_encode s =
     (if list_all (\<lambda>c. of_char c < (128::nat)) s then Inr (map (\<lambda>c. of_nat (of_char c)) s) else Inl UnicodeEncodeError)"

definition ascii_decode :: "byte list \<Rightarrow> mb_error + string" where
  "ascii_decode bs =
     (if list_all (\<lambda>b. unat b < 128) bs then Inr (map (\<lambda>b. char_of (unat b)) bs) else Inl UnicodeDecodeError)"

text \<open>
  \<open>struct.unpack_from(fmt, s, off)\<close> reads the bytes \<open>s[off:off+n]\<close> and raises
  \<open>struct.error\<close> when \<open>s\<close> is shorter than \<open>off + n\<close>.
\<close>

definition unpack_bytes :: "byte list \<Rightarrow> nat \<Rightarrow> nat \<Rightarrow> mb_error + byte list" where
  "unpack_bytes s off n = (if off + n \<le> length s then Inr (take n (drop off s)) else Inl StructError)"

definition unpack_u16 :: "byte list \<Rightarrow> nat \<Rightarrow> mb_error + nat" where
  "unpack_u16 s off = mbind (unpack_bytes s off 2) (\<lambda>bs. Inr (unat (le_u16 (bs ! 0) (bs ! 1))))"

section \<open>The codec\<close>

definition mailbox_header :: "byte list" where
  "mailbox_header = [0x01, 0x00, 0x81, 0x9e]"

text \<open>
  \<open>decodeMessage(s, msgType)\<close>: the checks in the order of the source; the mailbox name
  and a text value lose their terminating character (\<open>[:-1]\<close>); bytes after the
  message are returned as the remnant.
\<close>

definition decode_value :: "byte list \<Rightarrow> message_type \<Rightarrow> nat \<Rightarrow> nat \<Rightarrow> mb_error + mvalue" where
  "decode_value s msgType mailSize valueSize =
     (case msgType of
        Logic \<Rightarrow>
          if valueSize \<noteq> 1 then Inl BufferError
          else mbind (unpack_bytes s (9 + mailSize) 1) (\<lambda>vb. Inr (LogicVal (vb ! 0 \<noteq> 0)))
      | Numeric \<Rightarrow>
          if valueSize \<noteq> 4 then Inl BufferError
          else mbind (unpack_bytes s (9 + mailSize) 4) (\<lambda>vb. Inr (NumVal (le_u32 vb)))
      | Text \<Rightarrow>
          mbind (unpack_bytes s (9 + mailSize) valueSize) (\<lambda>vb.
            mbind (ascii_decode vb) (\<lambda>v. Inr (TextVal (butlast v)))))"

definition decodeMessage ::
  "byte list \<Rightarrow> message_type \<Rightarrow> mb_error + string \<times> mvalue \<times> byte list option" where
  "decodeMessage s msgType =
     mbind (unpack_u16 s 0) (\<lambda>payloadSize.
     if payloadSize < 5 then Inl BufferError else
     mbind (unpack_bytes s 2 4) (\<lambda>hdr.
     if hdr \<noteq> mailbox_header then Inl BufferError else
     mbind (unpack_bytes s 6 1) (\<lambda>ms.
     let mailSize = unat (ms ! 0) in
     if payloadSize < 5 + mailSize then Inl BufferError else
     mbind (unpack_bytes s 7 mailSize) (\<lambda>mailBytes.
     mbind (ascii_decode mailBytes) (\<lambda>mailStr.
     mbind (unpack_u16 s (7 + mailSize)) (\<lambda>valueSize.
     if payloadSize < 7 + mailSize + valueSize then Inl BufferError else
     mbind (decode_value s msgType mailSize valueSize) (\<lambda>value.
     Inr (butlast mailStr, value,
          if length s > payloadSize + 2 then Some (drop (payloadSize + 2) s) else None))))))))"

text \<open>
  \<open>encodeMessage(msgType, mail, value)\<close>: the mailbox name and a text value get a
  terminating \<open>'\x00'\<close>; a logic value is the byte 1 exactly when it \<open>is True\<close>. The
  lengths are packed with \<open>'B'\<close> (mail size) and \<open>'H'\<close> (payload and value sizes),
  which raise \<open>struct.error\<close> above 255 and 65535.
\<close>

definition encode_value :: "message_type \<Rightarrow> mvalue \<Rightarrow> mb_error + nat \<times> byte list" where
  "encode_value msgType value =
     (case msgType of
        Logic \<Rightarrow> Inr (1, [if value = LogicVal True then 1 else 0])
      | Numeric \<Rightarrow> (case value of NumVal w \<Rightarrow> Inr (4, u32_le w) | _ \<Rightarrow> Inl MTypeError)
      | Text \<Rightarrow> (case value of
                  TextVal v \<Rightarrow> mbind (ascii_encode (v @ [CHR 0x00])) (\<lambda>vb. Inr (length vb, vb))
                | _ \<Rightarrow> Inl MTypeError))"

definition encodeMessage :: "message_type \<Rightarrow> string \<Rightarrow> mvalue \<Rightarrow> mb_error + byte list" where
  "encodeMessage msgType mail value =
     mbind (ascii_encode (mail @ [CHR 0x00])) (\<lambda>mailBytes.
     let mailSize = length mailBytes in
     mbind (encode_value msgType value) (\<lambda>(valueSize, valueBytes).
     let payloadSize = 7 + mailSize + valueSize in
     if payloadSize > 65535 \<or> mailSize > 255 then Inl StructError
     else Inr (u16_le (of_nat payloadSize) @ mailbox_header @ [of_nat mailSize] @ mailBytes @
               u16_le (of_nat valueSize) @ valueBytes)))"

section \<open>Well-formed frames\<close>

text \<open>
  \<open>ascii_str\<close>: a string that \<open>encode('ascii')\<close> accepts; \<open>fits\<close>: a value of the
  message type; \<open>mailbox_frame mail vb\<close>: the bytes \<open>encodeMessage\<close> writes for the
  mailbox name \<open>mail\<close> and the encoded value \<open>vb\<close>.
\<close>

definition ascii_str :: "string \<Rightarrow> bool" where
  "ascii_str s \<longleftrightarrow> list_all (\<lambda>c. of_char c < (128::nat)) s"

definition fits :: "message_type \<Rightarrow> mvalue \<Rightarrow> bool" where
  "fits t val = (case (t, val) of
     (Text, TextVal v) \<Rightarrow> ascii_str v | (Numeric, NumVal _) \<Rightarrow> True | (Logic, LogicVal _) \<Rightarrow> True
   | _ \<Rightarrow> False)"

definition ascii_bytes :: "string \<Rightarrow> byte list" where
  "ascii_bytes s = map (\<lambda>c. of_nat (of_char c)) s"

definition mailbox_frame :: "string \<Rightarrow> byte list \<Rightarrow> byte list" where
  "mailbox_frame mail vb =
     u16_le (of_nat (8 + length mail + length vb)) @ mailbox_header @ [of_nat (Suc (length mail))] @
     ascii_bytes (mail @ [CHR 0x00]) @ u16_le (of_nat (length vb)) @ vb"

section \<open>Lemmas on bytes and frames\<close>

lemma le_u16_u16_le [simp]: "le_u16 (ucast w) (ucast (drop_bit 8 w)) = w"
  by (rule bit_word_eqI) (auto simp: le_u16_def bit_simps)

lemma le_u32_u32_le [simp]: "le_u32 (u32_le w) = w"
proof (rule bit_word_eqI)
  fix n assume "n < LENGTH(32)"
  then show "bit (le_u32 (u32_le w)) n \<longleftrightarrow> bit w n"
    by (cases "n < 8"; cases "n < 16"; cases "n < 24") (auto simp: bit_simps u32_le_def le_u32_def)
qed

lemma ascii_encode_Inr:
  "ascii_encode s = Inr bs \<longleftrightarrow> ascii_str s \<and> bs = ascii_bytes s"
  by (auto simp: ascii_encode_def ascii_str_def ascii_bytes_def)

lemma ascii_decode_bytes:
  "ascii_str s \<Longrightarrow> ascii_decode (ascii_bytes s) = Inr s"
  by (auto simp: ascii_decode_def ascii_str_def ascii_bytes_def list_all_iff unat_of_nat comp_def)

lemma ascii_str_nul [simp]: "ascii_str (s @ [CHR 0x00]) \<longleftrightarrow> ascii_str s"
  by (simp add: ascii_str_def)

lemma length_ascii_bytes [simp]: "length (ascii_bytes s) = length s"
  by (simp add: ascii_bytes_def)

lemma length_u16_le [simp]: "length (u16_le w) = 2"
  by (simp add: u16_le_def)

lemma unpack_bytes_at:
  "s = xs @ ys @ zs \<Longrightarrow> off = length xs \<Longrightarrow> n = length ys \<Longrightarrow> unpack_bytes s off n = Inr ys"
  by (simp add: unpack_bytes_def)

lemma unpack_bytes_shift:
  "unpack_bytes (xs @ ys) (length xs + k) n = unpack_bytes ys k n"
  by (simp add: unpack_bytes_def)

lemma unpack_u16_at:
  "s = xs @ u16_le w @ zs \<Longrightarrow> off = length xs \<Longrightarrow> unpack_u16 s off = Inr (unat w)"
  by (simp add: unpack_u16_def unpack_bytes_def u16_le_def)

lemma encode_value_Inr:
  "encode_value t val = Inr (n, vb) \<Longrightarrow> n = length vb"
  by (auto simp: encode_value_def mbind_def ascii_encode_Inr u32_le_def
      split: message_type.splits mvalue.splits sum.splits)

lemma encodeMessage_Inr:
  "encodeMessage t mail val = Inr s \<longleftrightarrow>
     (\<exists>vb. encode_value t val = Inr (length vb, vb) \<and> ascii_str mail \<and> length mail < 255 \<and>
        8 + length mail + length vb \<le> 65535 \<and> s = mailbox_frame mail vb)"
proof (cases "ascii_encode (mail @ [CHR 0x00])")
  case (Inl e)
  then show ?thesis by (auto simp: encodeMessage_def ascii_encode_def ascii_str_def split: if_splits)
next
  case (Inr mb)
  then have mb: "ascii_str mail" "mb = ascii_bytes (mail @ [CHR 0x00])"
    by (simp_all add: ascii_encode_Inr)
  show ?thesis
  proof (cases "encode_value t val")
    case (Inl e)
    then show ?thesis using Inr by (simp add: encodeMessage_def)
  next
    case (Inr p)
    obtain n vb where p: "p = (n, vb)" by (cases p)
    then have n: "n = length vb" using Inr encode_value_Inr by simp
    show ?thesis
      using Inr \<open>ascii_encode (mail @ [CHR 0x00]) = Inr mb\<close> mb p n
      by (auto simp: encodeMessage_def mailbox_frame_def)
  qed
qed

lemma decode_frame:
  assumes "ascii_str mail" "length mail < 255" "8 + length mail + length vb \<le> 65535"
  shows "decodeMessage (mailbox_frame mail vb @ rest) t =
    mbind (decode_value (mailbox_frame mail vb @ rest) t (Suc (length mail)) (length vb)) (\<lambda>value.
      Inr (mail, value, if rest = [] then None else Some rest))"
proof -
  define M where "M = Suc (length mail)"
  define V where "V = length vb"
  define P where "P = 8 + length mail + length vb"
  define mb where "mb = ascii_bytes (mail @ [CHR 0x00])"
  define s where "s = mailbox_frame mail vb"
  have s: "s = u16_le (of_nat P) @ mailbox_header @ [of_nat M] @ mb @ u16_le (of_nat V) @ vb"
    by (simp add: s_def mailbox_frame_def P_def M_def V_def mb_def)
  have lens: "length mb = M" "length mailbox_header = 4"
    by (simp_all add: mb_def M_def mailbox_header_def)
  have n: "unat (of_nat P :: 16 word) = P" "unat (of_nat V :: 16 word) = V" "unat (of_nat M :: 8 word) = M"
    using assms unfolding unat_of_nat by (simp_all add: P_def V_def M_def)
  have u1: "unpack_u16 (s @ rest) 0 = Inr P"
    using unpack_u16_at[of "s @ rest" "[]"] n by (simp add: s)
  have u2: "unpack_bytes (s @ rest) 2 4 = Inr mailbox_header"
    by (rule unpack_bytes_at[where xs = "u16_le (of_nat P)"]) (simp_all add: s lens)
  have u3: "unpack_bytes (s @ rest) 6 1 = Inr [of_nat M]"
    by (rule unpack_bytes_at[where xs = "u16_le (of_nat P) @ mailbox_header"]) (simp_all add: s lens)
  have u4: "unpack_bytes (s @ rest) 7 M = Inr mb"
    by (rule unpack_bytes_at[where xs = "u16_le (of_nat P) @ mailbox_header @ [of_nat M]"])
      (simp_all add: s lens)
  have u5: "unpack_u16 (s @ rest) (7 + M) = Inr V"
    using unpack_u16_at[where xs = "u16_le (of_nat P) @ mailbox_header @ [of_nat M] @ mb"] n
    by (simp add: s lens)
  have ls: "length s = P + 2"
    by (simp add: s lens P_def M_def V_def)
  have d: "ascii_decode mb = Inr (mail @ [CHR 0x00])"
    using ascii_decode_bytes[of "mail @ [CHR 0x00]"] assms by (simp add: mb_def)
  have c: "\<not> P < 5" "\<not> P < 5 + M" "\<not> P < 7 + M + V" "\<not> mailbox_header \<noteq> mailbox_header"
    by (simp_all add: P_def M_def V_def)
  have b: "butlast (mail @ [CHR 0x00]) = mail" by simp
  have r: "(if length (s @ rest) > P + 2 then Some (drop (P + 2) (s @ rest)) else None) =
           (if rest = [] then None else Some rest)"
    using ls by simp
  show ?thesis
    unfolding decodeMessage_def s_def[symmetric] M_def[symmetric] V_def[symmetric]
    by (simp only: u1 u2 u3 u4 u5 d c b r mbind_simps Let_def nth_Cons_0 n(3) if_False)
qed

lemma decode_value_frame:
  assumes "fits t val" "encode_value t val = Inr (length vb, vb)" "length pre = 9 + M"
  shows "decode_value (pre @ vb @ rest) t M (length vb) = Inr val"
proof -
  have u: "unpack_bytes (pre @ vb @ rest) (9 + M) (length vb) = Inr vb"
    by (rule unpack_bytes_at) (simp_all add: assms(3)[symmetric])
  show ?thesis
  proof (cases t)
    case Text
    then obtain v where v: "val = TextVal v" "ascii_str v"
      using assms(1) by (cases val) (auto simp: fits_def)
    then have "vb = ascii_bytes (v @ [CHR 0x00])"
      using assms(2) Text by (auto simp: encode_value_def ascii_encode_Inr mbind_def split: sum.splits)
    then have "ascii_decode vb = Inr (v @ [CHR 0x00])" using v(2) by (simp add: ascii_decode_bytes)
    then show ?thesis using Text v u by (simp add: decode_value_def)
  next
    case Numeric
    then obtain w where w: "val = NumVal w"
      using assms(1) by (cases val) (auto simp: fits_def)
    then have vb: "vb = u32_le w" using assms(2) Numeric by (simp add: encode_value_def)
    then have "length vb = 4" "le_u32 vb = w" by (simp add: u32_le_def, simp)
    then show ?thesis using Numeric w u by (simp add: decode_value_def)
  next
    case Logic
    then obtain b where b: "val = LogicVal b"
      using assms(1) by (cases val) (auto simp: fits_def)
    then have "vb = [if b then 1 else 0]" using assms(2) Logic by (simp add: encode_value_def)
    then have "length vb = 1" "(vb ! 0 \<noteq> 0) = b" by simp_all
    then show ?thesis using Logic b u by (simp add: decode_value_def)
  qed
qed

section \<open>The codec's contract\<close>

lemma decode_encoded:
  assumes "fits t val" "encodeMessage t mail val = Inr s"
  shows "decodeMessage (s @ rest) t = Inr (mail, val, if rest = [] then None else Some rest)"
proof -
  obtain vb where vb: "encode_value t val = Inr (length vb, vb)" "ascii_str mail" "length mail < 255"
    "8 + length mail + length vb \<le> 65535" and s: "s = mailbox_frame mail vb"
    using assms(2) by (auto simp: encodeMessage_Inr)
  define pre where "pre = u16_le (of_nat (8 + length mail + length vb)) @ mailbox_header @
    [of_nat (Suc (length mail))] @ ascii_bytes (mail @ [CHR 0x00]) @ u16_le (of_nat (length vb))"
  have fr: "mailbox_frame mail vb @ rest = pre @ vb @ rest"
    by (simp add: mailbox_frame_def pre_def)
  have "length pre = 9 + Suc (length mail)"
    by (simp add: pre_def mailbox_header_def)
  then have "decode_value (mailbox_frame mail vb @ rest) t (Suc (length mail)) (length vb) = Inr val"
    unfolding fr by (rule decode_value_frame[OF assms(1) vb(1)])
  then show ?thesis
    using decode_frame[OF vb(2-4)] by (simp add: s)
qed

text \<open>
  C7. Round trip: a message \<open>encodeMessage\<close> produced, followed by any further bytes,
  decodes to the mailbox name and the value that were encoded, and the further bytes are
  returned as the remnant (\<open>None\<close> when there are none). This is what
  \<open>TMTCpi2EV3.sendTC\<close> relies on when it reads the EV3's replies.
\<close>

theorem decode_encode:
  assumes "fits t val" "encodeMessage t mail val = Inr s"
  shows "decodeMessage (s @ rest) t = Inr (mail, val, if rest = [] then None else Some rest)"
  using decode_encoded[OF assms] .

theorem decode_encode_witness:
  "fits Text (TextVal ''Hello'') \<and>
   encodeMessage Text ''abc'' (TextVal ''Hello'') =
     Inr [0x11, 0, 1, 0, 0x81, 0x9e, 4, 0x61, 0x62, 0x63, 0, 6, 0, 0x48, 0x65, 0x6c, 0x6c, 0x6f, 0] \<and>
   decodeMessage ([0x11, 0, 1, 0, 0x81, 0x9e, 4, 0x61, 0x62, 0x63, 0, 6, 0, 0x48, 0x65, 0x6c, 0x6c, 0x6f, 0]
     @ [0x07]) Text = Inr (''abc'', TextVal ''Hello'', Some [0x07])"
proof -
  have f: "fits Text (TextVal ''Hello'')" by (simp add: fits_def ascii_str_def)
  have e: "encodeMessage Text ''abc'' (TextVal ''Hello'') =
     Inr [0x11, 0, 1, 0, 0x81, 0x9e, 4, 0x61, 0x62, 0x63, 0, 6, 0, 0x48, 0x65, 0x6c, 0x6c, 0x6f, 0]"
    by (simp add: encodeMessage_def encode_value_def ascii_encode_def u16_le_def mailbox_header_def)
  show ?thesis using decode_encode[OF f e, of "[0x07]"] f e by simp
qed

text \<open>
  C8. Bounds: an encoded message is at most 65537 bytes long, and its first two bytes,
  read as \<open>'<H'\<close>, give the number of bytes that follow them.
\<close>

theorem encodeMessage_length:
  assumes "encodeMessage t mail val = Inr s"
  shows "length s = unat (le_u16 (s ! 0) (s ! 1)) + 2 \<and> length s \<le> 65537"
proof -
  obtain vb where vb: "length mail < 255" "8 + length mail + length vb \<le> 65535"
    and s: "s = mailbox_frame mail vb"
    using assms by (auto simp: encodeMessage_Inr)
  have "unat (of_nat (8 + length mail + length vb) :: 16 word) = 8 + length mail + length vb"
    using vb unfolding unat_of_nat by simp
  then show ?thesis
    using vb by (simp add: s mailbox_frame_def u16_le_def mailbox_header_def)
qed

theorem encodeMessage_length_witness:
  "encodeMessage Logic ''ack'' (LogicVal True) = Inr [0x0c, 0, 1, 0, 0x81, 0x9e, 4, 0x61, 0x63, 0x6b, 0, 1, 0, 1] \<and>
   length [0x0c, 0, 1, 0, 0x81, 0x9e, 4, 0x61, 0x63, 0x6b, 0, 1, 0, (1::byte)] = 14"
proof -
  have e: "encodeMessage Logic ''ack'' (LogicVal True) = Inr [0x0c, 0, 1, 0, 0x81, 0x9e, 4, 0x61, 0x63, 0x6b, 0, 1, 0, 1]"
    by (simp add: encodeMessage_def encode_value_def ascii_encode_def u16_le_def mailbox_header_def)
  show ?thesis using encodeMessage_length[OF e] e by (simp add: le_u16_def)
qed

text \<open>
  C9. Error behaviour of \<open>decodeMessage\<close>: fewer than two bytes raise \<open>struct.error\<close>;
  a payload size below 5 or a wrong header raises \<open>BufferError\<close>.
\<close>

theorem decodeMessage_rejects:
  "(length s < 2 \<longrightarrow> decodeMessage s t = Inl StructError) \<and>
   (2 \<le> length s \<and> unat (le_u16 (s ! 0) (s ! 1)) < 5 \<longrightarrow> decodeMessage s t = Inl BufferError) \<and>
   (6 \<le> length s \<and> 5 \<le> unat (le_u16 (s ! 0) (s ! 1)) \<and> take 4 (drop 2 s) \<noteq> mailbox_header \<longrightarrow>
      decodeMessage s t = Inl BufferError)"
  by (simp add: decodeMessage_def unpack_u16_def unpack_bytes_def)

theorem decodeMessage_rejects_witness:
  "decodeMessage [] Logic = Inl StructError \<and> decodeMessage [3, 0] Logic = Inl BufferError \<and>
   decodeMessage [9, 0, 1, 0, 0x81, 0x9f] Logic = Inl BufferError"
  using decodeMessage_rejects[of "[]" Logic] decodeMessage_rejects[of "[3, 0]" Logic]
    decodeMessage_rejects[of "[9, 0, 1, 0, 0x81, 0x9f]" Logic]
  by (simp add: le_u16_def mailbox_header_def)

end
