(* ===== verification/Tmtc.thy ===== *)
theory Tmtc
  imports Mailbox
begin

text \<open>
  The telecommand link to the EV3 brick, \<open>TMTCpi2EV3\<close> of
  \<open>src/20_Raspberry_Pi_project/TMTCpi2EV3.py\<close>. The serial port is its traffic: the
  messages written to it, in order, and what each poll of \<open>in_waiting\<close> finds, one entry
  per poll (the empty list when nothing is waiting; no entry left means nothing arrives
  any more). A wait loop polls every 0.1 s until its deadline, so the two-second wait
  for the acknowledgement is 20 polls and a wait of \<open>withinSeconds\<close> is
  \<open>10 * withinSeconds\<close> polls; the time a read and a decoding take is not modelled.
\<close>

record serial_port =
  written :: "byte list list"
  arrivals :: "byte list list"

record tmtc =
  tm_serialPort :: string
  EV3serial :: serial_port
  tm_mailboxName :: string

text \<open>
  The constructor opens the port; \<open>serial.Serial\<close> raises when no device is present,
  here when the system offers no port under that name.
\<close>

definition tmtc_init :: "string \<Rightarrow> string \<Rightarrow> serial_port option \<Rightarrow> error + tmtc" where
  "tmtc_init serialPort mailboxName device =
     (case device of
        None \<Rightarrow> Inl SerialException
      | Some sp \<Rightarrow> Inr \<lparr>tm_serialPort = serialPort, EV3serial = sp, tm_mailboxName = mailboxName\<rparr>)"

text \<open>
  One wait loop of \<open>sendTC\<close> with \<open>n\<close> polls left: an empty poll sleeps and polls again;
  the first bytes that arrive are read and decoded as a message of type \<open>t\<close>, whose
  value ends the wait. A decoding error is raised.
\<close>

fun wait_reply :: "nat \<Rightarrow> message_type \<Rightarrow> serial_port \<Rightarrow> error + mvalue option \<times> serial_port" where
  "wait_reply 0 t sp = Inr (None, sp)"
| "wait_reply (Suc n) t sp =
     (case arrivals sp of
        [] \<Rightarrow> wait_reply n t sp
      | b # bs \<Rightarrow>
          (if b = [] then wait_reply n t (sp\<lparr>arrivals := bs\<rparr>)
           else (case decodeMessage b t of
                   Inl e \<Rightarrow> Inl (MailboxError e)
                 | Inr (_, value, _) \<Rightarrow> Inr (Some value, sp\<lparr>arrivals := bs\<rparr>))))"

definition ack_polls :: nat where
  "ack_polls = 20"

definition tm_polls :: "nat \<Rightarrow> nat" where
  "tm_polls withinSeconds = 10 * withinSeconds"

text \<open>
  \<open>sendTC(aCommandString, TMexpected, withinSeconds)\<close>: write the command as a text
  message, wait for the logic acknowledgement, and, if acknowledged and a telemetry is
  expected, wait for it. It returns whether all went well and the telemetry: the
  decoded value, \<open>None\<close> when it did not come in time, and \<open>""\<close> when none was awaited.
\<close>

definition sendTC :: "tmtc \<Rightarrow> string \<Rightarrow> bool \<Rightarrow> nat \<Rightarrow> error + (bool \<times> mvalue option) \<times> tmtc" where
  "sendTC tc aCommandString TMexpected withinSeconds =
     (case encodeMessage Text (tm_mailboxName tc) (TextVal aCommandString) of
        Inl e \<Rightarrow> Inl (MailboxError e)
      | Inr s \<Rightarrow>
          (let sp1 = (EV3serial tc)\<lparr>written := written (EV3serial tc) @ [s]\<rparr> in
           ebind (wait_reply ack_polls Logic sp1) (\<lambda>(ack, sp2).
             let ackCommand = (ack = Some (LogicVal True)) in
             if ackCommand \<and> TMexpected then
               ebind (wait_reply (tm_polls withinSeconds) Text sp2) (\<lambda>(tm, sp3).
                 Inr ((ackCommand \<and> tm \<noteq> None, tm), tc\<lparr>EV3serial := sp3\<rparr>))
             else Inr ((ackCommand, Some (TextVal [])), tc\<lparr>EV3serial := sp2\<rparr>))))"

text \<open>
  What a wait with \<open>n\<close> polls left promises: the first of the next \<open>n\<close> polls that
  finds bytes decides the outcome, and the input is consumed up to and including it;
  when none of them finds any, the wait ends empty after \<open>n\<close> polls.
\<close>

definition first_reply :: "nat \<Rightarrow> message_type \<Rightarrow> serial_port \<Rightarrow> error + mvalue option \<times> serial_port" where
  "first_reply n t sp =
     (let polls = take n (arrivals sp); k = length (takeWhile (\<lambda>b. b = []) polls) in
      if k < length polls then
        (case decodeMessage (polls ! k) t of
           Inl e \<Rightarrow> Inl (MailboxError e)
         | Inr (_, v, _) \<Rightarrow> Inr (Some v, sp\<lparr>arrivals := drop (Suc k) (arrivals sp)\<rparr>))
      else Inr (None, sp\<lparr>arrivals := drop n (arrivals sp)\<rparr>))"

section \<open>Properties of the link\<close>

lemma encodeMessage_nonempty: "encodeMessage t mail val = Inr s \<Longrightarrow> s \<noteq> []"
  by (auto simp: encodeMessage_Inr mailbox_frame_def)

lemma wait_reply_skip:
  "arrivals sp = replicate k [] @ bs \<Longrightarrow> wait_reply (k + n) t sp = wait_reply n t (sp\<lparr>arrivals := bs\<rparr>)"
proof (induction k arbitrary: sp)
  case 0
  then show ?case by (cases sp) simp
next
  case (Suc k)
  then show ?case by simp
qed

lemma wait_reply_idle:
  "\<forall>b\<in>set (take n (arrivals sp)). b = [] \<Longrightarrow>
   wait_reply n t sp = Inr (None, sp\<lparr>arrivals := drop n (arrivals sp)\<rparr>)"
proof (induction n arbitrary: sp)
  case 0
  then show ?case by simp
next
  case (Suc n)
  then show ?case by (cases "arrivals sp") auto
qed

lemma wait_reply_encoded:
  assumes "encodeMessage t m v = Inr a" "fits t v" "arrivals sp = replicate k [] @ a # rest" "k < n"
  shows "wait_reply n t sp = Inr (Some v, sp\<lparr>arrivals := rest\<rparr>)"
proof -
  obtain n' where n: "n = k + Suc n'" using assms(4) by (metis add_Suc_right less_iff_Suc_add add.commute)
  have "decodeMessage a t = Inr (m, v, None)" using decode_encoded[OF assms(2,1), of "[]"] by simp
  moreover have "wait_reply (k + Suc n') t sp = wait_reply (Suc n') t (sp\<lparr>arrivals := a # rest\<rparr>)"
    by (rule wait_reply_skip[OF assms(3)])
  ultimately show ?thesis using encodeMessage_nonempty[OF assms(1)] by (simp add: n)
qed

lemma wait_reply_consumes:
  "wait_reply n t sp = Inr (v, sp') \<Longrightarrow>
   \<exists>k\<le>n. arrivals sp' = drop k (arrivals sp) \<and> written sp' = written sp"
proof (induction n arbitrary: sp)
  case 0
  then show ?case by auto
next
  case (Suc n)
  show ?case
  proof (cases "arrivals sp")
    case Nil
    then show ?thesis using Suc by fastforce
  next
    case (Cons b bs)
    show ?thesis
    proof (cases "b = []")
      case True
      then obtain k where "k \<le> n" "arrivals sp' = drop k bs" "written sp' = written sp"
        using Suc Cons by fastforce
      then show ?thesis using Cons by (intro exI[of _ "Suc k"]) simp
    next
      case False
      then show ?thesis using Suc.prems Cons
        by (auto split: sum.splits prod.splits intro!: exI[of _ 1])
    qed
  qed
qed

lemma sendTC_writes:
  assumes "sendTC tc cmd tmExpected secs = Inr (x, tc')"
  shows "\<exists>s. encodeMessage Text (tm_mailboxName tc) (TextVal cmd) = Inr s \<and>
           written (EV3serial tc') = written (EV3serial tc) @ [s] \<and>
           tm_serialPort tc' = tm_serialPort tc \<and> tm_mailboxName tc' = tm_mailboxName tc"
proof -
  obtain s where s: "encodeMessage Text (tm_mailboxName tc) (TextVal cmd) = Inr s"
    using assms by (cases "encodeMessage Text (tm_mailboxName tc) (TextVal cmd)") (auto simp: sendTC_def)
  let ?sp1 = "(EV3serial tc)\<lparr>written := written (EV3serial tc) @ [s]\<rparr>"
  obtain ack sp2 where w1: "wait_reply ack_polls Logic ?sp1 = Inr (ack, sp2)"
    using assms s by (cases "wait_reply ack_polls Logic ?sp1") (auto simp: sendTC_def)
  have wr2: "written sp2 = written ?sp1" using wait_reply_consumes[OF w1] by auto
  show ?thesis
  proof (cases "ack = Some (LogicVal True) \<and> tmExpected")
    case True
    obtain tm sp3 where w2: "wait_reply (tm_polls secs) Text sp2 = Inr (tm, sp3)"
      and t: "tc' = tc\<lparr>EV3serial := sp3\<rparr>"
      using assms s w1 True by (auto simp: sendTC_def ebind_eq_Inr)
    have "written sp3 = written sp2" using wait_reply_consumes[OF w2] by auto
    then show ?thesis using s wr2 t by simp
  next
    case False
    then have "tc' = tc\<lparr>EV3serial := sp2\<rparr>" using assms s w1 by (auto simp: sendTC_def)
    then show ?thesis using s wr2 by simp
  qed
qed

text \<open>
  C28. The wait loops of \<open>sendTC\<close> (TMTCpi2EV3.py lines 57-71 and 78-88) implement
  \<open>first_reply\<close>: they stop at the first poll that finds bytes, decode exactly those
  bytes, and consume the input up to that poll; with no bytes in \<open>n\<close> polls they return
  nothing after \<open>n\<close> polls.
\<close>

theorem wait_reply_first: "wait_reply n t sp = first_reply n t sp"
proof (induction n arbitrary: sp)
  case 0
  then show ?case by (simp add: first_reply_def)
next
  case (Suc n)
  show ?case
  proof (cases "arrivals sp")
    case Nil
    then show ?thesis using Suc by (simp add: first_reply_def)
  next
    case (Cons b bs)
    then show ?thesis using Suc[of "sp\<lparr>arrivals := bs\<rparr>"]
      by (cases "b = []") (auto simp: first_reply_def Let_def split: sum.splits)
  qed
qed

lemma sendTC_answered:
  assumes "encodeMessage Text (tm_mailboxName tc) (TextVal cmd) = Inr s"
    "encodeMessage Logic m1 (LogicVal True) = Inr a"
    "encodeMessage Text m2 (TextVal r) = Inr tm" "fits Text (TextVal r)"
    "arrivals (EV3serial tc) = replicate k [] @ a # replicate j [] @ tm # rest"
    "k < ack_polls" "j < tm_polls secs"
  shows "sendTC tc cmd True secs =
           Inr ((True, Some (TextVal r)),
                tc\<lparr>EV3serial := (EV3serial tc)\<lparr>written := written (EV3serial tc) @ [s], arrivals := rest\<rparr>\<rparr>)"
proof -
  let ?sp1 = "(EV3serial tc)\<lparr>written := written (EV3serial tc) @ [s]\<rparr>"
  have w1: "wait_reply ack_polls Logic ?sp1 =
      Inr (Some (LogicVal True), ?sp1\<lparr>arrivals := replicate j [] @ tm # rest\<rparr>)"
    by (rule wait_reply_encoded[OF assms(2) _ _ assms(6)]) (simp_all add: fits_def assms(5))
  have w2: "wait_reply (tm_polls secs) Text (?sp1\<lparr>arrivals := replicate j [] @ tm # rest\<rparr>) =
      Inr (Some (TextVal r), ?sp1\<lparr>arrivals := rest\<rparr>)"
    using wait_reply_encoded[OF assms(3,4) _ assms(7), where sp="?sp1\<lparr>arrivals := replicate j [] @ tm # rest\<rparr>"]
    by simp
  show ?thesis using assms(1) w1 w2 by (simp add: sendTC_def)
qed

text \<open>
  C20. Round trip of a telecommand through the link (\<open>sendTC\<close>, lines 44-93, with the
  codec of EV3mailbox.py): when the brick answers within 2 s with the encoded logic
  value \<open>True\<close> and then, within \<open>withinSeconds\<close>, with an encoded text, \<open>sendTC\<close>
  writes exactly the encoded command, reports success and returns that text, and
  consumes the port's input up to the reply.
\<close>

theorem sendTC_roundtrip:
  assumes "encodeMessage Text (tm_mailboxName tc) (TextVal cmd) = Inr s"
    "encodeMessage Logic m1 (LogicVal True) = Inr a"
    "encodeMessage Text m2 (TextVal r) = Inr tm" "fits Text (TextVal r)"
    "arrivals (EV3serial tc) = replicate k [] @ a # replicate j [] @ tm # rest"
    "k < ack_polls" "j < tm_polls secs"
  shows "sendTC tc cmd True secs =
           Inr ((True, Some (TextVal r)),
                tc\<lparr>EV3serial := (EV3serial tc)\<lparr>written := written (EV3serial tc) @ [s], arrivals := rest\<rparr>\<rparr>)"
  using assms by (rule sendTC_answered)

lemma sendTC_ack_only:
  assumes "encodeMessage Text (tm_mailboxName tc) (TextVal cmd) = Inr s"
    "encodeMessage Logic m1 (LogicVal True) = Inr a"
    "arrivals (EV3serial tc) = replicate k [] @ a # rest" "k < ack_polls"
    "\<forall>b\<in>set (take (tm_polls secs) rest). b = []"
  shows "sendTC tc cmd True secs =
           Inr ((False, None),
                tc\<lparr>EV3serial := (EV3serial tc)\<lparr>written := written (EV3serial tc) @ [s],
                                               arrivals := drop (tm_polls secs) rest\<rparr>\<rparr>)"
proof -
  let ?sp1 = "(EV3serial tc)\<lparr>written := written (EV3serial tc) @ [s]\<rparr>"
  have w1: "wait_reply ack_polls Logic ?sp1 = Inr (Some (LogicVal True), ?sp1\<lparr>arrivals := rest\<rparr>)"
    by (rule wait_reply_encoded[OF assms(2) _ _ assms(4)]) (simp_all add: fits_def assms(3))
  have w2: "wait_reply (tm_polls secs) Text (?sp1\<lparr>arrivals := rest\<rparr>) =
      Inr (None, ?sp1\<lparr>arrivals := drop (tm_polls secs) rest\<rparr>)"
    using wait_reply_idle[of "tm_polls secs" "?sp1\<lparr>arrivals := rest\<rparr>" Text] assms(5) by simp
  show ?thesis using assms(1) w1 w2 by (simp add: sendTC_def)
qed

lemma sendTC_ack_noTM:
  assumes "encodeMessage Text (tm_mailboxName tc) (TextVal cmd) = Inr s"
    "encodeMessage Logic m1 (LogicVal True) = Inr a"
    "arrivals (EV3serial tc) = replicate k [] @ a # rest" "k < ack_polls"
  shows "sendTC tc cmd False secs =
           Inr ((True, Some (TextVal [])),
                tc\<lparr>EV3serial := (EV3serial tc)\<lparr>written := written (EV3serial tc) @ [s], arrivals := rest\<rparr>\<rparr>)"
proof -
  let ?sp1 = "(EV3serial tc)\<lparr>written := written (EV3serial tc) @ [s]\<rparr>"
  have w1: "wait_reply ack_polls Logic ?sp1 = Inr (Some (LogicVal True), ?sp1\<lparr>arrivals := rest\<rparr>)"
    by (rule wait_reply_encoded[OF assms(2) _ _ assms(4)]) (simp_all add: fits_def assms(3))
  show ?thesis using assms(1) w1 by (simp add: sendTC_def)
qed

lemma sendTC_silent:
  assumes "encodeMessage Text (tm_mailboxName tc) (TextVal cmd) = Inr s"
    "\<forall>b\<in>set (take ack_polls (arrivals (EV3serial tc))). b = []"
  shows "sendTC tc cmd tmExpected secs =
           Inr ((False, Some (TextVal [])),
                tc\<lparr>EV3serial := (EV3serial tc)\<lparr>written := written (EV3serial tc) @ [s],
                                               arrivals := drop ack_polls (arrivals (EV3serial tc))\<rparr>\<rparr>)"
  using assms wait_reply_idle[of ack_polls "(EV3serial tc)\<lparr>written := written (EV3serial tc) @ [s]\<rparr>" Logic]
  by (simp add: sendTC_def)

text \<open>
  C27. Error path of \<open>sendTC\<close>: when nothing arrives in the 20 polls of the
  acknowledgement wait, the command is still written, the result is failure with the
  empty telemetry, and no telemetry is awaited even if one was expected.
\<close>

theorem sendTC_no_ack:
  assumes "encodeMessage Text (tm_mailboxName tc) (TextVal cmd) = Inr s"
    "\<forall>b\<in>set (take ack_polls (arrivals (EV3serial tc))). b = []"
  shows "sendTC tc cmd tmExpected secs =
           Inr ((False, Some (TextVal [])),
                tc\<lparr>EV3serial := (EV3serial tc)\<lparr>written := written (EV3serial tc) @ [s],
                                               arrivals := drop ack_polls (arrivals (EV3serial tc))\<rparr>\<rparr>)"
  using assms by (rule sendTC_silent)

theorem sendTC_roundtrip_witness:
  "sendTC \<lparr>tm_serialPort = ''/dev/rfcomm0'',
           EV3serial = \<lparr>written = [], arrivals = [[], [0x0c, 0, 1, 0, 0x81, 0x9e, 4, 0x61, 0x62, 0x63, 0, 1, 0, 1],
             [0x0f, 0, 1, 0, 0x81, 0x9e, 4, 0x61, 0x62, 0x63, 0, 4, 0, 0x6f, 0x6b, 0x21, 0], [7]]\<rparr>,
           tm_mailboxName = ''abc''\<rparr> ''Go'' True 12 =
   Inr ((True, Some (TextVal ''ok!'')),
        \<lparr>tm_serialPort = ''/dev/rfcomm0'',
         EV3serial = \<lparr>written = [[0x0e, 0, 1, 0, 0x81, 0x9e, 4, 0x61, 0x62, 0x63, 0, 3, 0, 0x47, 0x6f, 0]],
                      arrivals = [[7]]\<rparr>,
         tm_mailboxName = ''abc''\<rparr>)"
proof -
  have e1: "encodeMessage Text ''abc'' (TextVal ''Go'') = Inr [0x0e, 0, 1, 0, 0x81, 0x9e, 4, 0x61, 0x62, 0x63, 0, 3, 0, 0x47, 0x6f, 0]"
    by (simp add: encodeMessage_def encode_value_def ascii_encode_def u16_le_def mailbox_header_def)
  have e2: "encodeMessage Logic ''abc'' (LogicVal True) = Inr [0x0c, 0, 1, 0, 0x81, 0x9e, 4, 0x61, 0x62, 0x63, 0, 1, 0, 1]"
    by (simp add: encodeMessage_def encode_value_def ascii_encode_def u16_le_def mailbox_header_def)
  have e3: "encodeMessage Text ''abc'' (TextVal ''ok!'') = Inr [0x0f, 0, 1, 0, 0x81, 0x9e, 4, 0x61, 0x62, 0x63, 0, 4, 0, 0x6f, 0x6b, 0x21, 0]"
    by (simp add: encodeMessage_def encode_value_def ascii_encode_def u16_le_def mailbox_header_def)
  have f: "fits Text (TextVal ''ok!'')" by (simp add: fits_def ascii_str_def)
  show ?thesis
    using sendTC_roundtrip[where tc="\<lparr>tm_serialPort = ''/dev/rfcomm0'',
           EV3serial = \<lparr>written = [], arrivals = [[], [0x0c, 0, 1, 0, 0x81, 0x9e, 4, 0x61, 0x62, 0x63, 0, 1, 0, 1],
             [0x0f, 0, 1, 0, 0x81, 0x9e, 4, 0x61, 0x62, 0x63, 0, 4, 0, 0x6f, 0x6b, 0x21, 0], [7]]\<rparr>,
           tm_mailboxName = ''abc''\<rparr>" and k=1 and j=0 and rest="[[7]]" and secs=12, OF _ e2 e3 f]
      e1 by (simp add: ack_polls_def tm_polls_def)
qed

theorem sendTC_no_ack_witness:
  "sendTC \<lparr>tm_serialPort = ''/dev/rfcomm0'', EV3serial = \<lparr>written = [], arrivals = [[], []]\<rparr>,
           tm_mailboxName = ''abc''\<rparr> ''Go'' True 12 =
   Inr ((False, Some (TextVal [])),
        \<lparr>tm_serialPort = ''/dev/rfcomm0'',
         EV3serial = \<lparr>written = [[0x0e, 0, 1, 0, 0x81, 0x9e, 4, 0x61, 0x62, 0x63, 0, 3, 0, 0x47, 0x6f, 0]],
                      arrivals = []\<rparr>,
         tm_mailboxName = ''abc''\<rparr>)"
proof -
  have e1: "encodeMessage Text ''abc'' (TextVal ''Go'') = Inr [0x0e, 0, 1, 0, 0x81, 0x9e, 4, 0x61, 0x62, 0x63, 0, 3, 0, 0x47, 0x6f, 0]"
    by (simp add: encodeMessage_def encode_value_def ascii_encode_def u16_le_def mailbox_header_def)
  show ?thesis
    using sendTC_no_ack[where tc="\<lparr>tm_serialPort = ''/dev/rfcomm0'', EV3serial = \<lparr>written = [], arrivals = [[], []]\<rparr>,
           tm_mailboxName = ''abc''\<rparr>" and cmd="''Go''" and tmExpected=True and secs=12, OF _]
      e1 by (simp add: ack_polls_def)
qed

end
