(* ===== verification/Ev3.thy ===== *)
theory Ev3
  imports Executer Tmtc
begin

text \<open>
  The Lego EV3 robot, \<open>EV3_Executer\<close> of \<open>src/20_Raspberry_Pi_project/ev3_executer.py\<close>,
  a subclass of \<open>ScreenExecuter\<close> that overrides the robot methods to send telecommands
  over \<open>TMTCpi2EV3\<close>; the choice of the executer in \<open>DStarLitePlanner.executePlan\<close>; and
  the view's \<open>btnExec_clicked\<close>, which runs it. The robot's state is the subclass's
  attributes together with the serial device the system offers under \<open>/dev/rfcomm0\<close>
  (none when no robot is paired).
\<close>

record EV3_Executer =
  serialPort :: string
  mailboxName :: string
  detectRealObstacle :: bool
  lastCommand :: string
  ev3 :: "tmtc option"
  rfcomm_device :: "serial_port option"

section \<open>Command tables\<close>

text \<open>The dictionaries of \<open>initCommandDict\<close> (lines 38-47), with Python's \<open>d[k]\<close>.\<close>

definition dict_get :: "('k \<times> 'v) list \<Rightarrow> 'k \<Rightarrow> error + 'v" where
  "dict_get d k = (case map_of d k of None \<Rightarrow> Inl KeyError | Some v \<Rightarrow> Inr v)"

definition northDict :: "(orientation \<times> string) list" where
  "northDict = [(East, ''TurnR90''), (South, ''Turn180''), (West, ''TurnL90''), (North, ''Drive'')]"

definition eastDict :: "(orientation \<times> string) list" where
  "eastDict = [(North, ''TurnL90''), (South, ''TurnR90''), (West, ''Turn180''), (East, ''Drive'')]"

definition southDict :: "(orientation \<times> string) list" where
  "southDict = [(North, ''Turn180''), (East, ''TurnL90''), (West, ''TurnR90''), (South, ''Drive'')]"

definition westDict :: "(orientation \<times> string) list" where
  "westDict = [(North, ''TurnR90''), (East, ''Turn180''), (South, ''TurnL90''), (West, ''Drive'')]"

definition directionDict :: "(orientation \<times> (orientation \<times> string) list) list" where
  "directionDict = [(North, northDict), (East, eastDict), (South, southDict), (West, westDict)]"

text \<open>
  The command for a move from the current orientation (\<open>None\<close> for the initial \<open>""\<close>) to
  a new one: \<open>self.directionDict[self.actualOrientation][orientation]\<close> (line 104).
\<close>

definition ev3_command :: "orientation option \<Rightarrow> orientation \<Rightarrow> error + string" where
  "ev3_command actual ori =
     ebind (case actual of None \<Rightarrow> Inl KeyError | Some a \<Rightarrow> dict_get directionDict a) (\<lambda>d. dict_get d ori)"

section \<open>The robot methods\<close>

text \<open>The constructor (lines 24-33); the port is opened only by \<open>connectRealRobot\<close>.\<close>

definition EV3_init :: "serial_port option \<Rightarrow> EV3_Executer" where
  "EV3_init device = \<lparr>serialPort = ''/dev/rfcomm0'', mailboxName = ''abc'', detectRealObstacle = False,
     lastCommand = [], ev3 = None, rfcomm_device = device\<rparr>"

text \<open>\<open>executionAllowed\<close> (lines 50-55): the EV3 drives only to direct neighbours.\<close>

definition ev3_executionAllowed :: "planner \<Rightarrow> bool" where
  "ev3_executionAllowed p = directNeighbors p"

text \<open>
  \<open>connectRealRobot\<close> (lines 61-77): open the link and send a heartbeat; every exception
  is caught and reported as a missing device.
\<close>

definition ev3_connectRealRobot :: "EV3_Executer \<Rightarrow> (bool \<times> string) \<times> EV3_Executer" where
  "ev3_connectRealRobot r =
     (let noDevice = ''Robot connection error: No device: '' @ serialPort r in
      case tmtc_init (serialPort r) (mailboxName r) (rfcomm_device r) of
        Inl _ \<Rightarrow> ((False, noDevice), r)
      | Inr tc \<Rightarrow>
          (case sendTC tc ''Heartbeat'' False 1 of
             Inl _ \<Rightarrow> ((False, noDevice), r\<lparr>ev3 := Some tc\<rparr>)
           | Inr ((ack, _), tc') \<Rightarrow>
               (if \<not> ack then ((False, ''Heartbeat was not acknowledged. Start program on EV3!''), r\<lparr>ev3 := Some tc'\<rparr>)
                else ((True, ''Heartbeat acknowledged''), r\<lparr>ev3 := Some tc'\<rparr>))))"

text \<open>Send a telecommand over the open link (\<open>self.ev3\<close> is unset before a connection).\<close>

definition ev3_send :: "EV3_Executer \<Rightarrow> string \<Rightarrow> error + (bool \<times> mvalue option) \<times> EV3_Executer" where
  "ev3_send r cmd =
     (case ev3 r of
        None \<Rightarrow> Inl AttributeError
      | Some tc \<Rightarrow> ebind (sendTC tc cmd True 12) (\<lambda>(reply, tc'). Inr (reply, r\<lparr>ev3 := Some tc'\<rparr>)))"

text \<open>
  \<open>reply[len(reply)-1] == '!'\<close> (lines 110 and 124) on the telemetry \<open>sendTC\<close> returns:
  \<open>len(None)\<close> raises \<open>TypeError\<close>, the last character of \<open>""\<close> raises \<open>IndexError\<close>.
\<close>

definition reply_obstacle :: "mvalue option \<Rightarrow> error + bool" where
  "reply_obstacle reply =
     (case reply of
        Some (TextVal s) \<Rightarrow> (if s = [] then Inl IndexError else Inr (last s = CHR ''!''))
      | _ \<Rightarrow> Inl TypeError)"

text \<open>\<open>actionAtEnd\<close> (lines 133-137): stop the robot.\<close>

definition ev3_actionAtEnd :: "EV3_Executer \<Rightarrow> error + bool \<times> EV3_Executer" where
  "ev3_actionAtEnd r =
     ebind (ev3_send r ''Stop'') (\<lambda>((ack, _), r'). Inr (ack, r'\<lparr>lastCommand := ''Stop''\<rparr>))"

text \<open>
  \<open>robotReportsObstacle\<close> (lines 90-96): the obstacle flag of the last telemetry; a
  robot that drives is stopped first.
\<close>

definition ev3_robotReportsObstacle :: "EV3_Executer \<Rightarrow> error + bool \<times> EV3_Executer" where
  "ev3_robotReportsObstacle r =
     (if detectRealObstacle r \<and> lastCommand r = ''Drive''
      then ebind (ev3_actionAtEnd r) (\<lambda>(_, r'). Inr (detectRealObstacle r', r'))
      else Inr (detectRealObstacle r, r))"

text \<open>
  \<open>commandRobot(orientation)\<close> (lines 103-111): look the command up, send it, await the
  telemetry for up to 12 s and read the obstacle flag from its last character.
\<close>

definition ev3_commandRobot :: "EV3_Executer \<Rightarrow> orientation option \<Rightarrow> orientation \<Rightarrow> error + bool \<times> EV3_Executer" where
  "ev3_commandRobot r actual ori =
     ebind (ev3_command actual ori) (\<lambda>command.
       ebind (ev3_send r command) (\<lambda>((ack, reply), r1).
         ebind (reply_obstacle reply) (\<lambda>obst.
           Inr (ack, r1\<lparr>lastCommand := command, detectRealObstacle := obst\<rparr>))))"

text \<open>\<open>obstacleStartCheck\<close> (lines 118-125): ask the robot for the distance ahead.\<close>

definition ev3_obstacleStartCheck :: "EV3_Executer \<Rightarrow> error + bool \<times> EV3_Executer" where
  "ev3_obstacleStartCheck r =
     ebind (ev3_send r ''CheckDistance'') (\<lambda>((ack, reply), r1).
       ebind (reply_obstacle reply) (\<lambda>obst.
         Inr (ack, r1\<lparr>lastCommand := ''CheckDistance'', detectRealObstacle := obst\<rparr>)))"

definition ev3_robot :: "EV3_Executer robot" where
  "ev3_robot = \<lparr>rb_executionAllowed = ev3_executionAllowed, rb_connectRealRobot = ev3_connectRealRobot,
     rb_commandRobot = ev3_commandRobot, rb_robotReportsObstacle = ev3_robotReportsObstacle,
     rb_obstacleStartCheck = ev3_obstacleStartCheck, rb_actionAtEnd = ev3_actionAtEnd\<rparr>"

section \<open>Choosing the executer and the execute button\<close>

text \<open>
  The host: what \<open>platform.system()\<close> returns and the serial device under
  \<open>/dev/rfcomm0\<close>.
\<close>

datatype platform = Windows | Linux | OtherSystem

record host =
  pf_system :: platform
  rfcomm0 :: "serial_port option"

text \<open>
  \<open>DStarLitePlanner.executePlan(execModeStr)\<close> (lines 70-82): a new executer of the
  chosen mode runs on the view, starting with no orientation; \<open>None\<close> is Python's
  \<open>None\<close> for an unknown mode.
\<close>

definition planner_executePlan ::
  "nat \<Rightarrow> string \<Rightarrow> host \<Rightarrow> coord list list \<Rightarrow> view \<Rightarrow> (error + (bool \<times> string) option \<times> view) option" where
  "planner_executePlan fuel execModeStr hst clicks v =
     (if execModeStr = ''Screen Simulation'' then
        map_option (map_sum id (\<lambda>(res, e). (Some res, ex_view e)))
          (executePlan screen_robot fuel \<lparr>ex_view = v, actualOrientation = None, pending = clicks, robot = ()\<rparr>)
      else if execModeStr = ''Lego EV3 Control'' then
        (if pf_system hst = Windows then
           Some (Inr (Some (False, ''Lego EV3 Control is not supported on Windows: Use Raspbian (Raspberry Pi)''), v))
         else if pf_system hst = Linux then
           map_option (map_sum id (\<lambda>(res, e). (Some res, ex_view e)))
             (executePlan ev3_robot fuel
                \<lparr>ex_view = v, actualOrientation = None, pending = clicks, robot = EV3_init (rfcomm0 hst)\<rparr>)
         else Some (Inr (Some (False, ''Not yet implemented''), v)))
      else Some (Inr (None, v)))"

text \<open>
  \<open>btnExec_clicked\<close> (DStarLiteView.py lines 177-196): only with a plan; the click mode
  becomes the obstacle mode, the plan is executed in the mode of the combo box
  \<open>cbExecMode\<close>, and the outcome decides the next application state.
\<close>

definition btnExec_clicked :: "nat \<Rightarrow> string \<Rightarrow> host \<Rightarrow> coord list list \<Rightarrow> view \<Rightarrow> (error + view) option" where
  "btnExec_clicked fuel execMode hst clicks v =
     (if \<not> planReady (vplanner v) then Some (Inr v)
      else
        (let v1 = v\<lparr>appState := inExecution, clickModeVal := 3\<rparr> in
         case planner_executePlan fuel execMode hst clicks v1 of
           None \<Rightarrow> None
         | Some (Inl err) \<Rightarrow> Some (Inl err)
         | Some (Inr (None, _)) \<Rightarrow> Some (Inl TypeError)
         | Some (Inr (Some (ok, _), v2)) \<Rightarrow>
             Some (Inr (v2\<lparr>appState := (if ok then afterExecution else planPresent)\<rparr>))))"

section \<open>What the robot's commands mean\<close>

text \<open>
  The EV3 program turns on the spot by the command's number of quarter turns clockwise
  and keeps its heading for \<open>Drive\<close>; only the four cardinal orientations are headings
  it can have.
\<close>

definition cardinal :: "orientation \<Rightarrow> bool" where
  "cardinal ori \<longleftrightarrow> ori \<in> {North, East, South, West}"

definition cw_index :: "orientation \<Rightarrow> nat" where
  "cw_index ori = (case ori of North \<Rightarrow> 0 | East \<Rightarrow> 1 | South \<Rightarrow> 2 | West \<Rightarrow> 3 | _ \<Rightarrow> 0)"

definition quarter_turns :: "string \<Rightarrow> nat option" where
  "quarter_turns c = map_of [(''Drive'', 0), (''TurnR90'', 1), (''Turn180'', 2), (''TurnL90'', 3)] c"

text \<open>A robot with an open link to a silent port, used by the examples below.\<close>

definition ev3_r0 :: EV3_Executer where
  "ev3_r0 = (EV3_init None)\<lparr>ev3 := Some \<lparr>tm_serialPort = ''/dev/rfcomm0'',
     EV3serial = \<lparr>written = [], arrivals = []\<rparr>, tm_mailboxName = ''abc''\<rparr>\<rparr>"

text \<open>
  A view with a plan from (0, 0) to (1, 0), four neighbours and the robot facing north.
\<close>

definition v_w :: view where
  "v_w = view_init\<lparr>cbRoboOrientation := North,
     vplanner := (vplanner view_init)\<lparr>planReady := True, directNeighbors := True, actualPath := [(0, 0), (1, 0)]\<rparr>\<rparr>"

section \<open>Properties of the EV3 robot\<close>

lemma ev3_send_Some:
  "ev3 r = Some tc \<Longrightarrow> ev3_send r cmd = ebind (sendTC tc cmd True 12) (\<lambda>(reply, tc'). Inr (reply, r\<lparr>ev3 := Some tc'\<rparr>))"
  by (simp add: ev3_send_def)

lemma ev3_robot_simps [simp]:
  "rb_executionAllowed ev3_robot = ev3_executionAllowed"
  "rb_connectRealRobot ev3_robot = ev3_connectRealRobot"
  "rb_commandRobot ev3_robot = ev3_commandRobot"
  "rb_robotReportsObstacle ev3_robot = ev3_robotReportsObstacle"
  "rb_obstacleStartCheck ev3_robot = ev3_obstacleStartCheck"
  "rb_actionAtEnd ev3_robot = ev3_actionAtEnd"
  by (simp_all add: ev3_robot_def)

lemma ev3_executePlan_refused:
  assumes "\<not> directNeighbors (vplanner v) \<or> d = None"
  shows "executePlan ev3_robot fuel \<lparr>ex_view = v, actualOrientation = None, pending = cl, robot = EV3_init d\<rparr> =
           Some (Inr ((False, if \<not> directNeighbors (vplanner v)
                               then ''Plan incompatible with executer. Check direct neighbors setting (Tab: Planning)''
                               else ''Robot connection error: No device: /dev/rfcomm0''),
                      \<lparr>ex_view = v, actualOrientation = None, pending = cl, robot = EV3_init d\<rparr>))"
  using assms
  by (auto simp: executePlan_def planner_of_def ev3_executionAllowed_def ev3_connectRealRobot_def
      tmtc_init_def EV3_init_def)

lemma ev3_command_cardinal:
  assumes "cardinal a" "cardinal b"
  shows "\<exists>c s. ev3_command (Some a) b = Inr c \<and> encodeMessage Text ''abc'' (TextVal c) = Inr s"
  using assms
  by (auto simp: cardinal_def ev3_command_def directionDict_def northDict_def eastDict_def southDict_def
      westDict_def dict_get_def encodeMessage_def encode_value_def ascii_encode_def u16_le_def mailbox_header_def)

text \<open>
  C21. Refinement of the command tables (\<open>initCommandDict\<close>, lines 38-47, looked up in
  \<open>commandRobot\<close>, line 104): for every pair of cardinal orientations the table gives a
  command whose number of clockwise quarter turns takes the current heading to the new
  one.
\<close>

theorem ev3_command_turns:
  assumes "cardinal a" "cardinal b"
  shows "\<exists>c q. ev3_command (Some a) b = Inr c \<and> quarter_turns c = Some q \<and> (cw_index a + q) mod 4 = cw_index b"
  using assms
  by (auto simp: cardinal_def ev3_command_def directionDict_def northDict_def eastDict_def southDict_def
      westDict_def dict_get_def quarter_turns_def cw_index_def)

text \<open>
  C25. Error behaviour of the lookup: it fails only with \<open>KeyError\<close>, and it fails exactly
  when the current orientation is unset or diagonal or the new one is diagonal.
\<close>

theorem ev3_command_KeyError:
  "(\<forall>err. ev3_command actual ori = Inl err \<longrightarrow> err = KeyError) \<and>
   ((\<exists>c. ev3_command actual ori = Inr c) \<longleftrightarrow> (\<exists>a. actual = Some a \<and> cardinal a) \<and> cardinal ori)"
  by (cases actual; cases ori; (cases "the actual")?)
     (auto simp: cardinal_def ev3_command_def directionDict_def northDict_def eastDict_def southDict_def
      westDict_def dict_get_def)

text \<open>
  C22. A lost acknowledgement crashes \<open>commandRobot\<close> (lines 107-110): when the brick does
  not acknowledge within 2 s, \<open>sendTC\<close> returns the telemetry \<open>""\<close> and
  \<open>reply[len(reply)-1]\<close> raises \<open>IndexError\<close>, instead of the failure being returned to
  \<open>executePlan\<close>.
\<close>

theorem ev3_commandRobot_no_ack:
  assumes "ev3 r = Some tc" "ev3_command actual ori = Inr c"
    "encodeMessage Text (tm_mailboxName tc) (TextVal c) = Inr s"
    "\<forall>b\<in>set (take ack_polls (arrivals (EV3serial tc))). b = []"
  shows "ev3_commandRobot r actual ori = Inl IndexError"
  using sendTC_silent[OF assms(3,4), of True 12] assms(1,2)
  by (simp add: ev3_commandRobot_def ev3_send_Some reply_obstacle_def)

text \<open>
  C26. A late telemetry crashes \<open>commandRobot\<close> too: when the command is acknowledged but
  no telemetry arrives within 12 s, \<open>sendTC\<close> returns \<open>None\<close> and \<open>len(None)\<close> raises
  \<open>TypeError\<close>.
\<close>

theorem ev3_commandRobot_late_tm:
  assumes "ev3 r = Some tc" "ev3_command actual ori = Inr c"
    "encodeMessage Text (tm_mailboxName tc) (TextVal c) = Inr s"
    "encodeMessage Logic m (LogicVal True) = Inr a"
    "arrivals (EV3serial tc) = replicate k [] @ a # rest" "k < ack_polls"
    "\<forall>b\<in>set (take (tm_polls 12) rest). b = []"
  shows "ev3_commandRobot r actual ori = Inl TypeError"
  using sendTC_ack_only[OF assms(3-7)] assms(1,2)
  by (simp add: ev3_commandRobot_def ev3_send_Some reply_obstacle_def)

text \<open>
  C23. Safety of \<open>robotReportsObstacle\<close> (lines 90-96): when the last telemetry reported an
  obstacle while the robot was driving, the robot is sent exactly the encoded \<open>Stop\<close>
  command before the obstacle is reported.
\<close>

theorem ev3_reports_stops:
  assumes "detectRealObstacle r" "lastCommand r = ''Drive''" "ev3_robotReportsObstacle r = Inr (b, r')"
  shows "b \<and> lastCommand r' = ''Stop'' \<and>
         (\<exists>tc tc' s. ev3 r = Some tc \<and> ev3 r' = Some tc' \<and>
            encodeMessage Text (tm_mailboxName tc) (TextVal ''Stop'') = Inr s \<and>
            written (EV3serial tc') = written (EV3serial tc) @ [s])"
proof -
  obtain tc where tc: "ev3 r = Some tc"
    using assms by (cases "ev3 r") (auto simp: ev3_robotReportsObstacle_def ev3_actionAtEnd_def ev3_send_def)
  obtain x tc' where st: "sendTC tc ''Stop'' True 12 = Inr (x, tc')"
    and r': "r' = r\<lparr>ev3 := Some tc', lastCommand := ''Stop''\<rparr>" and b: "b = detectRealObstacle r"
    using assms tc by (auto simp: ev3_robotReportsObstacle_def ev3_actionAtEnd_def ev3_send_def ebind_eq_Inr)
  show ?thesis using sendTC_writes[OF st] tc r' b assms(1) by auto
qed

text \<open>
  C24. The EV3 mode without a robot (\<open>btnExec_clicked\<close> with \<open>Lego EV3 Control\<close>, through
  \<open>DStarLitePlanner.executePlan\<close> and \<open>EV3_Executer.executePlan\<close>): on a system other than
  Linux, with a plan that allows diagonal moves, or with no device at \<open>/dev/rfcomm0\<close>,
  the execution is refused before the robot moves, and the view returns to
  \<open>planPresent\<close> with its planner unchanged.
\<close>

theorem btnExec_ev3_without_robot:
  assumes "planReady (vplanner v)"
    "pf_system hst \<noteq> Linux \<or> \<not> directNeighbors (vplanner v) \<or> rfcomm0 hst = None"
  shows "btnExec_clicked fuel ''Lego EV3 Control'' hst clicks v =
           Some (Inr (v\<lparr>appState := planPresent, clickModeVal := 3\<rparr>))"
proof (cases "pf_system hst")
  case Linux
  then have "\<not> directNeighbors (vplanner (v\<lparr>appState := inExecution, clickModeVal := 3\<rparr>)) \<or> rfcomm0 hst = None"
    using assms(2) by simp
  from ev3_executePlan_refused[OF this, of fuel clicks] show ?thesis
    using assms(1) Linux by (simp add: btnExec_clicked_def planner_executePlan_def Let_def)
qed (use assms(1) in \<open>simp_all add: btnExec_clicked_def planner_executePlan_def\<close>)

text \<open>
  C29. A robot that acknowledges the heartbeat and then falls silent makes the execute
  button raise (\<open>btnExec_clicked\<close> in mode \<open>Lego EV3 Control\<close>, through
  \<open>DStarLitePlanner.executePlan\<close>, \<open>ScreenExecuter.executePlan\<close> and
  \<open>putRobotAtInitPos\<close>): when the first move of the plan needs a turn, the turn's
  \<open>commandRobot\<close> raises \<open>IndexError\<close>, and the exception leaves \<open>executePlan\<close> and
  \<open>btnExec_clicked\<close> instead of the result \<open>(False, 'Abort with robot connection
  error')\<close>. Tk then goes on with the view in \<open>inExecution\<close> and the design and planning
  tabs disabled (DStarLiteView.py lines 182-187).
\<close>

theorem btnExec_ev3_silent_raises:
  assumes "planReady (vplanner v)" "directNeighbors (vplanner v)"
    "actualPath (vplanner v) = sa # sb # path"
    "cardinal (cbRoboOrientation v)" "calcOrientation sa sb = Inr ori" "cardinal ori"
    "ori \<noteq> cbRoboOrientation v"
    "pf_system hst = Linux" "rfcomm0 hst = Some sp"
    "encodeMessage Logic m (LogicVal True) = Inr a"
    "arrivals sp = a # later" "\<forall>b\<in>set (take ack_polls later). b = []"
  shows "btnExec_clicked fuel ''Lego EV3 Control'' hst [] v = Some (Inl IndexError)"
proof -
  define tc0 where "tc0 = \<lparr>tm_serialPort = ''/dev/rfcomm0'', EV3serial = sp, tm_mailboxName = ''abc''\<rparr>"
  obtain hb where hb: "encodeMessage Text ''abc'' (TextVal ''Heartbeat'') = Inr hb"
    by (simp add: encodeMessage_def encode_value_def ascii_encode_def u16_le_def mailbox_header_def)
  define tc1 where "tc1 = tc0\<lparr>EV3serial := sp\<lparr>written := written sp @ [hb], arrivals := later\<rparr>\<rparr>"
  have s1: "sendTC tc0 ''Heartbeat'' False 1 = Inr ((True, Some (TextVal [])), tc1)"
    using sendTC_ack_noTM[of tc0 "''Heartbeat''" hb m a 0 later 1] hb assms(10,11)
    by (simp add: tc0_def tc1_def ack_polls_def)
  define r1 where "r1 = (EV3_init (Some sp))\<lparr>ev3 := Some tc1\<rparr>"
  have conn: "ev3_connectRealRobot (EV3_init (Some sp)) = ((True, ''Heartbeat acknowledged''), r1)"
    using s1 by (simp add: ev3_connectRealRobot_def tmtc_init_def EV3_init_def tc0_def r1_def)
  obtain c s where c: "ev3_command (Some (cbRoboOrientation v)) ori = Inr c"
    and cs: "encodeMessage Text ''abc'' (TextVal c) = Inr s"
    using ev3_command_cardinal[OF assms(4,6)] by blast
  have sil: "sendTC tc1 c True 12 = Inr ((False, Some (TextVal [])),
      tc1\<lparr>EV3serial := (EV3serial tc1)\<lparr>written := written (EV3serial tc1) @ [s],
                                     arrivals := drop ack_polls (arrivals (EV3serial tc1))\<rparr>\<rparr>)"
    using sendTC_silent[of tc1 c s, OF _ _, of True 12] cs assms(12) by (simp add: tc1_def tc0_def)
  have cmd: "ev3_commandRobot r1 (Some (cbRoboOrientation v)) ori = Inl IndexError"
    using c sil by (simp add: ev3_commandRobot_def ev3_send_def r1_def reply_obstacle_def)
  have p0: "py_index (actualPath (vplanner v)) 0 = Inr sa" "py_index (actualPath (vplanner v)) 1 = Inr sb"
    using assms(3) by (simp_all add: py_index_def in_range_def)
  show ?thesis
    using assms(1,2,5,7,8,9) conn cmd p0 assms(3)
    by (simp add: btnExec_clicked_def planner_executePlan_def executePlan_def planner_of_def
        set_planner_def ev3_executionAllowed_def putRobotAtInitPos_def moveRobot_def tk_update_def Let_def)
qed

theorem ev3_command_turns_witness:
  "cardinal North \<and> cardinal West \<and>
   (\<exists>c q. ev3_command (Some North) West = Inr c \<and> quarter_turns c = Some q \<and> (cw_index North + q) mod 4 = cw_index West)"
  using ev3_command_turns[of North West] by (simp add: cardinal_def)

theorem ev3_command_KeyError_witness:
  "ev3_command (Some NorthEast) North = Inl KeyError"
  using ev3_command_KeyError[of "Some NorthEast" North]
  by (cases "ev3_command (Some NorthEast) North") (auto simp: cardinal_def)

theorem ev3_commandRobot_no_ack_witness:
  "ev3_commandRobot ev3_r0 (Some North) East = Inl IndexError"
proof -
  have c: "ev3_command (Some North) East = Inr ''TurnR90''"
    by (simp add: ev3_command_def directionDict_def northDict_def dict_get_def)
  obtain s where s: "encodeMessage Text ''abc'' (TextVal ''TurnR90'') = Inr s"
    by (simp add: encodeMessage_def encode_value_def ascii_encode_def u16_le_def mailbox_header_def)
  show ?thesis
    using ev3_commandRobot_no_ack[of ev3_r0 _ "Some North" East "''TurnR90''" s, OF _ c] s
    by (simp add: ev3_r0_def EV3_init_def)
qed

theorem ev3_commandRobot_late_tm_witness:
  "ev3_commandRobot (ev3_r0\<lparr>ev3 := Some \<lparr>tm_serialPort = ''/dev/rfcomm0'',
     EV3serial = \<lparr>written = [], arrivals = [[0x0c, 0, 1, 0, 0x81, 0x9e, 4, 0x61, 0x62, 0x63, 0, 1, 0, 1]]\<rparr>,
     tm_mailboxName = ''abc''\<rparr>\<rparr>) (Some North) North = Inl TypeError"
proof -
  have c: "ev3_command (Some North) North = Inr ''Drive''"
    by (simp add: ev3_command_def directionDict_def northDict_def dict_get_def)
  obtain s where s: "encodeMessage Text ''abc'' (TextVal ''Drive'') = Inr s"
    by (simp add: encodeMessage_def encode_value_def ascii_encode_def u16_le_def mailbox_header_def)
  have a: "encodeMessage Logic ''abc'' (LogicVal True) = Inr [0x0c, 0, 1, 0, 0x81, 0x9e, 4, 0x61, 0x62, 0x63, 0, 1, 0, 1]"
    by (simp add: encodeMessage_def encode_value_def ascii_encode_def u16_le_def mailbox_header_def)
  show ?thesis
    using ev3_commandRobot_late_tm[OF _ c _ a, where k=0 and rest="[]" and s=s] s
    by (simp add: ack_polls_def)
qed

theorem ev3_reports_stops_witness:
  "\<exists>b r'. ev3_robotReportsObstacle (ev3_r0\<lparr>detectRealObstacle := True, lastCommand := ''Drive''\<rparr>) = Inr (b, r') \<and>
     b \<and> lastCommand r' = ''Stop''"
proof -
  obtain s where s: "encodeMessage Text ''abc'' (TextVal ''Stop'') = Inr s"
    by (simp add: encodeMessage_def encode_value_def ascii_encode_def u16_le_def mailbox_header_def)
  obtain b r' where run: "ev3_robotReportsObstacle (ev3_r0\<lparr>detectRealObstacle := True, lastCommand := ''Drive''\<rparr>) = Inr (b, r')"
    using s sendTC_silent[OF _ , of "\<lparr>tm_serialPort = ''/dev/rfcomm0'', EV3serial = \<lparr>written = [], arrivals = []\<rparr>,
        tm_mailboxName = ''abc''\<rparr>" "''Stop''" s True 12]
    by (simp add: ev3_robotReportsObstacle_def ev3_actionAtEnd_def ev3_send_def ev3_r0_def EV3_init_def)
  show ?thesis using ev3_reports_stops[OF _ _ run] run by (simp add: ev3_r0_def) blast
qed

theorem btnExec_ev3_without_robot_witness:
  "planReady (vplanner (view_init\<lparr>vplanner := (vplanner view_init)\<lparr>planReady := True\<rparr>\<rparr>)) \<and>
   btnExec_clicked 10 ''Lego EV3 Control'' \<lparr>pf_system = Linux, rfcomm0 = None\<rparr> []
     (view_init\<lparr>vplanner := (vplanner view_init)\<lparr>planReady := True\<rparr>\<rparr>) =
   Some (Inr (view_init\<lparr>vplanner := (vplanner view_init)\<lparr>planReady := True\<rparr>, appState := planPresent, clickModeVal := 3\<rparr>))"
  using btnExec_ev3_without_robot[of "view_init\<lparr>vplanner := (vplanner view_init)\<lparr>planReady := True\<rparr>\<rparr>"
      "\<lparr>pf_system = Linux, rfcomm0 = None\<rparr>" 10 "[]"] by simp


theorem btnExec_ev3_silent_raises_witness:
  "btnExec_clicked 10 ''Lego EV3 Control''
     \<lparr>pf_system = Linux, rfcomm0 = Some \<lparr>written = [], arrivals = [[0x0c, 0, 1, 0, 0x81, 0x9e, 4, 0x61, 0x62, 0x63, 0, 1, 0, 1]]\<rparr>\<rparr>
     [] v_w = Some (Inl IndexError)"
proof -
  have a: "encodeMessage Logic ''abc'' (LogicVal True) = Inr [0x0c, 0, 1, 0, 0x81, 0x9e, 4, 0x61, 0x62, 0x63, 0, 1, 0, 1]"
    by (simp add: encodeMessage_def encode_value_def ascii_encode_def u16_le_def mailbox_header_def)
  show ?thesis
    using btnExec_ev3_silent_raises[where v=v_w and sa="(0, 0)" and sb="(1, 0)" and path="[]" and ori=East
        and hst="\<lparr>pf_system = Linux, rfcomm0 = Some \<lparr>written = [], arrivals = [[0x0c, 0, 1, 0, 0x81, 0x9e, 4, 0x61, 0x62, 0x63, 0, 1, 0, 1]]\<rparr>\<rparr>"
        and sp="\<lparr>written = [], arrivals = [[0x0c, 0, 1, 0, 0x81, 0x9e, 4, 0x61, 0x62, 0x63, 0, 1, 0, 1]]\<rparr>"
        and later="[]" and fuel=10, OF _ _ _ _ _ _ _ _ _ a]
    by (simp add: v_w_def cardinal_def calcOrientation_def)
qed

end
