(* ===== verification/Planner_Invariant.thy ===== *)
theory Planner_Invariant
  imports Planner
begin

text \<open>
  The well-formedness invariant of the planner state (\<open>planner_inv\<close>): the vertex grid
  is rectangular with each vertex at its own coordinates, the priority queue is a heap of
  distinct keyed grid vertices, and the start, goal and last vertices and the remembered
  path lie on the grid.
  Every operation of \<open>DStarLitePlanner.py\<close> that changes the state keeps it, and the
  search (\<open>updateVertex\<close>, \<open>computeShortestPath\<close>) changes only the vertices' g, rsh and
  keys, the queue and the step counter (\<open>search_frame\<close> and \<open>config\<close>).
\<close>

section \<open>The planner invariant\<close>

text \<open>
  \<open>queue_ok\<close>: the heap is a heap, holds each vertex at most once, and only keyed vertices
  of the grid; \<open>nodes_ok\<close>: the start, goal and last vertex and the vertices of the
  remembered path are cells of the grid.
\<close>

definition queue_ok :: "planner \<Rightarrow> bool" where
  "queue_ok st \<longleftrightarrow> pq_inv (priorityQueue st) \<and> distinct (pq_iter (priorityQueue st)) \<and>
     (\<forall>c\<in>set (pq_iter (priorityQueue st)). cell st c \<and> vk st c \<noteq> None)"

definition nodes_ok :: "planner \<Rightarrow> bool" where
  "nodes_ok st \<longleftrightarrow> (\<forall>c\<in>set_option (startNode st). cell st c) \<and>
     (\<forall>c\<in>set_option (goalNode st). cell st c) \<and> (\<forall>c\<in>set_option (lastNode st). cell st c) \<and>
     (\<forall>c\<in>set (actualPath st). cell st c)"

definition planner_inv :: "planner \<Rightarrow> bool" where
  "planner_inv st \<longleftrightarrow> grid_ok st \<and> queue_ok st \<and> nodes_ok st"

section \<open>What the search may change\<close>

text \<open>
  \<open>search_frame st st'\<close>: the grid dimensions, the obstacle list, the user's coordinates and
  settings, and the goal and obstacle flags of every cell are the same in both states.
\<close>

definition search_frame :: "planner \<Rightarrow> planner \<Rightarrow> bool" where
  "search_frame st st' \<longleftrightarrow>
     width st' = width st \<and> height st' = height st \<and> obstacles st' = obstacles st \<and>
     startCoordinates st' = startCoordinates st \<and> goalCoordinates st' = goalCoordinates st \<and>
     viewDirectNeighbors st' = viewDirectNeighbors st \<and> directNeighbors st' = directNeighbors st \<and>
     hIsZero st' = hIsZero st \<and>
     (\<forall>c. cell st c \<longrightarrow> isGoal (node st' c) = isGoal (node st c) \<and> isObstacle (node st' c) = isObstacle (node st c))"

section \<open>Basic facts\<close>

lemma nodes_ok_config: "config st' = config st \<Longrightarrow> nodes_ok st' = nodes_ok st"
  by (simp add: nodes_ok_def config_def cell_def)

lemma config_cell: "config st' = config st \<Longrightarrow> cell st' c = cell st c"
  by (simp add: config_def cell_def)


lemma search_frame_config:
  "config st' = config st \<Longrightarrow>
   (\<forall>d. cell st d \<longrightarrow> isGoal (node st' d) = isGoal (node st d) \<and> isObstacle (node st' d) = isObstacle (node st d)) \<Longrightarrow>
   search_frame st st'"
  by (simp add: search_frame_def config_def)

lemma search_frame_refl [simp]: "search_frame st st"
  by (simp add: search_frame_def)

lemma search_frame_trans:
  "search_frame st1 st2 \<Longrightarrow> search_frame st2 st3 \<Longrightarrow> search_frame st1 st3"
  by (simp add: search_frame_def cell_def)

lemma search_frame_cell: "search_frame st st' \<Longrightarrow> cell st' c = cell st c"
  by (simp add: search_frame_def cell_def)

lemma search_frame_upd [simp]:
  "search_frame st (st\<lparr>priorityQueue := q\<rparr>)" "search_frame st (st\<lparr>planSteps := n\<rparr>)"
  "search_frame st (st\<lparr>km := k\<rparr>)" "search_frame st (st\<lparr>lastNode := l\<rparr>)"
  "search_frame st (st\<lparr>planReady := b\<rparr>)" "search_frame st (st\<lparr>actualPath := p\<rparr>)"
  "search_frame st (st\<lparr>startNode := s\<rparr>)" "search_frame st (st\<lparr>goalNode := g\<rparr>)"
  "search_frame st (queue_insert st c kk)"
  by (simp_all add: search_frame_def node_def queue_insert_def cell_def)

lemma search_frame_set_node:
  assumes "grid_ok st" "cell st c" "isGoal v = isGoal (node st c)" "isObstacle v = isObstacle (node st c)"
  shows "search_frame st (set_node st c v)"
  using assms node_set_node[OF assms(1,2)] by (simp add: search_frame_def set_node_def cell_def)

lemma pq_iter_abs:
  "distinct (pq_iter q) \<longleftrightarrow> (\<forall>c. count (image_mset snd (pq_abs q)) c \<le> 1)"
  "set (pq_iter q) = snd ` set_mset (pq_abs q)"
  by (simp_all add: pq_iter_def pq_abs_def distinct_snd_count)

lemma vk_set_node:
  "grid_ok st \<Longrightarrow> cell st c \<Longrightarrow> cell st d \<Longrightarrow> vk (set_node st c v) d = (if d = c then vkey v else vk st d)"
  by (simp add: vk_def node_set_node)

text \<open>Writing a vertex back at its own cell keeps the invariant if a queued vertex stays keyed.\<close>

lemma planner_inv_set_node:
  assumes "planner_inv st" "cell st c" "vx v = fst c" "vy v = snd c"
    "pq_member (priorityQueue st) c \<Longrightarrow> vkey v \<noteq> None"
  shows "planner_inv (set_node st c v)"
proof -
  have g: "grid_ok st" using assms(1) by (simp add: planner_inv_def)
  have "grid_ok (set_node st c v)" using grid_ok_set_node[OF g assms(2-4)] .
  moreover have "\<forall>d\<in>set (pq_iter (priorityQueue st)). vk (set_node st c v) d \<noteq> None"
    using assms(1,5) vk_set_node[OF g assms(2)] by (auto simp: planner_inv_def queue_ok_def pq_member_def)
  ultimately show ?thesis
    using assms(1) by (simp add: planner_inv_def queue_ok_def nodes_ok_def cell_def set_node_def)
qed

section \<open>Each operation keeps the invariant\<close>

lemma calc_key_inv:
  assumes "planner_inv st" "cell st c" "calc_key st c = Inr (kk, st')"
  shows "planner_inv st' \<and> search_frame st st' \<and> priorityQueue st' = priorityQueue st \<and>
         config st' = config st \<and> vk st' c = Some kk \<and>
         (\<forall>d. cell st d \<longrightarrow> d \<noteq> c \<longrightarrow> node st' d = node st d) \<and>
         node st' c = (node st c)\<lparr>vkey := Some kk\<rparr>"
proof -
  have g: "grid_ok st" using assms(1) by (simp add: planner_inv_def)
  have st': "st' = set_node st c ((node st c)\<lparr>vkey := Some kk\<rparr>)"
    using assms(3) by (simp add: calc_key_Inr)
  have co: "vx (node st c) = fst c \<and> vy (node st c) = snd c" by (rule node_coords[OF g assms(2)])
  have "planner_inv st'" unfolding st' using assms(1,2) co by (intro planner_inv_set_node) auto
  moreover have "search_frame st st'" unfolding st' using g assms(2) by (intro search_frame_set_node) auto
  ultimately show ?thesis
    using node_set_node[OF g assms(2)] assms(2) by (simp add: st' vk_def)
qed

lemma requeue_inv:
  assumes inv: "planner_inv st" and u: "cell st u" and run: "requeue st u = Inr st'"
  shows "planner_inv st' \<and> search_frame st st'"
proof -
  have g: "grid_ok st" and q: "queue_ok st" and n: "nodes_ok st"
    using inv by (simp_all add: planner_inv_def)
  note r = requeue_Inr[OF g u run]
  have cfg: "config st' = config st" and same: "\<forall>d. cell st d \<longrightarrow> d \<noteq> u \<longrightarrow> node st' d = node st d"
    and nu: "node st' u = (node st u)\<lparr>vkey := vkey (node st' u)\<rparr>" using r by blast+
  have cells: "cell st' d = cell st d" for d using cfg by (simp add: cell_def config_def)
  define N where "N = (if gval (node st u) \<noteq> rsh (node st u) then {#(the (vkey (node st' u)), u)#} else {#})"
  have abs: "pq_abs (priorityQueue st') = filter_mset (\<lambda>e. snd e \<noteq> u) (pq_abs (priorityQueue st)) + N"
    using r by (simp add: N_def)
  have keyed: "gval (node st u) \<noteq> rsh (node st u) \<Longrightarrow> vkey (node st' u) \<noteq> None"
    using r by (auto simp: calculateKey_Inr)
  have "pq_inv (priorityQueue st')" using r q by (simp add: queue_ok_def)
  moreover have "distinct (pq_iter (priorityQueue st'))"
  proof -
    have Nc: "N = {#} \<or> N = {#(the (vkey (node st' u)), u)#}" by (simp add: N_def)
    have "\<forall>c. count (image_mset snd (pq_abs (priorityQueue st))) c \<le> 1"
      using q by (simp add: queue_ok_def pq_iter_abs)
    from count_filter_add[OF this Nc] show ?thesis unfolding pq_iter_abs(1) abs .
  qed
  moreover have "\<forall>c\<in>set (pq_iter (priorityQueue st')). cell st' c \<and> vk st' c \<noteq> None"
  proof
    fix c assume "c \<in> set (pq_iter (priorityQueue st'))"
    then have "(c = u \<and> gval (node st u) \<noteq> rsh (node st u)) \<or> (c \<noteq> u \<and> c \<in> set (pq_iter (priorityQueue st)))"
      by (auto simp: pq_iter_abs abs N_def split: if_splits)
    then show "cell st' c \<and> vk st' c \<noteq> None"
    proof (elim disjE conjE)
      assume "c = u" "gval (node st u) \<noteq> rsh (node st u)"
      then show ?thesis using u keyed by (simp add: cells vk_def)
    next
      assume c: "c \<noteq> u" "c \<in> set (pq_iter (priorityQueue st))"
      then have "cell st c" "vk st c \<noteq> None" using q by (simp_all add: queue_ok_def)
      moreover have "node st' c = node st c" using same c(1) \<open>cell st c\<close> by blast
      ultimately show ?thesis by (simp add: cells vk_def)
    qed
  qed
  ultimately have "queue_ok st'" by (simp add: queue_ok_def)
  moreover have "search_frame st st'"
    using same nu by (intro search_frame_config[OF cfg]) (metis vertex.select_convs vertex.surjective vertex.update_convs)
  ultimately show ?thesis using r n nodes_ok_config[OF cfg] by (simp add: planner_inv_def)
qed

lemma updateVertex_inv:
  assumes inv: "planner_inv st" and u: "cell st u" and run: "updateVertex st u = Inr st'"
  shows "planner_inv st' \<and> search_frame st st' \<and> config st' = config st"
proof -
  have g: "grid_ok st" using inv by (simp add: planner_inv_def)
  obtain st1 where st1: "requeue st1 u = Inr st'" "grid_ok st1" "config st1 = config st"
    "priorityQueue st1 = priorityQueue st"
    "\<forall>d. cell st d \<longrightarrow> d \<noteq> u \<longrightarrow> node st1 d = node st d"
    "node st1 u = (if goalNode st \<noteq> Some u then (node st u)\<lparr>rsh := Min (nbr_values st u)\<rparr> else node st u)"
    using updateVertex_first[OF g u run] by blast
  have cells: "cell st1 d = cell st d" for d using st1(3) by (simp add: cell_def config_def)
  have nd: "vkey (node st1 d) = vkey (node st d) \<and> isGoal (node st1 d) = isGoal (node st d) \<and>
      isObstacle (node st1 d) = isObstacle (node st d)" if "cell st d" for d
  proof (cases "d = u")
    case True
    then show ?thesis using st1(6) by simp
  next
    case False
    then have "node st1 d = node st d" using st1(5) that by blast
    then show ?thesis by simp
  qed
  have "queue_ok st1"
    using inv nd st1(4) by (auto simp: planner_inv_def queue_ok_def cells vk_def)
  then have i1: "planner_inv st1"
    using inv st1(2) nodes_ok_config[OF st1(3)] by (simp add: planner_inv_def)
  have f1: "search_frame st st1" using nd by (intro search_frame_config[OF st1(3)]) simp
  have "planner_inv st' \<and> search_frame st1 st'"
    using requeue_inv[OF i1 _ st1(1)] u by (simp add: cells)
  moreover have "config st' = config st1"
    using requeue_Inr[OF st1(2) _ st1(1)] u by (simp add: cells)
  ultimately show ?thesis using f1 st1(3) search_frame_trans by simp
qed

lemma efold_updateVertex_inv:
  assumes "planner_inv st" "\<forall>c\<in>set cs. cell st c" "efold updateVertex st cs = Inr st'"
  shows "planner_inv st' \<and> search_frame st st' \<and> config st' = config st"
proof (rule efold_invariant[where P = "\<lambda>s. planner_inv s \<and> search_frame st s \<and> config s = config st", OF _ _ assms(3)])
  fix s x s'
  assume "planner_inv s \<and> search_frame st s \<and> config s = config st" "x \<in> set cs" "updateVertex s x = Inr s'"
  moreover have "cell s x" using calculation(1,2) assms(2) search_frame_cell by blast
  ultimately show "planner_inv s' \<and> search_frame st s' \<and> config s' = config st"
    using updateVertex_inv[of s x s'] search_frame_trans by auto
qed (simp add: assms(1))

lemma nbrs_cells:
  "planner_inv st \<Longrightarrow> cell st u \<Longrightarrow> \<forall>c\<in>set (nbrs st u). cell st c"
  using nbrs_cell by (auto simp: planner_inv_def)

lemma planner_inv_upd [simp]:
  "planner_inv (st\<lparr>planSteps := n\<rparr>) = planner_inv st"
  "planner_inv (st\<lparr>km := k\<rparr>) = planner_inv st"
  "planner_inv (st\<lparr>planReady := b\<rparr>) = planner_inv st"
  by (simp_all add: planner_inv_def queue_ok_def nodes_ok_def grid_ok_def cell_def vk_def node_def)

lemma planner_inv_path:
  "planner_inv (st\<lparr>actualPath := p\<rparr>) \<longleftrightarrow>
   grid_ok st \<and> queue_ok st \<and> nodes_ok (st\<lparr>actualPath := []\<rparr>) \<and> (\<forall>c\<in>set p. cell st c)"
  "planner_inv st \<Longrightarrow> planner_inv (st\<lparr>actualPath := []\<rparr>)"
  by (simp_all add: planner_inv_def queue_ok_def nodes_ok_def grid_ok_def cell_def vk_def node_def)

lemma queue_insert_inv:
  assumes "planner_inv st" "cell st u" "\<not> pq_member (priorityQueue st) u" "vk st u \<noteq> None"
  shows "planner_inv (queue_insert st u kk)"
proof -
  have q: "queue_ok st" using assms(1) by (simp add: planner_inv_def)
  let ?M = "pq_abs (priorityQueue st)"
  have u0: "count (image_mset snd ?M) u = 0"
    using assms(3) by (auto simp: pq_member_abs count_eq_zero_iff image_iff)
  have cnt: "\<forall>c. count (image_mset snd ?M) c \<le> 1" using q by (simp add: queue_ok_def pq_iter_abs)
  have "count (image_mset snd (add_mset (kk, u) ?M)) c \<le> 1" for c
    using cnt[rule_format, of c] u0 by (cases "c = u") auto
  then have "distinct (pq_iter (priorityQueue (queue_insert st u kk)))"
    by (simp add: pq_iter_abs queue_insert_def)
  moreover have "set (pq_iter (priorityQueue (queue_insert st u kk))) = insert u (set (pq_iter (priorityQueue st)))"
    by (auto simp: pq_iter_abs queue_insert_def)
  moreover have "pq_inv (priorityQueue (queue_insert st u kk))"
    using q by (simp add: queue_insert_def queue_ok_def pq_inv_insert)
  ultimately have "queue_ok (queue_insert st u kk)"
    using q assms(2,4) by (auto simp: queue_ok_def queue_insert_def cell_def vk_def node_def)
  then show ?thesis using assms(1)
    by (simp add: planner_inv_def grid_ok_def nodes_ok_def queue_insert_def cell_def)
qed

lemma pop_inv:
  assumes inv: "planner_inv st" and pop: "pq_pop (vk st) (priorityQueue st) = Inr (u, q)"
  shows "planner_inv (st\<lparr>priorityQueue := q\<rparr>) \<and> cell st u \<and> \<not> pq_member q u"
proof -
  have q0: "queue_ok st" using inv by (simp add: planner_inv_def)
  obtain kk where ab: "pq_abs (priorityQueue st) = add_mset (kk, u) (pq_abs q)" and hq: "pq_inv q"
    using pq_pop_Inr[OF pop] q0 by (auto simp: queue_ok_def)
  have cnt: "\<forall>c. count (image_mset snd (pq_abs (priorityQueue st))) c \<le> 1"
    using q0 by (simp add: queue_ok_def pq_iter_abs)
  have cq: "count (image_mset snd (pq_abs q)) c \<le> count (image_mset snd (pq_abs (priorityQueue st))) c" for c
    by (simp add: ab)
  have "count (image_mset snd (pq_abs q)) u = 0"
    using cnt[rule_format, of u] by (simp add: ab)
  then have nm: "\<not> pq_member q u" by (auto simp: pq_member_abs count_eq_zero_iff image_iff)
  have dq: "distinct (pq_iter q)"
    unfolding pq_iter_abs(1) using cq cnt le_trans by blast
  have sub: "set (pq_iter q) \<subseteq> set (pq_iter (priorityQueue st))" by (auto simp: pq_iter_abs ab)
  have "u \<in> set (pq_iter (priorityQueue st))" by (auto simp: pq_iter_abs ab)
  then have "cell st u" using q0 by (simp add: queue_ok_def)
  moreover have "queue_ok (st\<lparr>priorityQueue := q\<rparr>)"
    using q0 hq dq sub by (auto simp: queue_ok_def cell_def)
  ultimately show ?thesis using inv nm by (simp add: planner_inv_def grid_ok_def nodes_ok_def cell_def)
qed

lemma csp_step_Inr:
  "csp_step st = Inr st' \<longleftrightarrow>
   (\<exists>u q kk st2 st4. pq_pop (vk st) (priorityQueue st) = Inr (u, q) \<and>
     calc_key (st\<lparr>priorityQueue := q\<rparr>) u = Inr (kk, st2) \<and>
     csp_expand st2 u (top_key (vk st) (priorityQueue st)) kk = Inr st4 \<and>
     st' = st4\<lparr>planSteps := Suc (planSteps st4)\<rparr>)"
  by (simp add: csp_step_def Let_def ebind_eq_Inr split_beta) blast
lemma csp_step_inv:
  assumes inv: "planner_inv st" and run: "csp_step st = Inr st'"
  shows "planner_inv st' \<and> search_frame st st' \<and> config st' = config st"
proof -
  have "\<exists>u q kk st2 st4. pq_pop (vk st) (priorityQueue st) = Inr (u, q) \<and>
     calc_key (st\<lparr>priorityQueue := q\<rparr>) u = Inr (kk, st2) \<and>
     csp_expand st2 u (top_key (vk st) (priorityQueue st)) kk = Inr st4 \<and>
     st' = st4\<lparr>planSteps := Suc (planSteps st4)\<rparr>"
    using run by (simp only: csp_step_Inr)
  then obtain u q kk st2 st4 where pop: "pq_pop (vk st) (priorityQueue st) = Inr (u, q)"
    and ck: "calc_key (st\<lparr>priorityQueue := q\<rparr>) u = Inr (kk, st2)"
    and br: "csp_expand st2 u (top_key (vk st) (priorityQueue st)) kk = Inr st4"
    and st': "st' = st4\<lparr>planSteps := Suc (planSteps st4)\<rparr>"
    by blast
  define st1 where "st1 = st\<lparr>priorityQueue := q\<rparr>"
  have p1: "planner_inv st1" "cell st u" "\<not> pq_member q u"
    using pop_inv[OF inv pop] by (simp_all add: st1_def)
  have c1: "cell st1 u" using p1(2) by (simp add: st1_def cell_def)
  have f1: "search_frame st st1" by (simp add: st1_def)
  note k2 = calc_key_inv[OF p1(1) c1 ck[folded st1_def]]
  have i2: "planner_inv st2" and f2: "search_frame st1 st2" and q2: "priorityQueue st2 = q"
    and vk2: "vk st2 u = Some kk" using k2 by (simp_all add: st1_def)
  have c2: "cell st2 u" using c1 f2 search_frame_cell by blast
  have g2: "grid_ok st2" using i2 by (simp add: planner_inv_def)
  have co: "vx (node st2 u) = fst u \<and> vy (node st2 u) = snd u" by (rule node_coords[OF g2 c2])
  have set_ok: "planner_inv (set_node st2 u v) \<and> search_frame st2 (set_node st2 u v) \<and>
      config (set_node st2 u v) = config st2"
    if "v = (node st2 u)\<lparr>gval := x\<rparr>" for v x
  proof -
    have "planner_inv (set_node st2 u v)"
      using i2 c2 co vk2 that by (intro planner_inv_set_node) (auto simp: vk_def)
    moreover have "search_frame st2 (set_node st2 u v)"
      using g2 c2 that by (intro search_frame_set_node) auto
    ultimately show ?thesis by simp
  qed
  have efold_ok: "planner_inv st4 \<and> search_frame st2 st4 \<and> config st4 = config st2"
    if "v = (node st2 u)\<lparr>gval := x\<rparr>" "efold updateVertex (set_node st2 u v) cs = Inr st4"
      "\<forall>c\<in>set cs. cell (set_node st2 u v) c" for v x cs
    using set_ok[OF that(1)] efold_updateVertex_inv[OF _ that(3,2)] search_frame_trans by auto
  have "planner_inv st4 \<and> search_frame st2 st4 \<and> config st4 = config st2"
  proof (cases "top_key (vk st) (priorityQueue st) < kk")
    case True
    then have "st4 = queue_insert st2 u kk" using br by (simp add: csp_expand_def)
    then show ?thesis using queue_insert_inv[OF i2 c2] p1(3) q2 vk2 by simp
  next
    case False
    show ?thesis
    proof (cases "gval (node st2 u) > rsh (node st2 u)")
      case True
      let ?v = "(node st2 u)\<lparr>gval := rsh (node st2 u)\<rparr>"
      have cu: "cell (set_node st2 u ?v) u" using c2 by (simp add: cell_def)
      have "\<forall>c\<in>set (nbrs (set_node st2 u ?v) u). cell (set_node st2 u ?v) c"
        using set_ok[of ?v] nbrs_cells cu by blast
      then show ?thesis using efold_ok[of ?v] br False True by (simp add: csp_expand_def Let_def)
    next
      case False2: False
      let ?v = "(node st2 u)\<lparr>gval := PInf\<rparr>"
      have cu: "cell (set_node st2 u ?v) u" using c2 by (simp add: cell_def)
      have "\<forall>c\<in>set (nbrs (set_node st2 u ?v) u). cell (set_node st2 u ?v) c"
        using set_ok[of ?v] nbrs_cells cu by blast
      then have "\<forall>c\<in>set (nbrs (set_node st2 u ?v) u @ [u]). cell (set_node st2 u ?v) c"
        using cu by simp
      then show ?thesis using efold_ok[of ?v] br False False2 by (simp add: csp_expand_def Let_def)
    qed
  qed
  moreover have "config st2 = config st" using k2 by (simp add: st1_def)
  ultimately show ?thesis using st' f1 f2 search_frame_trans by auto
qed

lemma csp_cond_inv:
  assumes "planner_inv st" "csp_cond st = Inr (b, st1)"
  shows "planner_inv st1 \<and> search_frame st st1 \<and> config st1 = config st"
proof -
  obtain s where s: "startNode st = Some s" using assms(2) by (cases "startNode st") (auto simp: csp_cond_def)
  then have cs: "cell st s" using assms(1) by (simp add: planner_inv_def nodes_ok_def)
  obtain sk where "calc_key st s = Inr (sk, st1)"
    using assms(2) s by (auto simp: csp_cond_def Let_def ebind_eq_Inr split: prod.splits)
  from calc_key_inv[OF assms(1) cs this] show ?thesis by blast
qed

lemma csp_loop_inv:
  "planner_inv st \<Longrightarrow> csp_loop n st = Some (Inr st') \<Longrightarrow>
   planner_inv st' \<and> search_frame st st' \<and> config st' = config st"
proof (induction n st rule: csp_loop.induct)
  case (1 st)
  then show ?case by simp
next
  case (2 n st)
  obtain b st1 where c: "csp_cond st = Inr (b, st1)"
    using "2.prems"(2) by (cases "csp_cond st") (auto split: prod.splits)
  note i1 = csp_cond_inv[OF "2.prems"(1) c]
  show ?case
  proof (cases b)
    case False
    then show ?thesis using "2.prems"(2) c i1 by simp
  next
    case True
    obtain st2 where s: "csp_step st1 = Inr st2" and r: "csp_loop n st2 = Some (Inr st')"
      using "2.prems"(2) c True by (cases "csp_step st1") auto
    note i2 = csp_step_inv[OF conjunct1[OF i1] s]
    have "planner_inv st' \<and> search_frame st2 st' \<and> config st' = config st2"
      using "2.IH" c True s i2 r by blast
    then show ?thesis using i1 i2 search_frame_trans by auto
  qed
qed

lemma computeShortestPath_inv:
  "planner_inv st \<Longrightarrow> computeShortestPath fuel st = Some (Inr st') \<Longrightarrow>
   planner_inv st' \<and> search_frame st st' \<and> config st' = config st"
  using csp_loop_inv[of "st\<lparr>planSteps := 0\<rparr>"] search_frame_trans[of st "st\<lparr>planSteps := 0\<rparr>"]
  by (simp add: computeShortestPath_def)


lemmas planner_inv_unfold = planner_inv_def queue_ok_def nodes_ok_def grid_ok_def cell_def vk_def node_def

lemma lookup_coords_cell:
  "planner_inv st \<Longrightarrow> lookup_coords st c = Inr v \<Longrightarrow> cell st (vx v, vy v)"
  using grid_lookup_cell by (cases c) (auto simp: lookup_coords_def planner_inv_def grid_ok_def cell_def)

lemma initializePlanning_inv:
  assumes "planner_inv st" "pq_abs (priorityQueue st) = {#}" "initializePlanning st = Inr st'"
  shows "planner_inv st' \<and> search_frame st st'"
proof -
  obtain gv kk st2 where gv: "lookup_coords st (goalCoordinates st) = Inr gv"
    and ck: "calc_key (st\<lparr>goalNode := Some (vx gv, vy gv), km := Fl 0\<rparr>) (vx gv, vy gv) = Inr (kk, st2)"
    and st': "st' = queue_insert st2 (vx gv, vy gv) kk"
    using assms(3) by (auto simp: initializePlanning_def Let_def ebind_eq_Inr split: prod.splits if_splits)
  define g where "g = (vx gv, vy gv)"
  have cg: "cell st g" using lookup_coords_cell[OF assms(1) gv] by (simp add: g_def)
  define st1 where "st1 = st\<lparr>goalNode := Some g, km := Fl 0\<rparr>"
  have i1: "planner_inv st1" using assms(1) cg by (simp add: st1_def planner_inv_unfold)
  have c1: "cell st1 g" using cg by (simp add: st1_def cell_def)
  note k2 = calc_key_inv[OF i1 c1 ck[folded g_def, folded st1_def]]
  have i2: "planner_inv st2" "search_frame st1 st2" "priorityQueue st2 = priorityQueue st1" "vk st2 g = Some kk"
    using k2 by simp_all
  have c2: "cell st2 g" using c1 i2(2) search_frame_cell by blast
  have nm: "\<not> pq_member (priorityQueue st2) g" using i2(3) assms(2) by (simp add: st1_def pq_member_abs)
  have "planner_inv (queue_insert st2 g kk)" by (rule queue_insert_inv[OF i2(1) c2 nm]) (simp add: i2(4))
  then have "planner_inv st'" by (simp add: st' g_def)
  moreover have "search_frame st st1" by (simp add: st1_def search_frame_def node_def cell_def)
  then have "search_frame st st'"
    using i2(2) search_frame_trans[OF _ search_frame_upd(9)] search_frame_trans by (metis st' g_def)
  ultimately show ?thesis ..
qed
section \<open>Planning and replanning\<close>

lemma search_frame_path [simp]:
  "search_frame st (st\<lparr>actualPath := p, planReady := b\<rparr>)"
  "search_frame st (st\<lparr>planReady := b, actualPath := p\<rparr>)"
  by (simp_all add: search_frame_def node_def cell_def)

lemma foldl_pick_in:
  "foldl (\<lambda>c n. if P c n then n else c) c0 xs \<in> set (c0 # xs)"
proof (induction xs arbitrary: c0)
  case Nil
  then show ?case by simp
next
  case (Cons x xs)
  then show ?case by (cases "P c0 x") force+
qed

lemma calcCheapestNeighbor_in: "calcCheapestNeighbor st a = Inr n \<Longrightarrow> n \<in> set (nbrs st a)"
  using foldl_pick_in by (fastforce simp: calcCheapestNeighbor_def split: list.splits)

lemma planner_inv_append:
  "planner_inv st \<Longrightarrow> cell st n \<Longrightarrow> planner_inv (st\<lparr>actualPath := actualPath st @ [n]\<rparr>)"
  by (simp add: planner_inv_unfold)

lemma planner_inv_nodes:
  "planner_inv st \<Longrightarrow> startNode st = Some c \<Longrightarrow> cell st c"
  "planner_inv st \<Longrightarrow> goalNode st = Some c \<Longrightarrow> cell st c"
  "planner_inv st \<Longrightarrow> lastNode st = Some c \<Longrightarrow> cell st c"
  "planner_inv st \<Longrightarrow> c \<in> set (actualPath st) \<Longrightarrow> cell st c"
  by (simp_all add: planner_inv_def nodes_ok_def)

lemma path_loop_inv:
  "planner_inv st \<Longrightarrow> cell st n \<Longrightarrow> path_loop fuel st n = Some (Inr st') \<Longrightarrow>
   planner_inv st' \<and> search_frame st st'"
proof (induction fuel st n rule: path_loop.induct)
  case (1 st n)
  then show ?case by simp
next
  case (2 fuel st n)
  show ?case
  proof (cases "goalNode st \<noteq> Some n \<and> planReady st")
    case True
    define st1 where "st1 = st\<lparr>actualPath := actualPath st @ [n]\<rparr>"
    obtain n' where c: "calcCheapestNeighbor st1 n = Inr n'"
      and r: "path_loop fuel (st1\<lparr>planReady := gval (node st1 n') \<noteq> PInf\<rparr>) n' = Some (Inr st')"
      using "2.prems"(3) True by (cases "calcCheapestNeighbor st1 n") (auto simp: st1_def Let_def)
    have i1: "planner_inv st1" using planner_inv_append[OF "2.prems"(1,2)] by (simp add: st1_def)
    have g1: "grid_ok st1" using i1 by (simp add: planner_inv_def)
    have "cell st1 n" using "2.prems"(2) by (simp add: st1_def cell_def)
    then have "cell st1 n'" using nbrs_cell[OF g1 _ calcCheapestNeighbor_in[OF c]] by blast
    then have "planner_inv st' \<and> search_frame (st1\<lparr>planReady := gval (node st1 n') \<noteq> PInf\<rparr>) st'"
      using "2.IH"[OF True st1_def c] r i1 by (simp add: cell_def)
    moreover have "search_frame st (st1\<lparr>planReady := gval (node st1 n') \<noteq> PInf\<rparr>)"
      by (simp add: st1_def)
    ultimately show ?thesis using search_frame_trans by blast
  next
    case False
    then show ?thesis
      using "2.prems" planner_inv_append planner_inv_nodes(2) by (auto split: option.splits if_splits)
  qed
qed

lemma showAndRemberPath_inv:
  assumes "planner_inv st" "showAndRemberPath fuel st = Some (Inr st')"
  shows "planner_inv st' \<and> search_frame st st'"
proof (cases "lastNode st")
  case None
  then show ?thesis using assms planner_inv_path(2) by (auto simp: showAndRemberPath_def split: if_splits)
next
  case (Some n)
  have i: "planner_inv (st\<lparr>actualPath := []\<rparr>)" using planner_inv_path(2)[OF assms(1)] .
  have "cell (st\<lparr>actualPath := []\<rparr>) n" using planner_inv_nodes(3)[OF assms(1) Some] by (simp add: cell_def)
  then show ?thesis
    using path_loop_inv[OF i] assms(2) Some search_frame_trans[of st "st\<lparr>actualPath := []\<rparr>"]
    by (auto simp: showAndRemberPath_def)
qed

lemma mainPlanning_keeps_inv:
  assumes "planner_inv st" "pq_abs (priorityQueue st) = {#}" "mainPlanning fuel st = Some (Inr st')"
  shows "planner_inv st' \<and> search_frame st st'"
proof -
  obtain sv st2 st3 where sv: "lookup_coords st (startCoordinates st) = Inr sv"
    and i: "initializePlanning (st\<lparr>planReady := False, startNode := Some (vx sv, vy sv), lastNode := Some (vx sv, vy sv)\<rparr>) = Inr st2"
    and c: "computeShortestPath fuel st2 = Some (Inr st3)"
    and s: "showAndRemberPath fuel (st3\<lparr>planReady := gval (node st3 (vx sv, vy sv)) \<noteq> PInf, actualPath := []\<rparr>) = Some (Inr st')"
    using assms(3) by (auto simp: mainPlanning_def Let_def split: sum.splits option.splits)
  define st1 where "st1 = st\<lparr>planReady := False, startNode := Some (vx sv, vy sv), lastNode := Some (vx sv, vy sv)\<rparr>"
  have i1: "planner_inv st1" using assms(1) lookup_coords_cell[OF assms(1) sv]
    by (simp add: st1_def planner_inv_unfold)
  have f1: "search_frame st st1" by (simp add: st1_def search_frame_def node_def cell_def)
  have "pq_abs (priorityQueue st1) = {#}" using assms(2) by (simp add: st1_def)
  note i2 = initializePlanning_inv[OF i1 this i[folded st1_def]]
  note i3 = computeShortestPath_inv[OF conjunct1[OF i2] c]
  have "planner_inv (st3\<lparr>planReady := gval (node st3 (vx sv, vy sv)) \<noteq> PInf, actualPath := []\<rparr>)"
    using i3 planner_inv_path(2)[of "st3\<lparr>planReady := gval (node st3 (vx sv, vy sv)) \<noteq> PInf\<rparr>"] by simp
  note i4 = showAndRemberPath_inv[OF this s]
  show ?thesis using f1 i2 i3 i4 search_frame_trans search_frame_path(2) by meson
qed

text \<open>
  C11. \<open>mainPlanning\<close> (lines 137-159), run from a well-formed state with an empty queue,
  returns a well-formed state in which the grid, the obstacles, the user's settings and the
  goal and obstacle flags of every cell are unchanged.
\<close>

lemma mainPlanning_inv:
  assumes "planner_inv st" "pq_abs (priorityQueue st) = {#}" "mainPlanning fuel st = Some (Inr st')"
  shows "planner_inv st' \<and> search_frame st st'"
  using mainPlanning_keeps_inv[OF assms] .

lemma replanning_keeps_inv:
  assumes "planner_inv st" "cell st a" "replanning fuel st a = Some (Inr (b, st'))"
  shows "planner_inv st' \<and> search_frame st st' \<and> km st \<le> km st' \<and> lastNode st' = startNode st \<and>
         startNode st' = startNode st \<and> goalNode st' = goalNode st \<and> planReady st' = b"
proof -
  note run = assms(3)[unfolded replanning_def]
  obtain l where l: "lastNode st = Some l" using run by (cases "lastNode st") auto
  obtain hv where hv: "vertex_h (node st l) (startNode st) (hIsZero st) (directNeighbors st) = Inr hv"
    using run l by (cases "vertex_h (node st l) (startNode st) (hIsZero st) (directNeighbors st)") auto
  define st1 where "st1 = st\<lparr>km := km st + hv, lastNode := startNode st\<rparr>"
  have run1: "(case ebind (updateVertex st1 a) (\<lambda>st2. efold updateVertex st2 (nbrs st2 a)) of
                  Inl e \<Rightarrow> Some (Inl e)
                | Inr st3 \<Rightarrow>
                    (case computeShortestPath fuel st3 of
                       None \<Rightarrow> None
                     | Some (Inl e) \<Rightarrow> Some (Inl e)
                     | Some (Inr st4) \<Rightarrow>
                         (case startNode st4 of
                            None \<Rightarrow> Some (Inl AttributeError)
                          | Some s \<Rightarrow>
                              (let ready = gval (node st4 s) \<noteq> PInf in
                               Some (Inr (ready, st4\<lparr>planReady := ready\<rparr>)))))) = Some (Inr (b, st'))"
    using run l hv by (simp add: st1_def)
  obtain st3 where u: "ebind (updateVertex st1 a) (\<lambda>st2. efold updateVertex st2 (nbrs st2 a)) = Inr st3"
    using run1 by (cases "ebind (updateVertex st1 a) (\<lambda>st2. efold updateVertex st2 (nbrs st2 a))") auto
  obtain st4 where c: "computeShortestPath fuel st3 = Some (Inr st4)"
    using run1 u by (cases "computeShortestPath fuel st3" rule: option.exhaust) (auto split: sum.splits)
  obtain s where sn: "startNode st4 = Some s" using run1 u c by (cases "startNode st4") auto
  have r: "st' = st4\<lparr>planReady := b\<rparr>" using run1 u c sn by (auto simp: Let_def)
  have i1: "planner_inv st1" using assms(1) by (simp add: st1_def planner_inv_unfold)
  have f1: "search_frame st st1" by (simp add: st1_def search_frame_def node_def cell_def)
  obtain st2 where u1: "updateVertex st1 a = Inr st2" and u2: "efold updateVertex st2 (nbrs st2 a) = Inr st3"
    using u by (auto simp: ebind_eq_Inr)
  have c1: "cell st1 a" using assms(2) by (simp add: st1_def cell_def)
  note v2 = updateVertex_inv[OF i1 c1 u1]
  have c2: "cell st2 a" using c1 v2 config_cell by blast
  note v3 = efold_updateVertex_inv[OF conjunct1[OF v2] nbrs_cells[OF conjunct1[OF v2] c2] u2]
  note v4 = computeShortestPath_inv[OF conjunct1[OF v3] c]
  have cfg: "config st4 = config st1" using v2 v3 v4 by simp
  have "km st \<le> km st1" using vertex_h_Inr[OF hv] by (simp add: st1_def pyfloat_le_add_right)
  moreover have "search_frame st st4" using f1 v2 v3 v4 search_frame_trans by blast
  then have "search_frame st st'" unfolding r using search_frame_trans search_frame_upd(5) by blast
  ultimately show ?thesis using v4 config_eqD[OF cfg] r by (simp add: st1_def)
qed

text \<open>
  C12. \<open>replanning\<close> (lines 265-275), for a vertex of the grid, returns a well-formed state
  with the same grid, obstacles and flags; the key offset \<open>km\<close> never decreases, the last
  node becomes the start node, and the returned flag is the new \<open>planReady\<close>.
\<close>

lemma replanning_inv:
  assumes "planner_inv st" "cell st a" "replanning fuel st a = Some (Inr (b, st'))"
  shows "planner_inv st' \<and> search_frame st st' \<and> km st \<le> km st' \<and> lastNode st' = startNode st \<and>
         startNode st' = startNode st \<and> goalNode st' = goalNode st \<and> planReady st' = b"
  using replanning_keeps_inv[OF assms] .

text \<open>
  C10. \<open>computeShortestPath\<close> (lines 102-134) keeps the invariant: the queue stays a heap
  without duplicates; start, goal, key offset, obstacles and settings are unchanged; and no
  cell changes its goal or obstacle flag.
\<close>

corollary computeShortestPath_keeps_inv:
  assumes "planner_inv st" "computeShortestPath fuel st = Some (Inr st')"
  shows "planner_inv st' \<and> pq_inv (priorityQueue st') \<and> distinct (pq_iter (priorityQueue st')) \<and>
    config st' = config st \<and> obstacles st' = obstacles st \<and>
    (\<forall>c. cell st c \<longrightarrow> isGoal (node st' c) = isGoal (node st c) \<and> isObstacle (node st' c) = isObstacle (node st c))"
  using computeShortestPath_inv[OF assms] by (simp add: planner_inv_def queue_ok_def search_frame_def)

end
