(* ===== verification/App.thy ===== *)
theory App
  imports Ev3 Planner_Invariant
begin

text \<open>
  The application as a state machine: the states of the view reachable from its
  constructor through the event handlers of \<open>DStarLiteView.py\<close> in runs in which no
  handler raises, including planning
  (\<open>DStarLitePlanner.mainPlanning\<close>) and the execution of the plan, on screen or by the
  EV3 robot, with the user's clicks during the run (\<open>screenExecuter.py\<close>,
  \<open>ev3_executer.py\<close>). Tk goes on after a raising handler with the objects as the
  handler left them; the model's exceptions carry no state, so such runs are not
  followed here (\<open>Ev3.btnExec_ev3_silent_raises\<close> shows one). Every reachable state satisfies
  the planner invariant and keeps the obstacle set and the obstacle flags in step, so
  that the \<open>obstacles.remove(node)\<close> of \<open>canv_clicked\<close> never raises \<open>KeyError\<close>.
\<close>

section \<open>Invariants and reachable states\<close>

text \<open>
  The obstacle bookkeeping: the set \<open>obstacles\<close> holds exactly the cells whose vertex has
  its \<open>isObstacle\<close> flag (the source keeps both and updates them together in
  \<open>canv_clicked\<close> and \<open>ScreenExecuter.executePlan\<close>).
\<close>

definition grid_cells :: "planner \<Rightarrow> coord list" where
  "grid_cells p = List.product [0..width p - 1] [0..height p - 1]"

definition obs_ok :: "planner \<Rightarrow> bool" where
  "obs_ok p \<longleftrightarrow> obstacles p = set (filter (\<lambda>c. isObstacle (node p c)) (grid_cells p))"

text \<open>The planner invariant of the application: \<open>planner_inv\<close> and the obstacle bookkeeping.\<close>

definition app_inv :: "planner \<Rightarrow> bool" where
  "app_inv p \<longleftrightarrow> planner_inv p \<and> obs_ok p"

text \<open>
  The invariant of the view: its planner satisfies \<open>app_inv\<close>, the transient states
  \<open>inPlanning\<close> and \<open>inExecution\<close> are never left behind by a handler, and in design
  the priority queue is empty.
\<close>

definition view_ok :: "view \<Rightarrow> bool" where
  "view_ok v \<longleftrightarrow> app_inv (vplanner v) \<and> appState v \<in> {inDesign, planPresent, afterExecution} \<and>
     (appState v = inDesign \<longrightarrow> pq_abs (priorityQueue (vplanner v)) = {#})"

text \<open>
  The states the application reaches from the \<open>DStarLiteView\<close> constructor by the
  user's actions: the spin boxes (4 to 11), radio buttons, check boxes and the
  orientation combo box, the buttons (the execute button in either execution mode, on
  any host), and clicks on the grid (of any tags; clicks during execution are part of
  \<open>btnExec_clicked\<close>'s schedule). Only runs in which no handler raises are followed:
  a handler that raises leaves no state here, and the other events Tk could run inside
  \<open>master.update()\<close> (the Execute button and the execution tab's combo boxes during a
  run, the planning tab's check boxes during \<open>Slow step\<close> planning) are not delivered.
\<close>

inductive app_reach :: "view \<Rightarrow> bool" where
  init: "app_reach view_init"
| resize: "app_reach v \<Longrightarrow> 4 \<le> w \<Longrightarrow> w \<le> 11 \<Longrightarrow> 4 \<le> h \<Longrightarrow> h \<le> 11 \<Longrightarrow> app_reach (setGridSize v w h)"
| click_mode: "app_reach v \<Longrightarrow> m \<in> {1, 2, 3} \<Longrightarrow> app_reach (setClickMode v m)"
| h0: "app_reach v \<Longrightarrow> app_reach (setH0 v b)"
| direct: "app_reach v \<Longrightarrow> app_reach (setDirect v b)"
| orientation: "app_reach v \<Longrightarrow> ori \<in> {North, East, South, West} \<Longrightarrow> app_reach (setRoboOrientation v ori)"
| recreate: "app_reach v \<Longrightarrow> app_reach (btnRecreate_clicked v)"
| click: "app_reach v \<Longrightarrow> canv_clicked v x y = Inr v' \<Longrightarrow> app_reach v'"
| plan: "app_reach v \<Longrightarrow> btnPlan_clicked fuel v = Some (Inr v') \<Longrightarrow> app_reach v'"
| execute: "app_reach v \<Longrightarrow> btnExec_clicked fuel mode hst clicks v = Some (Inr v') \<Longrightarrow> app_reach v'"

text \<open>What a click in the grid leaves unchanged in the planner.\<close>

definition click_frame :: "planner \<Rightarrow> planner \<Rightarrow> bool" where
  "click_frame p p' \<longleftrightarrow> width p' = width p \<and> height p' = height p \<and>
     priorityQueue p' = priorityQueue p \<and> startNode p' = startNode p \<and> goalNode p' = goalNode p \<and>
     lastNode p' = lastNode p \<and> actualPath p' = actualPath p \<and> km p' = km p \<and>
     planReady p' = planReady p \<and> hIsZero p' = hIsZero p \<and> directNeighbors p' = directNeighbors p \<and>
     viewDirectNeighbors p' = viewDirectNeighbors p"

section \<open>Preservation by the handlers\<close>

lemma set_grid_cells [simp]: "set (grid_cells p) = {c. cell p c}"
  by (auto simp: grid_cells_def cell_def in_grid_def in_range_def)

lemma obs_ok_iff: "obs_ok p \<longleftrightarrow> (\<forall>c. c \<in> obstacles p \<longleftrightarrow> cell p c \<and> isObstacle (node p c))"
  by (auto simp: obs_ok_def)

lemma vget_init_grid:
  "in_grid w h c \<Longrightarrow> vget (init_grid w h) c = new_vertex (fst c) (snd c)"
  by (cases c) (auto simp: vget_def init_grid_def in_grid_def in_range_def nth_upto)

lemma app_inv_init: "app_inv (planner_init w h hz d)"
proof -
  have "planner_inv (planner_init w h hz d)"
    using init_grid_wf pq_init_inv
    by (simp add: planner_init_def planner_inv_def grid_ok_def queue_ok_def nodes_ok_def pq_iter_def pq_init_def)
  moreover have "obs_ok (planner_init w h hz d)"
    using vget_init_grid by (simp add: obs_ok_iff planner_init_def cell_def node_def)
  ultimately show ?thesis by (simp add: app_inv_def)
qed

lemma planner_inv_obstacles [simp]:
  "planner_inv (p\<lparr>obstacles := X\<rparr>) = planner_inv p"
  "planner_inv (p\<lparr>startCoordinates := s\<rparr>) = planner_inv p"
  "planner_inv (p\<lparr>goalCoordinates := g\<rparr>) = planner_inv p"
  "planner_inv (p\<lparr>hIsZero := hz\<rparr>) = planner_inv p"
  "planner_inv (p\<lparr>directNeighbors := dn\<rparr>) = planner_inv p"
  "planner_inv (p\<lparr>viewDirectNeighbors := dn\<rparr>) = planner_inv p"
  by (simp_all add: planner_inv_unfold queue_ok_def)

lemma node_planner_upd [simp]:
  "node (p\<lparr>obstacles := X\<rparr>) = node p" "node (p\<lparr>startCoordinates := s\<rparr>) = node p"
  "node (p\<lparr>goalCoordinates := g\<rparr>) = node p"
  by (simp_all add: node_def fun_eq_iff)

lemma app_inv_set_node:
  assumes "app_inv p" "cell p c" "vx v = fst c" "vy v = snd c" "vkey v = vkey (node p c)"
    "X = (if isObstacle v then insert c (obstacles p) else obstacles p - {c})"
  shows "app_inv ((set_node p c v)\<lparr>obstacles := X\<rparr>)"
proof -
  have i: "planner_inv p" and o: "obs_ok p" using assms(1) by (simp_all add: app_inv_def)
  have g: "grid_ok p" using i by (simp add: planner_inv_def)
  have "pq_member (priorityQueue p) c \<Longrightarrow> vkey v \<noteq> None"
    using i assms(5) by (auto simp: planner_inv_def queue_ok_def pq_member_def vk_def)
  then have pi: "planner_inv (set_node p c v)" using planner_inv_set_node[OF i assms(2-4)] by blast
  have "d \<in> X \<longleftrightarrow> cell p d \<and> isObstacle (node (set_node p c v) d)" for d
  proof (cases "d = c")
    case True
    then show ?thesis using node_set_node[OF g assms(2,2)] assms(2,6) by simp
  next
    case False
    have od: "d \<in> obstacles p \<longleftrightarrow> cell p d \<and> isObstacle (node p d)" using o unfolding obs_ok_iff by blast
    show ?thesis using node_set_node[OF g assms(2), of d] od assms(6) False by auto
  qed
  then have "obs_ok ((set_node p c v)\<lparr>obstacles := X\<rparr>)" by (simp add: obs_ok_iff cell_def)
  then show ?thesis using pi by (simp add: app_inv_def)
qed
lemma click_frame_simps [simp]:
  "click_frame p p"
  "click_frame p (set_node p c v)"
  "click_frame p (p\<lparr>obstacles := X\<rparr>)"
  "click_frame p (p\<lparr>startCoordinates := s\<rparr>)"
  "click_frame p (p\<lparr>goalCoordinates := g\<rparr>)"
  by (simp_all add: click_frame_def set_node_def)

lemma click_frame_trans: "click_frame p1 p2 \<Longrightarrow> click_frame p2 p3 \<Longrightarrow> click_frame p1 p3"
  by (simp add: click_frame_def)

lemma app_inv_coords [simp]:
  "app_inv (p\<lparr>startCoordinates := s\<rparr>) = app_inv p" "app_inv (p\<lparr>goalCoordinates := g\<rparr>) = app_inv p"
  by (simp_all add: app_inv_def obs_ok_def grid_cells_def)

lemma app_inv_lookup:
  assumes "app_inv p" "grid_lookup (vertexGrid p) c = Inr n"
  shows "cell p (vx n, vy n) \<and> node p (vx n, vy n) = n \<and>
         ((vx n, vy n) \<in> obstacles p \<longleftrightarrow> isObstacle n)"
proof -
  have "grid_ok p" "obs_ok p" using assms(1) by (simp_all add: app_inv_def planner_inv_def)
  then show ?thesis using grid_lookup_cell[OF _ assms(2)]
    by (auto simp: grid_ok_def cell_def node_def obs_ok_iff)
qed

lemma set_goal_flag_inv:
  assumes "app_inv p" "set_goal_flag p c b = Inr p'"
  shows "app_inv p' \<and> click_frame p p'"
proof -
  obtain n where n: "grid_lookup (vertexGrid p) c = Inr n"
    and p': "p' = set_node p (vx n, vy n) (setIsGoal n b)"
    using assms(2) by (auto simp: set_goal_flag_def ebind_eq_Inr)
  note l = app_inv_lookup[OF assms(1) n]
  have "app_inv ((set_node p (vx n, vy n) (setIsGoal n b))\<lparr>obstacles := obstacles p\<rparr>)"
    using l by (intro app_inv_set_node[OF assms(1)]) auto
  then show ?thesis by (simp add: p' set_node_def click_frame_def)
qed

lemma setGoalCoordinates_inv:
  assumes "app_inv p" "setGoalCoordinates p x y = Inr p'"
  shows "app_inv p' \<and> click_frame p p'"
proof -
  obtain p1 where p1: "app_inv p1 \<and> click_frame p p1"
    and r: "set_goal_flag (p1\<lparr>goalCoordinates := Some (x, y)\<rparr>) (x, y) True = Inr p'"
  proof (cases "goalCoordinates p")
    case None
    then show ?thesis using that[of p] assms by (simp add: setGoalCoordinates_def)
  next
    case (Some c)
    then obtain p1 where "set_goal_flag p c False = Inr p1"
      "set_goal_flag (p1\<lparr>goalCoordinates := Some (x, y)\<rparr>) (x, y) True = Inr p'"
      using assms(2) by (auto simp: setGoalCoordinates_def ebind_eq_Inr)
    then show ?thesis using that set_goal_flag_inv[OF assms(1)] by blast
  qed
  have "app_inv (p1\<lparr>goalCoordinates := Some (x, y)\<rparr>)" using p1 by simp
  from set_goal_flag_inv[OF this r] p1 show ?thesis
    using click_frame_trans click_frame_simps(5) by blast
qed

lemma toggle_obstacle_inv:
  assumes "app_inv (vplanner v)" "toggle_obstacle v x y = Inr v'"
  shows "\<exists>p'. v' = v\<lparr>vplanner := p'\<rparr> \<and> app_inv p' \<and> click_frame (vplanner v) p'"
proof -
  let ?p = "vplanner v"
  obtain n where n: "grid_lookup (vertexGrid ?p) (x, y) = Inr n"
    using assms(2) by (cases "grid_lookup (vertexGrid ?p) (x, y)") (auto simp: toggle_obstacle_def)
  note l = app_inv_lookup[OF assms(1) n]
  have ok: "app_inv ((set_node ?p (vx n, vy n) (n\<lparr>isObstacle := b\<rparr>))\<lparr>obstacles := X\<rparr>)"
    if "X = (if b then insert (vx n, vy n) (obstacles ?p) else obstacles ?p - {(vx n, vy n)})" for b X
    using l that by (intro app_inv_set_node[OF assms(1)]) auto
  have fr: "click_frame ?p ((set_node ?p c w)\<lparr>obstacles := X\<rparr>)" for c w X
    by (simp add: click_frame_def set_node_def)
  let ?c = "(vx n, vy n)"
  consider (add) "v' = v\<lparr>vplanner := (set_node ?p ?c (n\<lparr>isObstacle := True\<rparr>))\<lparr>obstacles := insert ?c (obstacles ?p)\<rparr>\<rparr>"
    | (del) "v' = v\<lparr>vplanner := (set_node ?p ?c (n\<lparr>isObstacle := False\<rparr>))\<lparr>obstacles := obstacles ?p - {?c}\<rparr>\<rparr>"
    | (keep) "v' = v"
    using assms(2) n by (auto simp: toggle_obstacle_def Let_def split: if_splits)
  then show ?thesis
  proof cases
    case add
    then show ?thesis using ok[where b=True] fr by auto
  next
    case del
    then show ?thesis using ok[where b=False] fr by auto
  next
    case keep
    then show ?thesis using assms(1) by (intro exI[of _ ?p]) simp
  qed
qed
lemma canv_clicked_cases:
  assumes "canv_clicked v x y = Inr v'"
  shows "v' = v \<or> v' = v\<lparr>vplanner := setStartCoordinates (vplanner v) x y\<rparr> \<or>
    (\<exists>p. setGoalCoordinates (vplanner v) x y = Inr p \<and> v' = v\<lparr>vplanner := p\<rparr>) \<or>
    toggle_obstacle v x y = Inr v'"
proof (cases "appState v = inDesign \<or> appState v = inExecution")
  case False
  then show ?thesis using assms by (simp add: canv_clicked_def)
next
  case True
  show ?thesis
  proof (cases "isNodeOccupied v x y (clickModeVal v)")
    case (Inl err)
    then show ?thesis using assms True by (simp add: canv_clicked_def)
  next
    case (Inr occ)
    have r: "(if occ then Inr v
          else if clickModeVal v = 1 then Inr (v\<lparr>vplanner := setStartCoordinates (vplanner v) x y\<rparr>)
          else if clickModeVal v = 2 then
            ebind (setGoalCoordinates (vplanner v) x y) (\<lambda>p. Inr (v\<lparr>vplanner := p\<rparr>))
          else if clickModeVal v = 3 then toggle_obstacle v x y
          else Inr v) = Inr v'"
      using assms True Inr by (simp add: canv_clicked_def)
    then show ?thesis
      by (cases occ; cases "clickModeVal v = 1"; cases "clickModeVal v = 2"; cases "clickModeVal v = 3")
         (simp_all add: ebind_eq_Inr, blast)
  qed
qed
lemma canv_clicked_inv:
  assumes "app_inv (vplanner v)" "canv_clicked v x y = Inr v'"
  shows "\<exists>p'. v' = v\<lparr>vplanner := p'\<rparr> \<and> app_inv p' \<and> click_frame (vplanner v) p'"
proof -
  consider (same) "v' = v" | (start) "v' = v\<lparr>vplanner := setStartCoordinates (vplanner v) x y\<rparr>"
    | (goal) p where "setGoalCoordinates (vplanner v) x y = Inr p" "v' = v\<lparr>vplanner := p\<rparr>"
    | (obst) "toggle_obstacle v x y = Inr v'"
    using canv_clicked_cases[OF assms(2)] by blast
  then show ?thesis
  proof cases
    case same
    then show ?thesis using assms(1) by (intro exI[of _ "vplanner v"]) simp
  next
    case start
    then show ?thesis using assms(1)
      by (intro exI[of _ "setStartCoordinates (vplanner v) x y"]) (simp add: setStartCoordinates_def)
  next
    case (goal p)
    then show ?thesis using setGoalCoordinates_inv[OF assms(1) goal(1)] by blast
  next
    case obst
    then show ?thesis using toggle_obstacle_inv[OF assms(1)] by blast
  qed
qed

lemma foldl_tk_click_inv:
  "app_inv (vplanner v) \<Longrightarrow>
   \<exists>p'. foldl tk_click v b = v\<lparr>vplanner := p'\<rparr> \<and> app_inv p' \<and> click_frame (vplanner v) p'"
proof (induction b arbitrary: v)
  case Nil
  then show ?case by (intro exI[of _ "vplanner v"]) simp
next
  case (Cons c b)
  obtain p1 where p1: "tk_click v c = v\<lparr>vplanner := p1\<rparr>" "app_inv p1" "click_frame (vplanner v) p1"
  proof (cases "canv_clicked v (fst c) (snd c)")
    case (Inl err)
    then show ?thesis using that[of "vplanner v"] Cons.prems by (simp add: tk_click_def)
  next
    case (Inr v')
    then show ?thesis using that canv_clicked_inv[OF Cons.prems Inr] by (auto simp: tk_click_def)
  qed
  obtain p2 where "foldl tk_click (v\<lparr>vplanner := p1\<rparr>) b = v\<lparr>vplanner := p2\<rparr>" "app_inv p2" "click_frame p1 p2"
    using Cons.IH[of "v\<lparr>vplanner := p1\<rparr>"] p1(2) by auto
  then show ?case using p1 click_frame_trans by auto
qed

lemma set_planner_same [simp]: "set_planner e (planner_of e) = e"
  by (simp add: set_planner_def planner_of_def)

lemma tk_update_inv:
  assumes "app_inv (planner_of e)"
  shows "\<exists>p'. tk_update e = (set_planner e p')\<lparr>pending := tl (pending e)\<rparr> \<and> app_inv p' \<and>
           click_frame (planner_of e) p'"
proof (cases "pending e")
  case Nil
  then show ?thesis using assms by (intro exI[of _ "planner_of e"]) (simp add: tk_update_def)
next
  case (Cons b bs)
  obtain p' where "foldl tk_click (ex_view e) b = (ex_view e)\<lparr>vplanner := p'\<rparr>" "app_inv p'"
    "click_frame (planner_of e) p'"
    using foldl_tk_click_inv[of "ex_view e" b] assms by (auto simp: planner_of_def)
  then show ?thesis using Cons by (intro exI[of _ p']) (simp add: tk_update_def set_planner_def)
qed
lemma obs_ok_frame:
  assumes "obs_ok p" "search_frame p p'"
  shows "obs_ok p'"
proof -
  have "d \<in> obstacles p' \<longleftrightarrow> cell p' d \<and> isObstacle (node p' d)" for d
  proof -
    have "d \<in> obstacles p \<longleftrightarrow> cell p d \<and> isObstacle (node p d)" using assms(1) unfolding obs_ok_iff by blast
    moreover have "cell p d \<longrightarrow> isObstacle (node p' d) = isObstacle (node p d)"
      using assms(2) unfolding search_frame_def by blast
    ultimately show ?thesis using assms(2) search_frame_cell[OF assms(2)] by (auto simp: search_frame_def)
  qed
  then show ?thesis unfolding obs_ok_iff by blast
qed

lemma app_inv_frame:
  "planner_inv p' \<Longrightarrow> app_inv p \<Longrightarrow> search_frame p p' \<Longrightarrow> app_inv p'"
  using obs_ok_frame by (auto simp: app_inv_def)

lemma app_inv_startNode:
  "app_inv p \<Longrightarrow> cell p s \<Longrightarrow> app_inv (p\<lparr>startNode := Some s\<rparr>)"
  by (simp add: app_inv_def planner_inv_unfold queue_ok_def obs_ok_def grid_cells_def)

lemma cell_startNode [simp]: "cell (p\<lparr>startNode := x\<rparr>) = cell p"
  by (simp add: cell_def fun_eq_iff)

lemma moveRobot_inv:
  assumes "app_inv (planner_of e)" "cell (planner_of e) t" "moveRobot rb e f t ori cmd = Inr (rr, e')"
  shows "app_inv (planner_of e') \<and> cell (planner_of e') = cell (planner_of e)"
  using assms app_inv_startNode[OF assms(1,2)]
  by (auto simp: moveRobot_def ebind_eq_Inr split: option.splits prod.splits if_splits)

lemma orientRobotTo_inv:
  assumes "app_inv (planner_of e)" "orientRobotTo rb e n = Inr (rr, e')"
  shows "app_inv (planner_of e') \<and> cell (planner_of e') = cell (planner_of e)"
proof -
  obtain s where s: "startNode (planner_of e) = Some s"
    using assms(2) by (cases "startNode (planner_of e)") (auto simp: orientRobotTo_def)
  have cs: "cell (planner_of e) s" using assms(1) s planner_inv_nodes(1) by (simp add: app_inv_def)
  obtain ori where c: "calcOrientation s n = Inr ori"
    using assms(2) s by (cases "calcOrientation s n") (auto simp: orientRobotTo_def)
  show ?thesis
  proof (cases "actualOrientation e \<noteq> Some ori")
    case True
    then have "moveRobot rb e (Some s) s (Some ori) True = Inr (rr, e')"
      using assms(2) s c by (simp add: orientRobotTo_def)
    then show ?thesis using moveRobot_inv[OF assms(1) cs] by blast
  next
    case False
    then show ?thesis using assms s c by (simp add: orientRobotTo_def)
  qed
qed


lemma tk_update_cell:
  assumes "app_inv (planner_of e)"
  shows "app_inv (planner_of (tk_update e)) \<and> cell (planner_of (tk_update e)) = cell (planner_of e)"
proof -
  obtain p' where "tk_update e = (set_planner e p')\<lparr>pending := tl (pending e)\<rparr>" "app_inv p'"
    "click_frame (planner_of e) p'"
    using tk_update_inv[OF assms] by blast
  then show ?thesis by (simp add: click_frame_def cell_def fun_eq_iff planner_of_def set_planner_def)
qed
lemma py_index_path_cell:
  assumes "app_inv p" "py_index (actualPath p) i = Inr c"
  shows "cell p c"
proof -
  obtain j where "j < length (actualPath p)" "c = actualPath p ! j" using py_index_Inr[OF assms(2)] by blast
  then have "c \<in> set (actualPath p)" by simp
  then show ?thesis using assms(1) planner_inv_nodes(4) by (simp add: app_inv_def)
qed

lemma putRobotAtInitPos_inv:
  assumes inv: "app_inv (planner_of e)" and run: "putRobotAtInitPos rb e = Inr (rr, e')"
  shows "app_inv (planner_of e') \<and> cell (planner_of e') = cell (planner_of e)"
proof -
  obtain s0 where i0: "py_index (actualPath (planner_of e)) 0 = Inr s0"
    using run by (cases "py_index (actualPath (planner_of e)) 0") (auto simp: putRobotAtInitPos_def)
  define e1 where "e1 = (set_planner e ((planner_of e)\<lparr>startNode := Some s0\<rparr>))
                  \<lparr>actualOrientation := Some (cbRoboOrientation (ex_view e))\<rparr>"
  have c0: "cell (planner_of e) s0" using py_index_path_cell[OF inv i0] .
  have i1: "app_inv (planner_of e1)" "cell (planner_of e1) = cell (planner_of e)"
    using app_inv_startNode[OF inv c0] by (simp_all add: e1_def)
  obtain x2 e2 where m1: "moveRobot rb e1 (Some (0, 0)) s0 (actualOrientation e1) False = Inr (x2, e2)"
    using run i0 by (cases "moveRobot rb e1 (Some (0, 0)) s0 (actualOrientation e1) False")
      (auto simp: putRobotAtInitPos_def e1_def Let_def)
  have i2: "app_inv (planner_of e2)" "cell (planner_of e2) = cell (planner_of e)"
    using moveRobot_inv[OF i1(1) _ m1] c0 i1(2) by auto
  define e3 where "e3 = tk_update e2"
  have i3: "app_inv (planner_of e3)" "cell (planner_of e3) = cell (planner_of e)"
    using tk_update_cell[OF i2(1)] i2(2) by (simp_all add: e3_def)
  have run3: "(case startNode (planner_of e3) of
           None \<Rightarrow> Inl AttributeError
         | Some s \<Rightarrow>
             ebind (py_index (actualPath (planner_of e3)) 1) (\<lambda>s1.
               ebind (calcOrientation s s1) (\<lambda>ori.
                 ebind (if Some ori \<noteq> actualOrientation e3
                        then moveRobot rb e3 (Some s) s (Some ori) True
                        else ebind (rb_obstacleStartCheck rb (robot e3)) (\<lambda>(res, r).
                               Inr (res, e3\<lparr>robot := r\<rparr>))) (\<lambda>(res, e4).
                   Inr (res, tk_update e4))))) = Inr (rr, e')"
    unfolding e3_def using run i0 m1 by (simp add: putRobotAtInitPos_def e1_def Let_def)
  obtain s where s: "startNode (planner_of e3) = Some s"
    using run3 by (cases "startNode (planner_of e3)") auto
  have cs: "cell (planner_of e3) s" using i3(1) s planner_inv_nodes(1) by (simp add: app_inv_def)
  obtain s1 where s1: "py_index (actualPath (planner_of e3)) 1 = Inr s1"
    using run3 s by (cases "py_index (actualPath (planner_of e3)) 1") auto
  obtain ori where ori: "calcOrientation s s1 = Inr ori"
    using run3 s s1 by (cases "calcOrientation s s1") auto
  have r4: "ebind (if Some ori \<noteq> actualOrientation e3 then moveRobot rb e3 (Some s) s (Some ori) True
                   else ebind (rb_obstacleStartCheck rb (robot e3)) (\<lambda>(res, r). Inr (res, e3\<lparr>robot := r\<rparr>)))
                   (\<lambda>(res, e4). Inr (res, tk_update e4)) = Inr (rr, e')"
    using run3 s s1 ori by simp
  obtain rr4 e4 where m4: "(if Some ori \<noteq> actualOrientation e3 then moveRobot rb e3 (Some s) s (Some ori) True
                   else ebind (rb_obstacleStartCheck rb (robot e3)) (\<lambda>(res, r). Inr (res, e3\<lparr>robot := r\<rparr>)))
                   = Inr (rr4, e4)" and e': "e' = tk_update e4"
    using r4 by (auto simp: ebind_eq_Inr)
  have "app_inv (planner_of e4) \<and> cell (planner_of e4) = cell (planner_of e3)"
  proof (cases "Some ori \<noteq> actualOrientation e3")
    case True
    then show ?thesis using m4 moveRobot_inv[OF i3(1) cs] by simp
  next
    case False
    then show ?thesis using m4 i3(1) by (auto simp: ebind_eq_Inr)
  qed
  then show ?thesis using tk_update_cell e' i3(2) by metis
qed
lemma reportsObstacle_planner:
  "reportsObstacle rb e = Inr (b, e') \<Longrightarrow> planner_of e' = planner_of e"
  by (auto simp: reportsObstacle_def ebind_eq_Inr)

lemma markObstacle_inv:
  assumes "app_inv p" "cell p c"
  shows "app_inv (markObstacle p c) \<and> cell (markObstacle p c) = cell p"
proof -
  have g: "grid_ok p" using assms(1) by (simp add: app_inv_def planner_inv_def)
  have "app_inv (markObstacle p c)"
    unfolding markObstacle_def using node_coords[OF g assms(2)]
    by (intro app_inv_set_node[OF assms]) simp_all
  then show ?thesis by (simp add: markObstacle_def set_node_def cell_def fun_eq_iff)
qed

lemma drive_steps_inv:
  "app_inv (planner_of e) \<Longrightarrow> drive_steps rb fuel e step res = Some (Inr (e', ab, r)) \<Longrightarrow>
   app_inv (planner_of e')"
proof (induction fuel arbitrary: e step res)
  case 0
  then show ?case by simp
next
  case (Suc fuel)
  show ?case
  proof (cases "step < length (actualPath (planner_of e)) \<and> res")
    case False
    then show ?thesis using Suc.prems by auto
  next
    case True
    define nextV where "nextV = actualPath (planner_of e) ! step"
    have cn: "cell (planner_of e) nextV"
      using True Suc.prems(1) planner_inv_nodes(4) by (simp add: nextV_def app_inv_def)
    obtain r1 e1 where o: "orientRobotTo rb e nextV = Inr (r1, e1)"
      using Suc.prems(2) True by (cases "orientRobotTo rb e nextV") (auto simp: nextV_def Let_def)
    note i1 = orientRobotTo_inv[OF Suc.prems(1) o]
    let ?e2 = "tk_update e1"
    have i2: "app_inv (planner_of ?e2)" "cell (planner_of ?e2) = cell (planner_of e)"
      using tk_update_cell[OF conjunct1[OF i1]] i1 by simp_all
    have c2: "cell (planner_of ?e2) nextV" using cn i2(2) by simp
    note run = Suc.prems(2)
    obtain b e2' where chk: "(if isObstacle (node (planner_of ?e2) nextV) then Inr (True, ?e2)
                              else reportsObstacle rb ?e2) = Inr (b, e2')"
      using run True o
      by (cases "if isObstacle (node (planner_of ?e2) nextV) then Inr (True, ?e2) else reportsObstacle rb ?e2")
         (auto simp: nextV_def[symmetric] Let_def)
    have p2: "planner_of e2' = planner_of ?e2"
      using chk reportsObstacle_planner by (auto split: if_splits)
    show ?thesis
    proof (cases b)
      case obst: True
      obtain rep e3 where rp: "reportsObstacle rb e2' = Inr (rep, e3)"
        using run True o chk obst by (cases "reportsObstacle rb e2'") (auto simp: nextV_def[symmetric] Let_def)
      have p3: "planner_of e3 = planner_of ?e2" using reportsObstacle_planner[OF rp] p2 by simp
      define q where "q = (if rep \<and> \<not> isObstacle (node (planner_of e3) nextV)
                           then markObstacle (planner_of e3) nextV else planner_of e3)"
      have iq: "app_inv q" "cell q nextV"
        using markObstacle_inv[OF i2(1) c2] i2(1) c2 p3 by (auto simp: q_def)
      obtain ok p4 p5 where rpl: "replanning fuel q nextV = Some (Inr (ok, p4))"
        and sp: "showAndRemberPath fuel p4 = Some (Inr p5)" and e': "e' = set_planner e3 p5"
        using run True o chk obst rp by (auto simp: nextV_def[symmetric] q_def[symmetric] Let_def split: sum.splits option.splits)
      have piq: "planner_inv q" using iq(1) by (simp add: app_inv_def)
      note r4 = replanning_keeps_inv[OF piq iq(2) rpl]
      have i4: "app_inv p4" using app_inv_frame r4 iq(1) by blast
      note r5 = showAndRemberPath_inv[OF conjunct1[OF r4] sp]
      have "app_inv p5" using app_inv_frame r5 i4 by blast
      then show ?thesis by (simp add: e')
    next
      case free: False
      obtain r' e3 where mv: "(if r1 then moveRobot rb e2' (startNode (planner_of e2')) nextV (actualOrientation e2') True
                                else Inr (r1, e2')) = Inr (r', e3)"
        and rec: "drive_steps rb fuel (tk_update e3) (Suc step) r' = Some (Inr (e', ab, r))"
        using run True o chk free by (auto simp: nextV_def[symmetric] Let_def split: sum.splits if_splits)
      have i2': "app_inv (planner_of e2')" "cell (planner_of e2') nextV" using i2(1) c2 p2 by simp_all
      have i3: "app_inv (planner_of e3)"
        using mv moveRobot_inv[OF i2'] i2'(1) by (auto split: if_splits)
      show ?thesis using Suc.IH[OF conjunct1[OF tk_update_cell[OF i3]] rec] .
    qed
  qed
qed

lemma drive_inv:
  "app_inv (planner_of e) \<Longrightarrow> drive rb fuel e ab res = Some (Inr (e', ab', r)) \<Longrightarrow> app_inv (planner_of e')"
proof (induction fuel arbitrary: e ab res)
  case 0
  then show ?case by simp
next
  case (Suc fuel)
  show ?case
  proof (cases "startNode (planner_of e) \<noteq> goalNode (planner_of e) \<and> \<not> ab \<and> res")
    case False
    then show ?thesis using Suc.prems by auto
  next
    case True
    obtain e1 ab1 r1 where d: "drive_steps rb fuel e 1 res = Some (Inr (e1, ab1, r1))"
      and rec: "drive rb fuel e1 ab1 r1 = Some (Inr (e', ab', r))"
      using Suc.prems(2) True by (auto split: option.splits sum.splits)
    show ?thesis using Suc.IH[OF drive_steps_inv[OF Suc.prems(1) d] rec] .
  qed
qed

lemma executePlan_inv:
  assumes "app_inv (planner_of e)" "executePlan rb fuel e = Some (Inr (rr, e'))"
  shows "app_inv (planner_of e')"
proof -
  obtain c msg r0 where c: "rb_connectRealRobot rb (robot e) = ((c, msg), r0)" by (metis prod.exhaust)
  show ?thesis
  proof (cases "rb_executionAllowed rb (planner_of e) \<and> c")
    case False
    then have "planner_of e' = planner_of e" using assms(2) c by (cases c) (auto simp: executePlan_def split: if_splits)
    then show ?thesis using assms(1) by simp
  next
    case True
    obtain r1 e1 e2 ab r where p: "putRobotAtInitPos rb (e\<lparr>robot := r0\<rparr>) = Inr (r1, e1)"
      and d: "drive rb fuel e1 False r1 = Some (Inr (e2, ab, r))" and e': "planner_of e' = planner_of e2"
      using assms(2) True c
      by (auto simp: executePlan_def ebind_eq_Inr split: sum.splits option.splits if_splits)
    have "app_inv (planner_of (e\<lparr>robot := r0\<rparr>))" using assms(1) by simp
    from drive_inv[OF conjunct1[OF putRobotAtInitPos_inv[OF this p]] d] show ?thesis using e' by simp
  qed
qed

lemma executePlan_view_inv:
  assumes "app_inv (vplanner v)"
    "executePlan rb fuel \<lparr>ex_view = v, actualOrientation = a, pending = cl, robot = r\<rparr> = Some (Inr (y, e))"
  shows "app_inv (vplanner (ex_view e))"
  using executePlan_inv[OF _ assms(2)] assms(1) by (simp add: planner_of_def)

lemma map_sum_id_Inr: "map_sum id f z = Inr y \<longleftrightarrow> (\<exists>w. z = Inr w \<and> f w = y)"
  by (cases z) auto

lemma planner_executePlan_inv:
  assumes "app_inv (vplanner v)" "planner_executePlan fuel m hst clicks v = Some (Inr (x, v'))"
  shows "app_inv (vplanner v')"
  using assms executePlan_view_inv[OF assms(1), where rb=screen_robot]
    executePlan_view_inv[OF assms(1), where rb=ev3_robot]
  by (auto simp: planner_executePlan_def map_sum_id_Inr split: if_splits)

lemma app_inv_settings [simp]:
  "app_inv (p\<lparr>hIsZero := a, directNeighbors := b\<rparr>) = app_inv p"
  "app_inv (p\<lparr>viewDirectNeighbors := b\<rparr>) = app_inv p"
  by (simp_all add: app_inv_def obs_ok_def grid_cells_def node_def)

lemma view_ok_fresh [simp]: "view_ok view_init" "view_ok (btnRecreate_clicked v)"
  using app_inv_init
  by (simp_all add: view_ok_def view_init_def btnRecreate_clicked_def createGrid_def planner_init_def)
lemma btnPlan_inv:
  assumes "view_ok v" "btnPlan_clicked fuel v = Some (Inr v')"
  shows "view_ok v'"
proof (cases "appState v = inDesign \<and> areStartAndGoalSet (vplanner v)")
  case False
  then show ?thesis using assms by (auto simp: btnPlan_clicked_def view_ok_def)
next
  case True
  define p1 where "p1 = (vplanner v)\<lparr>hIsZero := h0_check v, directNeighbors := directNeigbors v\<rparr>"
  obtain p2 where m: "mainPlanning fuel p1 = Some (Inr p2)"
    using assms(2) True by (auto simp: btnPlan_clicked_def p1_def Let_def split: option.splits sum.splits)
  have i1: "app_inv p1" "pq_abs (priorityQueue p1) = {#}"
    using assms(1) True by (simp_all add: p1_def view_ok_def)
  have pi1: "planner_inv p1" using i1(1) by (simp add: app_inv_def)
  note m2 = mainPlanning_keeps_inv[OF pi1 i1(2) m]
  have i2: "app_inv p2" using app_inv_frame m2 i1(1) by blast
  have "v' = v\<lparr>appState := planPresent, vplanner := p2, checksEnabled := False\<rparr> \<or>
        v' = btnRecreate_clicked (v\<lparr>vplanner := p2, appState := inDesign\<rparr>)"
    using assms(2) True m by (auto simp: btnPlan_clicked_def p1_def Let_def split: if_splits)
  then show ?thesis
  proof
    assume "v' = v\<lparr>appState := planPresent, vplanner := p2, checksEnabled := False\<rparr>"
    then show ?thesis using i2 by (simp add: view_ok_def)
  next
    assume "v' = btnRecreate_clicked (v\<lparr>vplanner := p2, appState := inDesign\<rparr>)"
    then show ?thesis by simp
  qed
qed

lemma btnExec_inv:
  assumes "view_ok v" "btnExec_clicked fuel m hst clicks v = Some (Inr v')"
  shows "view_ok v'"
proof (cases "planReady (vplanner v)")
  case False
  then show ?thesis using assms by (simp add: btnExec_clicked_def)
next
  case True
  define v1 where "v1 = v\<lparr>appState := inExecution, clickModeVal := 3\<rparr>"
  obtain ok t v2 where x: "planner_executePlan fuel m hst clicks v1 = Some (Inr (Some (ok, t), v2))"
    and v': "v' = v2\<lparr>appState := (if ok then afterExecution else planPresent)\<rparr>"
    using assms(2) True by (auto simp: btnExec_clicked_def v1_def Let_def split: option.splits sum.splits)
  have "app_inv (vplanner v1)" using assms(1) by (simp add: v1_def view_ok_def)
  from planner_executePlan_inv[OF this x] show ?thesis by (simp add: v' view_ok_def)
qed

lemma canv_clicked_view_ok:
  assumes "view_ok v" "canv_clicked v x y = Inr v'"
  shows "view_ok v'"
proof -
  obtain p' where "v' = v\<lparr>vplanner := p'\<rparr>" "app_inv p'" "click_frame (vplanner v) p'"
    using canv_clicked_inv[OF _ assms(2)] assms(1) by (auto simp: view_ok_def)
  then show ?thesis using assms(1) by (simp add: view_ok_def click_frame_def)
qed

lemma view_ok_widgets:
  "view_ok v \<Longrightarrow> view_ok (setGridSize v w h)"
  "view_ok v \<Longrightarrow> view_ok (setClickMode v m)"
  "view_ok v \<Longrightarrow> view_ok (setH0 v b)"
  "view_ok v \<Longrightarrow> view_ok (setDirect v b)"
  "view_ok v \<Longrightarrow> view_ok (setRoboOrientation v ori)"
  by (simp_all add: view_ok_def setGridSize_def setClickMode_def setH0_def setDirect_def setRoboOrientation_def)

lemma app_reach_inv: "app_reach v \<Longrightarrow> view_ok v"
proof (induction rule: app_reach.induct)
  case (click v x y v')
  then show ?case using canv_clicked_view_ok by blast
next
  case (plan v fuel v')
  then show ?case using btnPlan_inv by blast
next
  case (execute v fuel mode hst clicks v')
  then show ?case using btnExec_inv by blast
qed (simp_all add: view_ok_widgets)

lemma grid_lookup_no_KeyError: "grid_lookup vg c \<noteq> Inl KeyError"
  by (auto simp: grid_lookup_def ebind_def py_index_def Let_def split: sum.splits)

section \<open>Properties of the reachable states\<close>

text \<open>
  C17. In every state the application reaches by a run in which no handler raises, the planner is well formed
  (\<open>planner_inv\<close>) and the set \<open>planner.obstacles\<close> is exactly the set of grid cells
  whose vertex is flagged \<open>isObstacle\<close>.
\<close>

theorem reachable_obstacles_consistent:
  assumes "app_reach v"
  shows "planner_inv (vplanner v) \<and>
         obstacles (vplanner v) = {c. cell (vplanner v) c \<and> isObstacle (node (vplanner v) c)}"
  using app_reach_inv[OF assms] by (auto simp: view_ok_def app_inv_def obs_ok_def)

text \<open>
  C18. In a reachable state a click in obstacle mode never raises the \<open>KeyError\<close> of
  \<open>self.planner.obstacles.remove(node)\<close> (DStarLiteView.py line 270): a flagged vertex is
  always in the set.
\<close>

theorem reachable_no_KeyError:
  assumes "app_reach v"
  shows "toggle_obstacle v x y \<noteq> Inl KeyError \<and> canv_clicked v x y \<noteq> Inl KeyError"
proof -
  have i: "app_inv (vplanner v)" using app_reach_inv[OF assms] by (simp add: view_ok_def)
  have t: "toggle_obstacle v x y \<noteq> Inl KeyError"
  proof
    assume k: "toggle_obstacle v x y = Inl KeyError"
    then obtain n where n: "grid_lookup (vertexGrid (vplanner v)) (x, y) = Inr n"
      using grid_lookup_no_KeyError
      by (cases "grid_lookup (vertexGrid (vplanner v)) (x, y)") (auto simp: toggle_obstacle_def)
    show False using k n app_inv_lookup[OF i n] by (simp add: toggle_obstacle_def Let_def split: if_splits)
  qed
  moreover have "isNodeOccupied v x y m \<noteq> Inl KeyError" for m
    using grid_lookup_no_KeyError[of "vertexGrid (vplanner v)" "(x, y)"] by (cases "grid_lookup (vertexGrid (vplanner v)) (x, y)")
       (auto simp: isNodeOccupied_def Let_def ebind_def)
  moreover have "setGoalCoordinates p x y \<noteq> Inl KeyError" for p
    using grid_lookup_no_KeyError
    by (auto simp: setGoalCoordinates_def set_goal_flag_def ebind_def split: sum.splits option.splits)
  ultimately show ?thesis
    by (auto simp: canv_clicked_def ebind_def split: sum.splits if_splits)
qed

text \<open>
  C19. The application state machine, for runs in which no handler raises: every
  reachable state is \<open>inDesign\<close>, \<open>planPresent\<close> or \<open>afterExecution\<close>, since each
  handler that enters \<open>inPlanning\<close> or \<open>inExecution\<close> and returns leaves it again, in
  either execution mode and on any host; and in design the priority queue is empty, as
  \<open>mainPlanning\<close> requires. A raising handler can leave \<open>inExecution\<close> behind: see
  \<open>Ev3.btnExec_ev3_silent_raises\<close>.
\<close>

theorem reachable_app_state:
  assumes "app_reach v"
  shows "appState v \<in> {inDesign, planPresent, afterExecution} \<and>
         (appState v = inDesign \<longrightarrow> pq_abs (priorityQueue (vplanner v)) = {#})"
  using app_reach_inv[OF assms] by (simp add: view_ok_def)

end
