(* ===== verification/Spec2Isabelle.thy ===== *)
theory Spec2Isabelle
  imports App Mailbox
begin

text \<open>
  \<^bold>\<open>Interactive D* Lite\<close> (\<open>src/20_Raspberry_Pi_project\<close>): a Tk application in which the
  user draws a grid with a start, a goal and obstacles, plans a path with the D* Lite
  algorithm, and lets a robot drive it, on screen or as a Lego EV3 robot reached over
  Bluetooth. The view (\<open>DStarLiteView.py\<close>) owns the planner
  (\<open>DStarLitePlanner.py\<close>), which owns a grid of \<open>Vertex\<close> objects (\<open>vertex.py\<close>) and a
  priority queue (\<open>priorityQueue.py\<close>, on Python's \<open>heapq\<close>); the executers
  (\<open>screenExecuter.py\<close>, \<open>ev3_executer.py\<close>) drive the planned path and call the
  planner's \<open>replanning\<close> when an obstacle appears on it; \<open>EV3mailbox.py\<close> encodes the
  messages \<open>TMTCpi2EV3.py\<close> sends to the robot.

  \<^bold>\<open>Theories.\<close>
  \<^item> \<open>DStar_Prelude\<close>: Python's floats with \<open>inf\<close> (\<open>pyfloat\<close>), the exceptions the code
    raises as a datatype \<open>error\<close>, the error monad (\<open>ebind\<close>, \<open>efold\<close>, \<open>emap\<close>) for code
    that raises, Python list indexing (\<open>py_index\<close>), and shared lemmas.
  \<^item> \<open>Vertex\<close>: the \<open>Vertex\<close> record, \<open>h\<close>, \<open>calculateKey\<close> and \<open>__lt__\<close>.
  \<^item> \<open>Heapq\<close>: CPython's \<open>heapq\<close> algorithms (not in the repository, modelled from the
    library's documented code); \<open>PriorityQueue\<close>: the queue of \<open>(key, vertex)\<close>
    tuples, refining a multiset of entries (\<open>pq_abs\<close>).
  \<^item> \<open>Grid\<close>: \<open>vertexGrid\<close> as a list of columns, \<open>neighbors\<close>, \<open>neighborCost\<close>.
  \<^item> \<open>Planner\<close>: the planner's attributes as a record and every method that changes
    them; object references are coordinates (each vertex stores its own), a mutation
    of a vertex is written back into the grid. \<open>Planner_Invariant\<close>: the invariant
    \<open>planner_inv\<close> and the frame \<open>search_frame\<close> of the search.
  \<^item> \<open>View\<close>: the view's state and event handlers.
  \<^item> \<open>Executer\<close>: \<open>ScreenExecuter.executePlan\<close> and its helpers, generic over the robot:
    the methods a subclass overrides (\<open>executionAllowed\<close>, \<open>connectRealRobot\<close>,
    \<open>commandRobot\<close>, \<open>robotReportsObstacle\<close>, \<open>obstacleStartCheck\<close>, \<open>actionAtEnd\<close>)
    are a record \<open>'r robot\<close> of functions on the subclass's state \<open>'r\<close>, and the
    executer record carries that state; \<open>screen_robot\<close> is the base class's.
  \<^item> \<open>Mailbox\<close>: \<open>encodeMessage\<close> and \<open>decodeMessage\<close> on byte lists (\<open>8 word\<close>), with
    the little-endian fields as \<open>16 word\<close>.
  \<^item> \<open>Tmtc\<close>: \<open>TMTCpi2EV3\<close>; the serial port is its traffic, the messages written and
    what each poll of \<open>in_waiting\<close> finds, and \<open>sendTC\<close> is the write followed by the
    two bounded wait loops.
  \<^item> \<open>Ev3\<close>: \<open>EV3_Executer\<close>, its command tables and its overrides as \<open>ev3_robot\<close>
    (state: the subclass's attributes and the device at \<open>/dev/rfcomm0\<close>); the choice of
    the executer in \<open>DStarLitePlanner.executePlan\<close> (\<open>planner_executePlan\<close>, with the
    host's \<open>platform.system()\<close>) and \<open>btnExec_clicked\<close> with the execution mode.
  \<^item> \<open>App\<close>: the states Tk's event loop reaches from the view's constructor by runs in
    which no handler raises (inductive \<open>app_reach\<close>, including execution in either mode
    on any host) and their invariants.

  \<^bold>\<open>What is shown.\<close> \<open>updateVertex\<close> computes \<open>rsh\<close> and requeues as D* Lite requires;
  the queue operations refine the multiset of entries and \<open>pop\<close> returns a minimum;
  \<open>computeShortestPath\<close>, \<open>mainPlanning\<close> and \<open>replanning\<close> keep the planner
  invariant, change only what the search may change, and never decrease the key offset;
  the screen simulation reaches the goal on a free path; \<open>calcOrientation\<close> is right for every neighbour and raises
  exactly off the neighbourhood; the drawn grid has one rectangle per vertex for every
  size the spin boxes allow; every state of a run in which no handler raises keeps the
  obstacle set and the obstacle flags in step (so \<open>obstacles.remove\<close> never raises)
  and leaves no handler's transient state behind, whichever robot executes the plan; decoding an encoded mailbox message gives it back, and malformed
  messages raise. For the EV3 link: each wait of \<open>sendTC\<close> stops at the first poll that
  finds bytes and decodes exactly those, a command answered in time is sent and its telemetry returned, an
  unanswered one fails without awaiting telemetry. For the EV3 robot: the command
  tables turn the robot from every cardinal heading to every other, and raise
  \<open>KeyError\<close> exactly for diagonal or unset headings; a robot that reports an obstacle
  while driving is sent \<open>Stop\<close>; the EV3 mode without a robot leaves the plan in place;
  and a lost acknowledgement or a late telemetry makes \<open>commandRobot\<close> raise
  (\<open>IndexError\<close>, \<open>TypeError\<close>) instead of reporting the failure; the exception
  escapes \<open>btnExec_clicked\<close>, which has already entered \<open>inExecution\<close> and disabled the
  design and planning tabs.

  \<^bold>\<open>Fuel.\<close> The loops whose termination the source does not guarantee take a fuel
  argument and return \<open>None\<close> when it runs out: \<open>computeShortestPath\<close> and
  \<open>showAndRemberPath\<close> (one unit per pass), the executer's two loops (one unit per
  step and per replanning). \<open>executePlan_reaches_goal\<close> proves that fuel above the path
  length is enough on a free path; the example planner states use 20 and 100, checked
  by evaluation. The wait loops of \<open>sendTC\<close> are bounded by their deadlines (20 polls of
  0.1 s for the acknowledgement, \<open>10 * withinSeconds\<close> for the telemetry), so they are
  structural recursions on the number of polls left. The search is modelled as one
  step: the planning modes \<open>Slow step\<close> and \<open>Manual step\<close> only pause it for the
  display (see below for the events Tk runs in those pauses).

  \<^bold>\<open>Not modelled.\<close> The state a raising handler leaves: Tk reports the exception and
  goes on with the objects as the handler left them, but the model's exceptions carry no
  state, so \<open>app_reach\<close> follows only runs in which no handler raises; the handler-level
  theorem \<open>btnExec_ev3_silent_raises\<close> shows where the EV3 mode leaves that set.
  Events other than canvas clicks that Tk runs inside \<open>master.update()\<close>: during
  execution the Execute button and the execution tab's combo boxes stay enabled (a
  second click on Execute runs a nested execution); during \<open>Slow step\<close> planning the
  planning tab's check boxes stay enabled, and \<open>neighbors\<close> reads the view's check box
  on every call, so a toggle changes the neighbourhood in the middle of the search.
  Floating point rounding: floats are exact reals with \<open>inf\<close>. Comparing a vertex
  whose key is unset gives \<open>False\<close> where Python raises \<open>TypeError\<close> (only keyed
  vertices are ever queued). \<open>float(value)\<close> in \<open>encodeMessage\<close> also accepts numeric
  strings and booleans; the model encodes numbers only. Drawing, colours, texts, message boxes and delays, which change no
  state the program reads (\<open>createRobotIcons\<close>, \<open>putRealRobotAtInitPos\<close>'s dialog,
  \<open>delay\<close>); \<open>getClickInRectangle\<close>, replaced by the tags of the clicked rectangle;
  \<open>printMessage\<close> and the \<open>print\<close> calls; the time a serial read or a decoding takes
  (a wait loop is counted in polls); the robot's own program on the EV3, of which only
  the meaning of the turn commands is stated (\<open>quarter_turns\<close>). A run of the EV3 robot
  on a concrete port script is not evaluated: evaluating the word arithmetic of the
  codec by \<open>code_simp\<close> takes minutes per message, so the EV3 properties are proved
  symbolically instead.
\<close>

section \<open>Example states\<close>

text \<open>
  A 3 x 1 grid without heuristic and with four neighbours, start (0, 0) and goal (2, 0),
  after \<open>mainPlanning\<close>; the witnesses below apply the planner's theorems to it.
\<close>

definition example_start :: planner where
  "example_start = projr (setGoalCoordinates (setStartCoordinates (planner_init 3 1 True True) 0 0) 2 0)"

definition example_planned :: planner where
  "example_planned = projr (the (mainPlanning 20 example_start))"

text \<open>
  The view after a click on (0, 0) in start mode and on (4, 3) in goal mode on its default
  5 x 4 grid (four neighbours, \<open>h = 0\<close> off), after planning, and the screen executer that
  \<open>btnExec_clicked\<close> creates for it when the user clicks nothing.
\<close>

definition v_design :: view where
  "v_design = projr (canv_clicked (setClickMode (projr (canv_clicked view_init 0 0)) 2) 4 3)"
definition v_planned :: view where
  "v_planned = projr (the (btnPlan_clicked 100 v_design))"
definition ex_start :: "unit executer" where
  "ex_start = \<lparr>ex_view = v_planned\<lparr>appState := inExecution, clickModeVal := 3\<rparr>, actualOrientation = None,
     pending = [], robot = ()\<rparr>"

section \<open>Witnesses\<close>

theorem updateVertex_sets_rsh_witness:
  "grid_ok example_planned \<and> cell example_planned (1, 0) \<and>
   updateVertex example_planned (1, 0) = Inr (projr (updateVertex example_planned (1, 0))) \<and>
   rsh (node (projr (updateVertex example_planned (1, 0))) (1, 0)) = Min (nbr_values example_planned (1, 0))"
proof -
  have h: "grid_ok example_planned" "cell example_planned (1, 0)"
    "updateVertex example_planned (1, 0) = Inr (projr (updateVertex example_planned (1, 0)))"
    by code_simp+
  have g: "goalNode example_planned = Some (2, 0)" by code_simp
  show ?thesis using updateVertex_sets_rsh[OF h] h g by simp
qed

theorem updateVertex_queue_witness:
  "grid_ok example_planned \<and> cell example_planned (0, 0) \<and>
   updateVertex example_planned (0, 0) = Inr (projr (updateVertex example_planned (0, 0))) \<and>
   pq_inv (priorityQueue (projr (updateVertex example_planned (0, 0))))"
proof -
  have h: "grid_ok example_planned" "cell example_planned (0, 0)"
    "updateVertex example_planned (0, 0) = Inr (projr (updateVertex example_planned (0, 0)))"
    by code_simp+
  have i: "pq_inv (priorityQueue example_planned)" by code_simp
  show ?thesis using updateVertex_queue[OF h] h i by simp
qed


theorem mainPlanning_inv_witness:
  "planner_inv example_start \<and> pq_abs (priorityQueue example_start) = {#} \<and>
   mainPlanning 20 example_start = Some (Inr example_planned) \<and>
   planner_inv example_planned \<and> search_frame example_start example_planned"
proof -
  have h: "planner_inv example_start" "pq_abs (priorityQueue example_start) = {#}"
    "mainPlanning 20 example_start = Some (Inr example_planned)" by code_simp+
  show ?thesis using mainPlanning_inv[OF h] h by simp
qed

theorem replanning_inv_witness:
  "planner_inv example_planned \<and> cell example_planned (1, 0) \<and>
   replanning 20 example_planned (1, 0) = Some (Inr (True, snd (projr (the (replanning 20 example_planned (1, 0)))))) \<and>
   km example_planned \<le> km (snd (projr (the (replanning 20 example_planned (1, 0)))))"
proof -
  have h: "planner_inv example_planned" "cell example_planned (1, 0)"
    "replanning 20 example_planned (1, 0) = Some (Inr (True, snd (projr (the (replanning 20 example_planned (1, 0))))))"
    by code_simp+
  show ?thesis using replanning_inv[OF h] h by simp
qed

theorem computeShortestPath_keeps_inv_witness:
  "planner_inv example_planned \<and>
   computeShortestPath 20 example_planned = Some (Inr (projr (the (computeShortestPath 20 example_planned)))) \<and>
   distinct (pq_iter (priorityQueue (projr (the (computeShortestPath 20 example_planned)))))"
proof -
  have h: "planner_inv example_planned"
    "computeShortestPath 20 example_planned = Some (Inr (projr (the (computeShortestPath 20 example_planned))))"
    by code_simp+
  show ?thesis using computeShortestPath_keeps_inv[OF h] h by simp
qed

theorem executePlan_reaches_goal_witness:
  "pending ex_start = [] \<and> actualPath (planner_of ex_start) = actualPath (planner_of ex_start) \<and>
   2 \<le> length (actualPath (planner_of ex_start)) \<and>
   path_ok (planner_of ex_start) (actualPath (planner_of ex_start)) \<and>
   goalNode (planner_of ex_start) = Some (last (actualPath (planner_of ex_start))) \<and>
   length (actualPath (planner_of ex_start)) < 10 \<and>
   (\<exists>e'. executePlan screen_robot 10 ex_start = Some (Inr ((True, ''Goal reached.''), e')))"
proof -
  have h: "pending ex_start = []" "2 \<le> length (actualPath (planner_of ex_start))"
    "path_ok (planner_of ex_start) (actualPath (planner_of ex_start))"
    "goalNode (planner_of ex_start) = Some (last (actualPath (planner_of ex_start)))"
    "length (actualPath (planner_of ex_start)) < 10" by code_simp+
  show ?thesis using executePlan_reaches_goal[OF h(1) refl h(2-5)] h by blast
qed

lemma v_planned_reachable: "app_reach v_planned"
proof -
  have c1: "canv_clicked view_init 0 0 = Inr (projr (canv_clicked view_init 0 0))" by code_simp
  have r1: "app_reach (setClickMode (projr (canv_clicked view_init 0 0)) 2)"
    using app_reach.click_mode[OF app_reach.click[OF app_reach.init c1]] by simp
  have c2: "canv_clicked (setClickMode (projr (canv_clicked view_init 0 0)) 2) 4 3 = Inr v_design"
    unfolding v_design_def by code_simp
  have p: "btnPlan_clicked 100 v_design = Some (Inr v_planned)"
    unfolding v_planned_def by code_simp
  show ?thesis using app_reach.plan[OF app_reach.click[OF r1 c2] p] .
qed

theorem reachable_obstacles_consistent_witness:
  "app_reach v_planned \<and> planner_inv (vplanner v_planned) \<and> obstacles (vplanner v_planned) = {}"
proof -
  have "obstacles (vplanner v_planned) = {}" by code_simp
  then show ?thesis using reachable_obstacles_consistent[OF v_planned_reachable] v_planned_reachable by simp
qed

theorem reachable_no_KeyError_witness:
  "app_reach v_planned \<and> toggle_obstacle v_planned 2 0 \<noteq> Inl KeyError \<and> canv_clicked v_planned 2 0 \<noteq> Inl KeyError"
  using reachable_no_KeyError[OF v_planned_reachable] v_planned_reachable by simp

theorem reachable_app_state_witness:
  "app_reach v_planned \<and> appState v_planned \<in> {inDesign, planPresent, afterExecution}"
  using reachable_app_state[OF v_planned_reachable] v_planned_reachable by simp

end
